(* ===== verification/Prelude.thy ===== *)
theory Prelude
  imports Main "HOL-Library.Word" "HOL-Library.Monad_Syntax"
begin

text \<open>
  Shared vocabulary of the development: the fixed-width integer types of the C sources, the
  status codes of \<^verbatim>\<open>include/doca_error.h\<close>, byte access into memory, and the lemmas on
  lists, options and words that the component theories use.

  Conventions used by every component theory:
  \<^item> an unsigned C integer of width \<open>w\<close> is a \<open>w word\<close>, so \<open>+\<close>, \<open>-\<close> and \<open>*\<close> wrap as in C;
    the targets of the repository (aarch64, x86-64, DPA) are little-endian with a 32-bit
    \<open>int\<close> and a 64-bit \<open>long\<close> and pointer;
  \<^item> a call that fails with a status code returns \<open>Inl e\<close>, one that succeeds \<open>Inr x\<close>;
  \<^item> an access outside the memory the C code may touch makes the result \<open>None\<close>, so a
    theorem about \<open>Some\<close> also says that no such access happens.
\<close>

unbundle bit_operations_syntax

section \<open>Collections of the development\<close>

named_theorems byte_simps \<open>byte access and big-endian assembly\<close>
named_theorems mem_simps \<open>reads and writes of bounded memory\<close>
named_theorems parse_simps \<open>the C string functions on concrete and prefixed strings\<close>

section \<open>Integer types\<close>

type_synonym u8 = "8 word"
type_synonym u16 = "16 word"
type_synonym u32 = "32 word"
type_synonym u64 = "64 word"

section \<open>Status codes\<close>

datatype doca_error =
    DOCA_SUCCESS
  | DOCA_ERROR_UNKNOWN
  | DOCA_ERROR_NOT_PERMITTED
  | DOCA_ERROR_IN_USE
  | DOCA_ERROR_NOT_SUPPORTED
  | DOCA_ERROR_AGAIN
  | DOCA_ERROR_INVALID_VALUE
  | DOCA_ERROR_NO_MEMORY
  | DOCA_ERROR_INITIALIZATION
  | DOCA_ERROR_TIME_OUT
  | DOCA_ERROR_SHUTDOWN
  | DOCA_ERROR_CONNECTION_RESET
  | DOCA_ERROR_CONNECTION_ABORTED
  | DOCA_ERROR_CONNECTION_INPROGRESS
  | DOCA_ERROR_NOT_CONNECTED
  | DOCA_ERROR_NO_LOCK
  | DOCA_ERROR_NOT_FOUND
  | DOCA_ERROR_IO_FAILED
  | DOCA_ERROR_BAD_STATE
  | DOCA_ERROR_UNSUPPORTED_VERSION
  | DOCA_ERROR_OPERATING_SYSTEM
  | DOCA_ERROR_DRIVER
  | DOCA_ERROR_UNEXPECTED
  | DOCA_ERROR_ALREADY_EXIST
  | DOCA_ERROR_FULL
  | DOCA_ERROR_EMPTY
  | DOCA_ERROR_IN_PROGRESS
  | DOCA_ERROR_TOO_BIG

definition DOCA_ERROR_PROPAGATE :: "doca_error \<Rightarrow> doca_error \<Rightarrow> doca_error" where
  "DOCA_ERROR_PROPAGATE r t = (if r = DOCA_SUCCESS then t else r)"

section \<open>Bytes of a word\<close>

definition GET_BYTE :: "'a::len word \<Rightarrow> nat \<Rightarrow> u8" where
  "GET_BYTE v n = ucast (drop_bit (n * 8) v AND 0xFF)"

definition SET_BYTE :: "u8 \<Rightarrow> nat \<Rightarrow> 'a::len word" where
  "SET_BYTE v n = push_bit (n * 8) (ucast v AND 0xFF)"

lemma bit_mask_FF_int [byte_simps]: "bit (0xFF :: int) i \<longleftrightarrow> i < 8"
proof -
  have "(0xFF :: int) = mask 8"
    by (simp add: mask_eq_exp_minus_1)
  then show ?thesis
    by (simp only: bit_mask_iff) simp
qed

lemma bit_GET_BYTE [byte_simps]:
  "bit (GET_BYTE (v :: 'a::len word) n) i \<longleftrightarrow> i < 8 \<and> bit v (n * 8 + i)"
  by (auto simp: GET_BYTE_def bit_simps bit_mask_FF_int dest: bit_imp_le_length)

lemma bit_SET_BYTE [byte_simps]:
  "bit (SET_BYTE v n :: 'a::len word) i \<longleftrightarrow>
     n * 8 \<le> i \<and> i < LENGTH('a) \<and> bit v (i - n * 8)"
  by (auto simp: SET_BYTE_def bit_simps bit_mask_FF_int dest: bit_imp_le_length)

lemma unat_bound: "unat (v :: 'a::len word) < 2 ^ LENGTH('a)"
  by (rule unsigned_less)

text \<open>A counter below some bound does not wrap when it is incremented.\<close>

lemma unat_Suc_less: "(i :: 'a::len word) < n \<Longrightarrow> unat (i + 1) = Suc (unat i)"
proof -
  assume "i < n"
  then have "unat i < unat n" by (simp add: word_less_nat_alt)
  with unat_bound [of n] have "unat i + 1 < 2 ^ LENGTH('a)" by linarith
  then show ?thesis
    by (simp add: unat_word_ariths)
qed

lemma GET_SET_BYTE:
  "n * 8 + 8 \<le> LENGTH('a) \<Longrightarrow> GET_BYTE (SET_BYTE b m :: 'a::len word) n = (if m = n then b else 0)"
  by (rule bit_word_eqI) (auto simp: byte_simps dest!: bit_imp_le_length)

lemma GET_BYTE_or [byte_simps]: "GET_BYTE (x OR y) n = GET_BYTE x n OR GET_BYTE y n"
  by (rule bit_word_eqI) (auto simp: bit_or_iff byte_simps)

lemma unat_GET_BYTE: "unat (GET_BYTE (v :: 'a::len word) n) = unat v div 256 ^ n mod 256"
proof -
  have "GET_BYTE v n = ucast (drop_bit (n * 8) v)"
    by (rule bit_word_eqI) (auto simp: byte_simps bit_simps dest: bit_imp_le_length)
  moreover have "unat (drop_bit (n * 8) v) = unat v div 2 ^ (n * 8)"
    by (metis drop_bit_eq_div unat_drop_bit_eq)
  ultimately have "unat (GET_BYTE v n) = unat v div 2 ^ (n * 8) mod 256"
    by (simp add: unsigned_ucast_eq take_bit_eq_mod)
  also have "(2 :: nat) ^ (n * 8) = 256 ^ n"
    by (simp add: power_mult mult.commute [of n])
  finally show ?thesis .
qed

lemma unat_eq_of_nat: "unat (w :: 'a::len word) = n \<Longrightarrow> w = of_nat n"
  using unat_bound [of w] by (auto simp: word_unat_eq_iff unsigned_of_nat take_bit_eq_mod)

section \<open>Case expressions in assumptions\<close>

lemma case_sum_eq_conv:
  "(case r of Inl e \<Rightarrow> f e | Inr t \<Rightarrow> g t) = y \<longleftrightarrow> (\<exists>e. r = Inl e \<and> f e = y) \<or> (\<exists>t. r = Inr t \<and> g t = y)"
  by (cases r) auto

lemma case_option_eq_conv:
  "(case x of None \<Rightarrow> a | Some y \<Rightarrow> f y) = r \<longleftrightarrow> (x = None \<and> a = r) \<or> (\<exists>y. x = Some y \<and> f y = r)"
  by (cases x) auto

end
