(* ===== verification/Pack.thy ===== *)
theory Pack
  imports Prelude
begin

text \<open>
  The serialisation helpers of \<^verbatim>\<open>applications/common/pack.c\<close>. A \<^verbatim>\<open>uint8_t **buffer\<close> is a
  cursor: the bytes of the buffer it points into and the offset of its write or read head.
  A write or a read beyond the last byte of the buffer is \<open>None\<close>. The locale at the end states
  what a pair of pack/unpack functions promises, and every pair of the file is an instance.
\<close>

section \<open>Cursors\<close>

record cursor =
  mem :: "u8 list"
  head :: nat

definition write_byte :: "u8 \<Rightarrow> cursor \<Rightarrow> cursor option" where
  "write_byte b c =
     (if head c < length (mem c)
      then Some (c\<lparr>mem := (mem c)[head c := b], head := Suc (head c)\<rparr>) else None)"

definition read_byte :: "cursor \<Rightarrow> (u8 \<times> cursor) option" where
  "read_byte c =
     (if head c < length (mem c)
      then Some (mem c ! head c, c\<lparr>head := Suc (head c)\<rparr>) else None)"

fun write_bytes :: "u8 list \<Rightarrow> cursor \<Rightarrow> cursor option" where
  "write_bytes [] c = Some c"
| "write_bytes (b # bs) c = do { c \<leftarrow> write_byte b c; write_bytes bs c }"

fun read_bytes :: "nat \<Rightarrow> cursor \<Rightarrow> (u8 list \<times> cursor) option" where
  "read_bytes 0 c = Some ([], c)"
| "read_bytes (Suc n) c =
     do { (b, c) \<leftarrow> read_byte c; (bs, c) \<leftarrow> read_bytes n c; Some (b # bs, c) }"

section \<open>The functions of pack.c\<close>

definition ntohq :: "u64 \<Rightarrow> u64" where
  "ntohq value =
     SET_BYTE (GET_BYTE value 0) 7 OR SET_BYTE (GET_BYTE value 1) 6 OR
     SET_BYTE (GET_BYTE value 2) 5 OR SET_BYTE (GET_BYTE value 3) 4 OR
     SET_BYTE (GET_BYTE value 4) 3 OR SET_BYTE (GET_BYTE value 5) 2 OR
     SET_BYTE (GET_BYTE value 6) 1 OR SET_BYTE (GET_BYTE value 7) 0"

definition pack_uint8 :: "u8 \<Rightarrow> cursor \<Rightarrow> cursor option" where
  "pack_uint8 value c = write_byte value c"

definition pack_uint16 :: "u16 \<Rightarrow> cursor \<Rightarrow> cursor option" where
  "pack_uint16 value c =
     do { c \<leftarrow> write_byte (GET_BYTE value 1) c; write_byte (GET_BYTE value 0) c }"

definition pack_uint32 :: "u32 \<Rightarrow> cursor \<Rightarrow> cursor option" where
  "pack_uint32 value c =
     do { c \<leftarrow> write_byte (GET_BYTE value 3) c;
          c \<leftarrow> write_byte (GET_BYTE value 2) c;
          c \<leftarrow> write_byte (GET_BYTE value 1) c;
          write_byte (GET_BYTE value 0) c }"

definition pack_uint64 :: "u64 \<Rightarrow> cursor \<Rightarrow> cursor option" where
  "pack_uint64 value c =
     do { c \<leftarrow> write_byte (GET_BYTE value 7) c;
          c \<leftarrow> write_byte (GET_BYTE value 6) c;
          c \<leftarrow> write_byte (GET_BYTE value 5) c;
          c \<leftarrow> write_byte (GET_BYTE value 4) c;
          c \<leftarrow> write_byte (GET_BYTE value 3) c;
          c \<leftarrow> write_byte (GET_BYTE value 2) c;
          c \<leftarrow> write_byte (GET_BYTE value 1) c;
          write_byte (GET_BYTE value 0) c }"

text \<open>\<^verbatim>\<open>pack_blob\<close> copies \<open>len\<close> bytes of \<open>object\<close>; reading past the object is \<open>None\<close>.\<close>

definition pack_blob :: "nat \<Rightarrow> u8 list \<Rightarrow> cursor \<Rightarrow> cursor option" where
  "pack_blob len object c =
     (if len \<le> length object then write_bytes (take len object) c else None)"

definition unpack_uint8 :: "cursor \<Rightarrow> (u8 \<times> cursor) option" where
  "unpack_uint8 c = read_byte c"

definition unpack_uint16 :: "cursor \<Rightarrow> (u16 \<times> cursor) option" where
  "unpack_uint16 c =
     do { (b1, c) \<leftarrow> read_byte c; (b0, c) \<leftarrow> read_byte c;
          Some (0 OR SET_BYTE b1 1 OR SET_BYTE b0 0, c) }"

definition unpack_uint32 :: "cursor \<Rightarrow> (u32 \<times> cursor) option" where
  "unpack_uint32 c =
     do { (b3, c) \<leftarrow> read_byte c; (b2, c) \<leftarrow> read_byte c;
          (b1, c) \<leftarrow> read_byte c; (b0, c) \<leftarrow> read_byte c;
          Some (0 OR SET_BYTE b3 3 OR SET_BYTE b2 2 OR SET_BYTE b1 1 OR SET_BYTE b0 0, c) }"

definition unpack_uint64 :: "cursor \<Rightarrow> (u64 \<times> cursor) option" where
  "unpack_uint64 c =
     do { (b7, c) \<leftarrow> read_byte c; (b6, c) \<leftarrow> read_byte c;
          (b5, c) \<leftarrow> read_byte c; (b4, c) \<leftarrow> read_byte c;
          (b3, c) \<leftarrow> read_byte c; (b2, c) \<leftarrow> read_byte c;
          (b1, c) \<leftarrow> read_byte c; (b0, c) \<leftarrow> read_byte c;
          Some (0 OR SET_BYTE b7 7 OR SET_BYTE b6 6 OR SET_BYTE b5 5 OR SET_BYTE b4 4
                  OR SET_BYTE b3 3 OR SET_BYTE b2 2 OR SET_BYTE b1 1 OR SET_BYTE b0 0, c) }"

definition unpack_blob :: "nat \<Rightarrow> cursor \<Rightarrow> (u8 list \<times> cursor) option" where
  "unpack_blob len c = read_bytes len c"

section \<open>Layout of writes and reads\<close>

text \<open>Writing bytes one after the other splices the run into the buffer.\<close>

lemma write_bytes_eq [mem_simps]:
  "write_bytes bs c =
     (if head c + length bs \<le> length (mem c) \<or> bs = []
      then Some (c\<lparr>mem := take (head c) (mem c) @ bs @ drop (head c + length bs) (mem c),
                   head := head c + length bs\<rparr>)
      else None)"
proof (induction bs arbitrary: c)
  case Nil
  then show ?case by simp
next
  case (Cons b bs)
  show ?case
  proof (cases "head c < length (mem c)")
    case True
    have upd: "(mem c)[head c := b] = take (head c) (mem c) @ b # drop (Suc (head c)) (mem c)"
      using True by (simp add: upd_conv_take_nth_drop)
    show ?thesis
      using True
      by (auto simp: write_byte_def Cons.IH upd min_def ac_simps Suc_diff_le)
  next
    case False
    then show ?thesis by (simp add: write_byte_def)
  qed
qed

lemma read_bytes_eq [mem_simps]:
  "read_bytes n c =
     (if head c + n \<le> length (mem c) \<or> n = 0
      then Some (take n (drop (head c) (mem c)), c\<lparr>head := head c + n\<rparr>) else None)"
proof (induction n arbitrary: c)
  case 0
  then show ?case by simp
next
  case (Suc n)
  then show ?case
    by (cases "head c < length (mem c)")
       (auto simp: read_byte_def Cons_nth_drop_Suc [symmetric])
qed

text \<open>The bytes in front of the head, and moving the head over some of them.\<close>

definition ahead :: "cursor \<Rightarrow> u8 list" where
  "ahead c = drop (head c) (mem c)"

definition advance :: "nat \<Rightarrow> cursor \<Rightarrow> cursor" where
  "advance n c = c\<lparr>head := head c + n\<rparr>"

lemma mem_advance [simp]: "mem (advance n c) = mem c"
  by (simp add: advance_def)

lemma head_advance [simp]: "head (advance n c) = head c + n"
  by (simp add: advance_def)

lemma advance_advance [simp]: "advance n (advance m c) = advance (m + n) c"
  by (simp add: advance_def ac_simps)

lemma ahead_advance [simp]: "ahead (advance n c) = drop n (ahead c)"
  by (simp add: ahead_def ac_simps)

lemma read_byte_ahead [mem_simps]: "ahead c = b # r \<Longrightarrow> read_byte c = Some (b, advance 1 c)"
proof -
  assume a: "ahead c = b # r"
  then have "head c < length (mem c)"
    by (metis ahead_def drop_all list.distinct(1) not_le)
  moreover from this a have "mem c ! head c = b"
    by (simp add: ahead_def Cons_nth_drop_Suc [symmetric])
  ultimately show ?thesis
    by (simp add: read_byte_def advance_def)
qed

lemma read_bytes_ahead [mem_simps]:
  "ahead c = bs @ r \<Longrightarrow> n = length bs \<Longrightarrow> read_bytes n c = Some (bs, advance n c)"
proof (induction bs arbitrary: c n)
  case Nil
  then show ?case by (simp add: advance_def)
next
  case (Cons b bs)
  then show ?case
    by (simp add: read_byte_ahead Cons.IH [of "advance 1 c"])
qed

section \<open>The contract of a pack/unpack pair\<close>

text \<open>
  A value that may be transmitted (\<open>valid\<close>) has a byte encoding \<open>enc\<close>; packing writes exactly
  these bytes at the head, and unpacking recognises them there.
\<close>

locale wire_codec =
  fixes pack :: "'v \<Rightarrow> cursor \<Rightarrow> cursor option"
    and unpack :: "cursor \<Rightarrow> ('v \<times> cursor) option"
    and enc :: "'v \<Rightarrow> u8 list"
    and valid :: "'v \<Rightarrow> bool"
  assumes pack_enc: "valid v \<Longrightarrow> pack v c = write_bytes (enc v) c"
    and unpack_enc: "valid v \<Longrightarrow> ahead c = enc v @ r \<Longrightarrow> unpack c = Some (v, advance (length (enc v)) c)"
begin

lemma roundtrip:
  assumes v: "valid v" and p: "pack v c = Some c'"
  shows "unpack (c'\<lparr>head := head c\<rparr>) = Some (v, c')"
proof -
  have c': "c' = c\<lparr>mem := take (head c) (mem c) @ enc v @ drop (head c + length (enc v)) (mem c),
                  head := head c + length (enc v)\<rparr>"
    and fits: "enc v \<noteq> [] \<Longrightarrow> head c + length (enc v) \<le> length (mem c)"
    using p by (auto simp: pack_enc [OF v] write_bytes_eq split: if_splits)
  have "\<exists>r. ahead (c'\<lparr>head := head c\<rparr>) = enc v @ r"
    using fits by (cases "enc v = []") (auto simp: c' ahead_def)
  then obtain r where "ahead (c'\<lparr>head := head c\<rparr>) = enc v @ r" ..
  then have "unpack (c'\<lparr>head := head c\<rparr>) = Some (v, advance (length (enc v)) (c'\<lparr>head := head c\<rparr>))"
    by (rule unpack_enc [OF v])
  also have "advance (length (enc v)) (c'\<lparr>head := head c\<rparr>) = c'"
    by (simp add: c' advance_def)
  finally show ?thesis .
qed

lemma pack_fits:
  "valid v \<Longrightarrow> head c + length (enc v) \<le> length (mem c) \<Longrightarrow> \<exists>c'. pack v c = Some c'"
  by (simp add: pack_enc write_bytes_eq)

lemma pack_unpack:
  assumes "valid v" and "head c + length (enc v) \<le> length (mem c)"
  shows "\<exists>c'. pack v c = Some c' \<and> unpack (c'\<lparr>head := head c\<rparr>) = Some (v, c')"
  using pack_fits [OF assms] roundtrip [OF assms(1)] by blast

lemma pack_bytes:
  assumes "valid v" and "pack v c = Some c'"
  shows "take (length (enc v)) (drop (head c) (mem c')) = enc v
    \<and> take (head c) (mem c') = take (head c) (mem c) \<and> ahead c' = drop (length (enc v)) (ahead c)"
  using assms by (cases "enc v") (auto simp: pack_enc write_bytes_eq ahead_def min_def ac_simps split: if_splits)

lemma pack_frame:
  assumes "valid v" and "pack v c = Some c'" and "i < head c \<or> head c + length (enc v) \<le> i"
  shows "length (mem c') = length (mem c) \<and> (i < length (mem c) \<longrightarrow> mem c' ! i = mem c ! i)"
  using assms by (auto simp: pack_enc write_bytes_eq nth_append min_def split: if_splits)

lemma unpack_then:
  assumes "valid v" and "ahead c = enc v @ r"
  shows "unpack c = Some (v, advance (length (enc v)) c) \<and> ahead (advance (length (enc v)) c) = r"
  using unpack_enc [OF assms] assms(2) by simp

end

section \<open>The instances\<close>

definition enc16 :: "u16 \<Rightarrow> u8 list" where
  "enc16 v = [GET_BYTE v 1, GET_BYTE v 0]"

definition enc32 :: "u32 \<Rightarrow> u8 list" where
  "enc32 v = [GET_BYTE v 3, GET_BYTE v 2, GET_BYTE v 1, GET_BYTE v 0]"

definition enc64 :: "u64 \<Rightarrow> u8 list" where
  "enc64 v = [GET_BYTE v 7, GET_BYTE v 6, GET_BYTE v 5, GET_BYTE v 4,
              GET_BYTE v 3, GET_BYTE v 2, GET_BYTE v 1, GET_BYTE v 0]"

lemma len_enc [simp]: "length (enc16 v16) = 2" "length (enc32 v32) = 4" "length (enc64 v64) = 8"
  by (simp_all add: enc16_def enc32_def enc64_def)

lemma bit_SET_GET_BYTE:
  "bit (SET_BYTE (GET_BYTE (v :: 'a::len word) n) n :: 'a word) i \<longleftrightarrow>
     n * 8 \<le> i \<and> i < n * 8 + 8 \<and> bit v i"
  by (auto simp: byte_simps dest: bit_imp_le_length)

lemma join16:
  "SET_BYTE (GET_BYTE v (Suc 0)) (Suc 0) OR SET_BYTE (GET_BYTE v 0) 0 = (v :: u16)" (is "?l = v")
proof (rule bit_word_eqI)
  fix i assume "i < LENGTH(16)"
  then show "bit ?l i = bit v i"
    by (cases "bit v i") (simp_all add: bit_or_iff bit_SET_GET_BYTE, arith)
qed

lemma join32:
  "SET_BYTE (GET_BYTE v 3) 3 OR SET_BYTE (GET_BYTE v 2) 2 OR SET_BYTE (GET_BYTE v (Suc 0)) (Suc 0)
     OR SET_BYTE (GET_BYTE v 0) 0 = (v :: u32)" (is "?l = v")
proof (rule bit_word_eqI)
  fix i assume "i < LENGTH(32)"
  then show "bit ?l i = bit v i"
    by (cases "bit v i") (simp_all add: bit_or_iff bit_SET_GET_BYTE, arith)
qed

lemma join64:
  "SET_BYTE (GET_BYTE v 7) 7 OR SET_BYTE (GET_BYTE v 6) 6 OR SET_BYTE (GET_BYTE v 5) 5
     OR SET_BYTE (GET_BYTE v 4) 4 OR SET_BYTE (GET_BYTE v 3) 3 OR SET_BYTE (GET_BYTE v 2) 2
     OR SET_BYTE (GET_BYTE v (Suc 0)) (Suc 0) OR SET_BYTE (GET_BYTE v 0) 0 = (v :: u64)"
  (is "?l = v")
proof (rule bit_word_eqI)
  fix i assume "i < LENGTH(64)"
  then show "bit ?l i = bit v i"
    by (cases "bit v i") (simp_all add: bit_or_iff bit_SET_GET_BYTE, arith)
qed

lemma write_bytes_Cons: "write_bytes (b # bs) = (\<lambda>c. write_byte b c \<bind> write_bytes bs)"
  by (simp add: fun_eq_iff)

lemma write_bytes_Nil: "write_bytes [] = Some"
  by (simp add: fun_eq_iff)

lemmas write_run = write_bytes_Cons write_bytes_Nil bind_runit

interpretation c8: wire_codec pack_uint8 unpack_uint8 "\<lambda>v. [v]" "\<lambda>_. True"
  by unfold_locales
     (simp_all add: pack_uint8_def unpack_uint8_def write_run read_byte_ahead del: write_bytes.simps)

interpretation c16: wire_codec pack_uint16 unpack_uint16 enc16 "\<lambda>_. True"
  by unfold_locales
     (simp_all add: pack_uint16_def unpack_uint16_def enc16_def write_run read_byte_ahead join16
        del: write_bytes.simps)

interpretation c32: wire_codec pack_uint32 unpack_uint32 enc32 "\<lambda>_. True"
  by unfold_locales
     (simp_all add: pack_uint32_def unpack_uint32_def enc32_def write_run read_byte_ahead join32
        del: write_bytes.simps)

interpretation c64: wire_codec pack_uint64 unpack_uint64 enc64 "\<lambda>_. True"
  by unfold_locales
     (simp_all add: pack_uint64_def unpack_uint64_def enc64_def write_run read_byte_ahead join64
        del: write_bytes.simps)

interpretation cblob: wire_codec "pack_blob n" "unpack_blob n" "\<lambda>v. v" "\<lambda>v. length v = n"
  for n
  by unfold_locales (auto simp: pack_blob_def unpack_blob_def read_bytes_ahead)

section \<open>Network order of 64-bit values\<close>

lemma GET_BYTE_ntohq: "n < 8 \<Longrightarrow> GET_BYTE (ntohq v) n = GET_BYTE v (7 - n)"
proof -
  assume "n < 8"
  then have "n \<in> {0, 1, 2, 3, 4, 5, 6, 7}" by auto
  then show ?thesis
    by (auto simp: ntohq_def GET_BYTE_or GET_SET_BYTE)
qed


section \<open>Properties\<close>

text \<open>The number that a run of bytes denotes in network order.\<close>

definition be_value :: "u8 list \<Rightarrow> nat" where
  "be_value bs = foldl (\<lambda>a b. a * 256 + unat b) 0 bs"

lemma byte_digit: "(q :: nat) div 256 * 256 + q mod 256 = q"
  by simp

lemma be_value_enc16: "be_value (enc16 v) = unat v"
proof -
  have "unat v < 65536" using unat_bound [of v] by simp
  then show ?thesis
    by (simp add: be_value_def enc16_def unat_GET_BYTE)
qed

lemma be_value_enc32: "be_value (enc32 v) = unat v"
proof -
  have "unat v < 4294967296" using unat_bound [of v] by simp
  then show ?thesis
    using byte_digit [of "unat v div 65536"] byte_digit [of "unat v div 256"] byte_digit [of "unat v"]
    by (simp add: be_value_def enc32_def unat_GET_BYTE div_mult2_eq [symmetric])
qed

lemma be_value_enc64: "be_value (enc64 v) = unat v"
proof -
  have "unat v < 18446744073709551616" using unat_bound [of v] by simp
  then have top: "unat v div 72057594037927936 mod 256 = unat v div 72057594037927936"
    by simp
  have digit: "unat v div (k * 256) * 256 + unat v div k mod 256 = unat v div k" for k
    by (simp add: div_mult2_eq)
  show ?thesis
    using digit [of 281474976710656] digit [of 1099511627776] digit [of 4294967296]
      digit [of 16777216] digit [of 65536] digit [of 256] digit [of 1]
    by (simp add: be_value_def enc64_def unat_GET_BYTE top)
qed

text \<open>C13. Every pack function that has room succeeds, and unpacking at the place where it wrote
  returns the value and leaves the cursor where packing left it: for 8, 16, 32 and 64 bit values
  and for byte strings.\<close>

theorem pack_unpack_roundtrip:
  assumes "head c + 8 \<le> length (mem c)" and "head c + length b \<le> length (mem c)"
  shows "(\<exists>c'. pack_uint8 v8 c = Some c' \<and> unpack_uint8 (c'\<lparr>head := head c\<rparr>) = Some (v8, c'))
    \<and> (\<exists>c'. pack_uint16 v16 c = Some c' \<and> unpack_uint16 (c'\<lparr>head := head c\<rparr>) = Some (v16, c'))
    \<and> (\<exists>c'. pack_uint32 v32 c = Some c' \<and> unpack_uint32 (c'\<lparr>head := head c\<rparr>) = Some (v32, c'))
    \<and> (\<exists>c'. pack_uint64 v64 c = Some c' \<and> unpack_uint64 (c'\<lparr>head := head c\<rparr>) = Some (v64, c'))
    \<and> (\<exists>c'. pack_blob (length b) b c = Some c'
          \<and> unpack_blob (length b) (c'\<lparr>head := head c\<rparr>) = Some (b, c'))"
proof (intro conjI)
  show "\<exists>c'. pack_uint8 v8 c = Some c' \<and> unpack_uint8 (c'\<lparr>head := head c\<rparr>) = Some (v8, c')"
    using c8.pack_unpack [of c v8] assms by simp
  show "\<exists>c'. pack_uint16 v16 c = Some c' \<and> unpack_uint16 (c'\<lparr>head := head c\<rparr>) = Some (v16, c')"
    using c16.pack_unpack [of c v16] assms by (simp add: enc16_def)
  show "\<exists>c'. pack_uint32 v32 c = Some c' \<and> unpack_uint32 (c'\<lparr>head := head c\<rparr>) = Some (v32, c')"
    using c32.pack_unpack [of c v32] assms by (simp add: enc32_def)
  show "\<exists>c'. pack_uint64 v64 c = Some c' \<and> unpack_uint64 (c'\<lparr>head := head c\<rparr>) = Some (v64, c')"
    using c64.pack_unpack [of c v64] assms by (simp add: enc64_def)
  show "\<exists>c'. pack_blob (length b) b c = Some c'
          \<and> unpack_blob (length b) (c'\<lparr>head := head c\<rparr>) = Some (b, c')"
    using cblob.pack_unpack [of b "length b" c] assms by simp
qed

theorem pack_unpack_roundtrip_witness:
  "\<exists>c'. pack_uint64 0x0102030405060708 \<lparr>mem = replicate 10 0, head = 1\<rparr> = Some c'
      \<and> unpack_uint64 (c'\<lparr>head := 1\<rparr>) = Some (0x0102030405060708, c')"
  using pack_unpack_roundtrip [of "\<lparr>mem = replicate 10 0, head = 1\<rparr>" "[]"] by simp

text \<open>The wire format is network order and nothing else of the buffer changes: after packing
  a 16, 32 or 64 bit value the bytes from the old head on, read as a big-endian number, are the
  value; every byte before the old head and from the new head on is as before.\<close>

theorem pack_network_order:
  "(pack_uint16 v16 c = Some c' \<longrightarrow>
      be_value (take 2 (drop (head c) (mem c'))) = unat v16
      \<and> take (head c) (mem c') = take (head c) (mem c) \<and> ahead c' = drop 2 (ahead c))
   \<and> (pack_uint32 v32 c = Some c' \<longrightarrow>
      be_value (take 4 (drop (head c) (mem c'))) = unat v32
      \<and> take (head c) (mem c') = take (head c) (mem c) \<and> ahead c' = drop 4 (ahead c))
   \<and> (pack_uint64 v64 c = Some c' \<longrightarrow>
      be_value (take 8 (drop (head c) (mem c'))) = unat v64
      \<and> take (head c) (mem c') = take (head c) (mem c) \<and> ahead c' = drop 8 (ahead c))"
  using c16.pack_bytes [of v16 c c'] c32.pack_bytes [of v32 c c'] c64.pack_bytes [of v64 c c']
  by (simp add: be_value_enc16 be_value_enc32 be_value_enc64 len_enc)

theorem pack_network_order_witness:
  "be_value (take 4 (drop 1 (mem (the (pack_uint32 0x0A0B0C0D \<lparr>mem = [9, 0, 0, 0, 0, 9], head = 1\<rparr>)))))
     = unat (0x0A0B0C0D :: u32)"
  using pack_network_order [of _ "\<lparr>mem = [9, 0, 0, 0, 0, 9], head = 1\<rparr>"
      "the (pack_uint32 0x0A0B0C0D \<lparr>mem = [9, 0, 0, 0, 0, 9], head = 1\<rparr>)" "0x0A0B0C0D"]
  by (simp add: pack_uint32_def write_byte_def)

text \<open>\<^verbatim>\<open>ntohq\<close> reverses the eight bytes of its argument: byte \<open>n\<close> of the result is byte
  \<open>7 - n\<close>, so applying it twice gives the argument back.\<close>

theorem ntohq_reverses:
  "(\<forall>n < 8. GET_BYTE (ntohq v) n = GET_BYTE v (7 - n)) \<and> ntohq (ntohq v) = v"
proof
  show b: "\<forall>n < 8. GET_BYTE (ntohq v) n = GET_BYTE v (7 - n)"
    by (simp add: GET_BYTE_ntohq)
  have "enc64 (ntohq (ntohq v)) = enc64 v"
    by (simp add: enc64_def GET_BYTE_ntohq)
  then show "ntohq (ntohq v) = v"
    by (metis be_value_enc64 word_unat_eq_iff)
qed

theorem ntohq_reverses_witness:
  "GET_BYTE (ntohq 0x0102030405060708) 0 = GET_BYTE (0x0102030405060708 :: u64) 7
   \<and> ntohq (ntohq 0x0102030405060708) = 0x0102030405060708"
  using ntohq_reverses [of "0x0102030405060708"] by simp

end
