(* ===== verification/Antireplay.thy ===== *)
theory Antireplay
  imports Prelude
begin

text \<open>
  The software anti-replay check of the IPsec security gateway:
  \<^verbatim>\<open>anti_replay\<close> (\<^verbatim>\<open>ipsec_security_gw/flow_decrypt.c\<close>) and its initialisation
  \<^verbatim>\<open>sw_handling_antireplay\<close> (\<^verbatim>\<open>ipsec_security_gw.c\<close>), against an abstract replay filter
  that remembers every accepted sequence number and the right edge of the window.
\<close>

section \<open>The code\<close>

record antireplay_state =
  window_size :: u32
  end_win_sn :: u32
  bitmap :: u64

definition WINDOW_SIZE :: u32 where "WINDOW_SIZE = 64"

text \<open>\<^verbatim>\<open>((uint64_t)1) << n\<close> and \<^verbatim>\<open>v >> n\<close>: undefined from 64 on.\<close>

definition one_shl :: "u32 \<Rightarrow> u64 option" where
  "one_shl n = (if n < 64 then Some (push_bit (unat n) 1) else None)"

definition shr64 :: "u64 \<Rightarrow> u32 \<Rightarrow> u64 option" where
  "shr64 v n = (if n < 64 then Some (drop_bit (unat n) v) else None)"

text \<open>The result is the new state and the value of \<^verbatim>\<open>*drop\<close>.\<close>

definition anti_replay :: "u32 \<Rightarrow> antireplay_state \<Rightarrow> (antireplay_state \<times> bool) option" where
  "anti_replay sn state =
     (let beg_win_sn = end_win_sn state + 1 - window_size state in
      if sn < beg_win_sn then Some (state, True)
      else if sn \<le> end_win_sn state then
        do { b \<leftarrow> one_shl (sn - beg_win_sn);
             if bitmap state AND b \<noteq> 0 then Some (state, True)
             else Some (state\<lparr>bitmap := bitmap state OR b\<rparr>, False) }
      else
        let diff = sn - end_win_sn state in
        if window_size state \<le> diff then
          do { b \<leftarrow> one_shl (window_size state - 1);
               Some (state\<lparr>bitmap := b, end_win_sn := sn\<rparr>, False) }
        else
          do { v \<leftarrow> shr64 (bitmap state) diff;
               b \<leftarrow> one_shl (window_size state - 1);
               Some (state\<lparr>bitmap := v OR b, end_win_sn := sn\<rparr>, False) })"

definition init_antireplay :: "u64 \<Rightarrow> antireplay_state" where
  "init_antireplay sn_initial =
     \<lparr>window_size = WINDOW_SIZE, end_win_sn = ucast sn_initial + WINDOW_SIZE - 1, bitmap = 0\<rparr>"

definition sw_handling_antireplay :: "u64 \<Rightarrow> antireplay_state list \<Rightarrow> nat \<Rightarrow> antireplay_state list" where
  "sw_handling_antireplay sn_initial rules decrypt_array_size =
     fold (\<lambda>entry_idx rs. rs[entry_idx := init_antireplay sn_initial]) [0..<decrypt_array_size] rules"

text \<open>A stream of sequence numbers through a filter: the last state and every drop decision.\<close>

fun run_filter :: "('a \<Rightarrow> 's \<Rightarrow> ('s \<times> bool) option) \<Rightarrow> 'a list \<Rightarrow> 's \<Rightarrow> ('s \<times> bool list) option" where
  "run_filter f [] s = Some (s, [])"
| "run_filter f (x # xs) s =
     do { (s, d) \<leftarrow> f x s; (s, ds) \<leftarrow> run_filter f xs s; Some (s, d # ds) }"

definition accepted :: "'a list \<Rightarrow> bool list \<Rightarrow> 'a list" where
  "accepted xs ds = map fst (filter (\<lambda>(x, d). \<not> d) (zip xs ds))"

section \<open>The abstract filter\<close>

type_synonym replay_spec = "nat set \<times> nat"

fun spec_step :: "nat \<Rightarrow> replay_spec \<Rightarrow> replay_spec \<times> bool" where
  "spec_step sn (S, r) =
     (if sn + 64 \<le> r \<or> sn \<in> S then ((S, r), True) else ((insert sn S, max r sn), False))"

fun spec_run :: "nat list \<Rightarrow> replay_spec \<Rightarrow> replay_spec \<times> bool list" where
  "spec_run [] a = (a, [])"
| "spec_run (x # xs) a =
     (let (a, d) = spec_step x a; (a, ds) = spec_run xs a in (a, d # ds))"

lemma length_spec_run [simp]: "length (snd (spec_run xs a)) = length xs"
  by (induction xs a rule: spec_run.induct) (auto simp: split_beta Let_def)

lemma accepted_simps [simp]:
  "accepted [] ds = []" "accepted (x # xs) (d # ds) = (if d then [] else [x]) @ accepted xs ds"
  by (simp_all add: accepted_def)

lemma map_accepted: "accepted (map f xs) ds = map f (accepted xs ds)"
  by (induction xs ds rule: list_induct2') (simp_all add: accepted_def)

lemma spec_run_Cons:
  "spec_run (x # xs) a =
     (fst (spec_run xs (fst (spec_step x a))),
      snd (spec_step x a) # snd (spec_run xs (fst (spec_step x a))))"
  by (simp add: split_beta Let_def)

lemma set_spec_run:
  "fst (fst (spec_run xs a)) = fst a \<union> set (accepted xs (snd (spec_run xs a)))"
proof (induction xs arbitrary: a)
  case (Cons x xs)
  then show ?case
    by (cases a) (auto simp: spec_run_Cons simp del: spec_run.simps)
qed simp

lemma Max_insert_max:
  "finite A \<Longrightarrow> Max (insert (max r x) A) = Max (insert r (insert (x :: nat) A))"
  by (cases "A = {}") (simp_all add: ac_simps)

lemma spec_run_right:
  "snd (fst (spec_run xs a)) = Max (insert (snd a) (set (accepted xs (snd (spec_run xs a)))))"
proof (induction xs arbitrary: a)
  case (Cons x xs)
  then show ?case
    by (cases a) (simp add: spec_run_Cons Max_insert_max del: spec_run.simps Max_insert)
qed simp

lemma spec_run_fresh:
  "set (accepted xs (snd (spec_run xs a))) \<inter> fst a = {} \<and> distinct (accepted xs (snd (spec_run xs a)))"
proof (induction xs arbitrary: a)
  case (Cons x xs)
  from Cons.IH [of "fst (spec_step x a)"] show ?case
    by (cases a) (auto simp: spec_run_Cons simp del: spec_run.simps split: if_splits)
qed simp

section \<open>What a replay filter promises\<close>

text \<open>
  \<open>rel\<close> relates a concrete state to the set of the accepted sequence numbers and the right edge.
\<close>

locale replay_filter =
  fixes step :: "'a \<Rightarrow> 's \<Rightarrow> ('s \<times> bool) option"
    and num :: "'a \<Rightarrow> nat"
    and rel :: "'s \<Rightarrow> replay_spec \<Rightarrow> bool"
  assumes step_sim: "rel s a \<Longrightarrow>
      \<exists>s'. step x s = Some (s', snd (spec_step (num x) a)) \<and> rel s' (fst (spec_step (num x) a))"
begin

lemma run_sim:
  "rel s a \<Longrightarrow>
   \<exists>s'. run_filter step xs s = Some (s', snd (spec_run (map num xs) a))
      \<and> rel s' (fst (spec_run (map num xs) a))"
proof (induction xs arbitrary: s a)
  case (Cons x xs)
  obtain s1 where s1: "step x s = Some (s1, snd (spec_step (num x) a))"
      "rel s1 (fst (spec_step (num x) a))"
    using step_sim [OF Cons.prems] by blast
  obtain s2 where "run_filter step xs s1 = Some (s2, snd (spec_run (map num xs) (fst (spec_step (num x) a))))"
      "rel s2 (fst (spec_run (map num xs) (fst (spec_step (num x) a))))"
    using Cons.IH [OF s1(2)] by blast
  with s1 show ?case
    by (simp add: split_beta Let_def)
qed simp

lemma no_replay:
  assumes "rel s ({}, r)"
  shows "\<exists>s' ds. run_filter step xs s = Some (s', ds) \<and> length ds = length xs
           \<and> distinct (map num (accepted xs ds))"
proof -
  obtain s' where r: "run_filter step xs s = Some (s', snd (spec_run (map num xs) ({}, r)))"
    using run_sim [OF assms] by blast
  have "distinct (map num (accepted xs (snd (spec_run (map num xs) ({}, r)))))"
    using spec_run_fresh [of "map num xs" "({}, r)"] by (simp add: map_accepted)
  with r show ?thesis by simp
qed

lemma fresh_accepted:
  assumes "rel s ({}, r)" and "run_filter step xs s = Some (s', ds)"
    and "num x \<notin> num ` set (accepted xs ds)"
    and "r < num x + 64" and "\<forall>y \<in> set (accepted xs ds). num y < num x + 64"
  shows "\<exists>s''. step x s' = Some (s'', False)"
proof -
  let ?a = "fst (spec_run (map num xs) ({}, r))"
  have ds: "ds = snd (spec_run (map num xs) ({}, r))" and rel': "rel s' ?a"
    using run_sim [OF assms(1), of xs] assms(2) by auto
  have S: "fst ?a = num ` set (accepted xs ds)"
    using set_spec_run [of "map num xs" "({}, r)"] by (simp add: ds map_accepted)
  have "snd ?a = Max (insert r (num ` set (accepted xs ds)))"
    using spec_run_right [of "map num xs" "({}, r)"] by (simp add: ds map_accepted)
  then have "snd ?a < num x + 64"
    using assms(4,5) by (simp add: Max_less_iff)
  with S assms(3) have "\<not> snd (spec_step (num x) ?a)"
    by (cases ?a) simp
  with step_sim [OF rel', of x] show ?thesis by auto
qed

end

section \<open>The bitmap implements the filter\<close>

definition ar_rel :: "antireplay_state \<Rightarrow> replay_spec \<Rightarrow> bool" where
  "ar_rel st a \<longleftrightarrow>
     window_size st = 64 \<and> unat (end_win_sn st) = snd a \<and> 63 \<le> snd a \<and> (\<forall>s \<in> fst a. s \<le> snd a)
     \<and> (\<forall>i < 64. bit (bitmap st) i \<longleftrightarrow> snd a - 63 + i \<in> fst a)"

lemma one_shl_lt: "unat n < 64 \<Longrightarrow> one_shl n = Some (2 ^ unat n)"
  by (simp add: one_shl_def word_less_nat_alt push_bit_of_1)

lemma shr64_lt: "unat n < 64 \<Longrightarrow> shr64 v n = Some (drop_bit (unat n) v)"
  by (simp add: shr64_def word_less_nat_alt)

lemma bit_one_shl: "bit (2 ^ n :: u64) i \<longleftrightarrow> i = n \<and> n < 64"
  by (auto simp: bit_exp_iff)

lemma bit_top: "bit (9223372036854775808 :: int) i \<longleftrightarrow> i = 63"
proof -
  have "(9223372036854775808 :: int) = 2 ^ 63" by simp
  then show ?thesis by (simp only: bit_exp_iff) auto
qed

lemma ar_in_window:
  assumes rel: "ar_rel st (S, r)" and "unat sn + 63 \<ge> r" and "unat sn \<le> r"
  shows "anti_replay sn st =
    (let d = unat sn + 63 - r in
     if bit (bitmap st) d then Some (st, True)
     else Some (st\<lparr>bitmap := bitmap st OR 2 ^ d\<rparr>, False))"
proof -
  have e: "unat (end_win_sn st) = r" "63 \<le> r" "window_size st = 64"
    using rel by (auto simp: ar_rel_def)
  have beg: "unat (end_win_sn st + 1 - 64) = r - 63"
    using e by (simp add: unat_sub word_le_nat_alt)
  have le: "end_win_sn st + 1 - 64 \<le> sn" "sn \<le> end_win_sn st"
    using assms e beg by (simp_all only: word_le_nat_alt)
  have d: "unat (sn - (end_win_sn st + 1 - 64)) = unat sn + 63 - r"
    using e assms unat_sub [OF le(1)] by (simp only: beg)
  have "unat (sn - (end_win_sn st + 1 - 64)) < 64"
    unfolding d using assms e by simp
  then show ?thesis
    using le e d by (simp add: anti_replay_def Let_def one_shl_lt and_exp_eq_0_iff_not_bit leD)
qed

lemma ar_left:
  assumes rel: "ar_rel st (S, r)" and "unat sn + 63 < r"
  shows "anti_replay sn st = Some (st, True)"
proof -
  have e: "unat (end_win_sn st) = r" "63 \<le> r" "window_size st = 64"
    using rel by (auto simp: ar_rel_def)
  have "unat (end_win_sn st + 1 - 64) = r - 63"
    using e by (simp add: unat_sub word_le_nat_alt)
  then have "sn < end_win_sn st + 1 - 64"
    using assms by (simp only: word_less_nat_alt)
  then show ?thesis
    using e by (simp add: anti_replay_def)
qed

lemma ar_right:
  assumes rel: "ar_rel st (S, r)" and "r < unat sn"
  shows "\<exists>b. anti_replay sn st = Some (st\<lparr>bitmap := b, end_win_sn := sn\<rparr>, False)
    \<and> (\<forall>i < 64. bit b i \<longleftrightarrow> i = 63 \<or> bit (bitmap st) (unat sn - r + i))"
proof -
  have e: "unat (end_win_sn st) = r" "63 \<le> r" "window_size st = 64"
    using rel by (auto simp: ar_rel_def)
  have beg: "unat (end_win_sn st + 1 - 64) = r - 63"
    using e by (simp add: unat_sub word_le_nat_alt)
  have "\<not> sn < end_win_sn st + 1 - 64" "\<not> sn \<le> end_win_sn st"
    using assms e beg by (simp_all only: word_less_nat_alt word_le_nat_alt)
  moreover have "unat (sn - end_win_sn st) = unat sn - r"
    using assms e by (simp add: unat_sub word_le_nat_alt)
  ultimately have "anti_replay sn st =
      Some (st\<lparr>bitmap := if 64 \<le> unat sn - r then 2 ^ 63 else drop_bit (unat sn - r) (bitmap st) OR 2 ^ 63,
              end_win_sn := sn\<rparr>, False)"
    using e assms(2) by (simp add: anti_replay_def one_shl_lt shr64_lt word_le_nat_alt)
  then show ?thesis
    by (intro exI conjI, assumption) (auto simp: bit_or_iff bit_top bit_drop_bit_eq dest: bit_imp_le_length)
qed

lemma ar_step_sim:
  assumes rel: "ar_rel st (S, r)"
  shows "\<exists>st'. anti_replay sn st = Some (st', snd (spec_step (unat sn) (S, r)))
     \<and> ar_rel st' (fst (spec_step (unat sn) (S, r)))"
proof -
  have S: "\<And>s. s \<in> S \<Longrightarrow> s \<le> r" and B: "\<And>i. i < 64 \<Longrightarrow> bit (bitmap st) i \<longleftrightarrow> r - 63 + i \<in> S"
    and e: "63 \<le> r"
    using rel by (auto simp: ar_rel_def)
  consider "unat sn + 63 < r" | "r \<le> unat sn + 63" "unat sn \<le> r" | "r < unat sn"
    by linarith
  then show ?thesis
  proof cases
    case 1
    then show ?thesis
      using ar_left [OF rel 1] rel by simp
  next
    case 2
    have "bit (bitmap st) (unat sn + 63 - r) \<longleftrightarrow> unat sn \<in> S"
      using B [of "unat sn + 63 - r"] 2 e by simp
    moreover have "ar_rel (st\<lparr>bitmap := bitmap st OR 2 ^ (unat sn + 63 - r)\<rparr>) (insert (unat sn) S, r)"
      using rel 2 e by (auto simp: ar_rel_def bit_or_iff bit_one_shl)
    ultimately show ?thesis
      using ar_in_window [OF rel] 2 rel by (auto simp: Let_def max_def)
  next
    case 3
    obtain b where b: "anti_replay sn st = Some (st\<lparr>bitmap := b, end_win_sn := sn\<rparr>, False)"
      "\<And>i. i < 64 \<Longrightarrow> bit b i \<longleftrightarrow> i = 63 \<or> bit (bitmap st) (unat sn - r + i)"
      using ar_right [OF rel 3] by blast
    have "bit (bitmap st) (unat sn - r + i) \<longleftrightarrow> unat sn - 63 + i \<in> S" if "i < 63" for i
    proof (cases "unat sn - r + i < 64")
      case True
      then show ?thesis
        using B [OF True] 3 e by (simp add: ac_simps)
    next
      case False
      then show ?thesis
        using S [of "unat sn - 63 + i"] 3 e by (auto dest: bit_imp_le_length)
    qed
    then have "bit b i \<longleftrightarrow> unat sn - 63 + i \<in> insert (unat sn) S" if "i < 64" for i
      using b(2) [OF that] 3 e that by (cases "i = 63") auto
    then have "ar_rel (st\<lparr>bitmap := b, end_win_sn := sn\<rparr>) (insert (unat sn) S, unat sn)"
      using rel 3 e by (auto simp: ar_rel_def dest: S)
    moreover have "unat sn \<notin> S" using S 3 by fastforce
    ultimately show ?thesis
      using b(1) 3 by (auto simp: max_def)
  qed
qed

interpretation ar: replay_filter anti_replay unat ar_rel
  by unfold_locales (metis ar_step_sim surj_pair)

lemma ar_rel_init:
  "unat (ucast sn_initial :: u32) + 63 < 2 ^ 32 \<Longrightarrow>
   ar_rel (init_antireplay sn_initial) ({}, unat (ucast sn_initial :: u32) + 63)"
  by (simp add: ar_rel_def init_antireplay_def WINDOW_SIZE_def unat_word_ariths take_bit_eq_mod
      flip: add.assoc)

lemma sw_handling_antireplay_eq:
  "n \<le> length rules \<Longrightarrow>
   sw_handling_antireplay sn_initial rules n = replicate n (init_antireplay sn_initial) @ drop n rules"
proof (induction n)
  case (Suc n)
  then have "drop n rules = rules ! n # drop (Suc n) rules"
    by (simp add: Cons_nth_drop_Suc)
  with Suc show ?case
    by (simp add: sw_handling_antireplay_def list_update_append replicate_app_Cons_same)
qed (simp add: sw_handling_antireplay_def)

lemma ar_rel_sw_handling:
  assumes "unat (ucast sn_initial :: u32) + 63 < 2 ^ 32" and "i < n" and "n \<le> length rules"
  shows "ar_rel (sw_handling_antireplay sn_initial rules n ! i) ({}, unat (ucast sn_initial :: u32) + 63)"
  using ar_rel_init [OF assms(1)] assms(2,3) by (simp add: sw_handling_antireplay_eq nth_append)

section \<open>Properties\<close>

text \<open>C1. After the initialisation of the rules, no stream of sequence numbers makes the
  anti-replay check accept the same sequence number twice: the check decides every packet (no
  shift is out of range) and the accepted numbers are pairwise distinct.\<close>

theorem antireplay_no_replay:
  assumes "unat (ucast sn_initial :: u32) + 63 < 2 ^ 32" and "i < n" and "n \<le> length rules"
  shows "\<exists>st ds. run_filter anti_replay sns (sw_handling_antireplay sn_initial rules n ! i) = Some (st, ds)
           \<and> length ds = length sns \<and> distinct (accepted sns ds)"
  using ar.no_replay [OF ar_rel_sw_handling [OF assms], of sns] by (auto simp: distinct_map)

theorem antireplay_no_replay_witness:
  "\<exists>st ds. run_filter anti_replay [3, 7, 3, 90, 7]
       (sw_handling_antireplay 0 [init_antireplay 9, init_antireplay 9] 2 ! 1) = Some (st, ds)
     \<and> length ds = length [3, 7, 3, 90, 7 :: u32] \<and> distinct (accepted [3, 7, 3, 90, 7 :: u32] ds)"
  using antireplay_no_replay [of 0 1 2 "[init_antireplay 9, init_antireplay 9]" "[3, 7, 3, 90, 7]"]
  by (simp del: run_filter.simps)

text \<open>C6. The check on the 64-bit bitmap refines the abstract filter that remembers every accepted
  number and the highest one: on every stream its drop decisions are exactly those of the filter
  that drops a number more than 63 below the right edge and a number accepted before.\<close>

theorem antireplay_refines_spec:
  assumes "unat (ucast sn_initial :: u32) + 63 < 2 ^ 32" and "i < n" and "n \<le> length rules"
  shows "\<exists>st. run_filter anti_replay sns (sw_handling_antireplay sn_initial rules n ! i) =
           Some (st, snd (spec_run (map unat sns) ({}, unat (ucast sn_initial :: u32) + 63)))"
  using ar.run_sim [OF ar_rel_sw_handling [OF assms], of sns] by blast

theorem antireplay_refines_spec_witness:
  "\<exists>st. run_filter anti_replay [1, 200, 150, 1, 100]
       (sw_handling_antireplay 0 [init_antireplay 9] 1 ! 0) =
     Some (st, [False, False, False, True, True])"
  using antireplay_refines_spec [of 0 0 1 "[init_antireplay 9]" "[1, 200, 150, 1, 100]"]
  by (simp del: run_filter.simps)

text \<open>C7. A sequence number that was not accepted before and is not more than 63 below the
  right edge (the initial edge and every number accepted so far) is accepted after any stream.\<close>

theorem antireplay_accepts_fresh:
  assumes "unat (ucast sn_initial :: u32) + 63 < 2 ^ 32" and "i < n" and "n \<le> length rules"
    and "run_filter anti_replay sns (sw_handling_antireplay sn_initial rules n ! i) = Some (st, ds)"
    and "sn \<notin> set (accepted sns ds)"
    and "unat (ucast sn_initial :: u32) < unat sn + 1"
    and "\<forall>y \<in> set (accepted sns ds). unat y < unat sn + 64"
  shows "\<exists>st'. anti_replay sn st = Some (st', False)"
  using ar.fresh_accepted [OF ar_rel_sw_handling [OF assms(1-3)] assms(4), of sn] assms(5-7)
  by (auto dest: word_unat_eq_iff [THEN iffD2])

theorem antireplay_accepts_fresh_witness:
  "\<exists>st'. anti_replay 3 (fst (the (run_filter anti_replay [5]
       (sw_handling_antireplay 0 [init_antireplay 9] 1 ! 0)))) = Some (st', False)"
  using antireplay_accepts_fresh [of 0 0 1 "[init_antireplay 9]" "[5]" _ _ 3]
  by (simp add: sw_handling_antireplay_def init_antireplay_def WINDOW_SIZE_def anti_replay_def
      one_shl_def)

end
