(* ===== verification/C_String.thy ===== *)
theory C_String
  imports Prelude
begin

text \<open>
  The functions of the C library and of \<^verbatim>\<open>applications/common/utils.c\<close> that the parsers call on
  strings. A C string is the list of its characters without the terminating NUL; a pointer into a
  string is the suffix that starts there. \<open>nptr + n\<close> beyond the terminator is \<open>None\<close>.
\<close>

section \<open>Searching and copying\<close>

definition ptr_add :: "string \<Rightarrow> nat \<Rightarrow> string option" where
  "ptr_add s n = (if n \<le> length s then Some (drop n s) else None)"

definition strchr :: "string \<Rightarrow> char \<Rightarrow> string option" where
  "strchr s c = (case dropWhile (\<lambda>x. x \<noteq> c) s of [] \<Rightarrow> None | t \<Rightarrow> Some t)"

text \<open>\<open>strncmp (s, t, n) == 0\<close>.\<close>

definition strncmp0 :: "string \<Rightarrow> string \<Rightarrow> nat \<Rightarrow> bool" where
  "strncmp0 s t n \<longleftrightarrow> take n s = take n t"

text \<open>The first token of \<open>s\<close>, \<^verbatim>\<open>NULL\<close> when it has only delimiters.\<close>

definition strtok :: "string \<Rightarrow> char \<Rightarrow> string option" where
  "strtok s d =
     (let u = dropWhile (\<lambda>c. c = d) s in if u = [] then None else Some (takeWhile (\<lambda>c. c \<noteq> d) u))"

text \<open>
  \<^verbatim>\<open>strlcpy\<close> and \<^verbatim>\<open>strlcat\<close> of \<^verbatim>\<open>utils.c\<close> on a destination that is the array of its bytes: the
  result is the array after the call and the length returned; \<open>None\<close> is a write outside the array.
  \<open>cstr\<close> reads the string an array holds.
\<close>

definition nul :: char where "nul = CHR 0x00"

definition cstr :: "char list \<Rightarrow> string" where
  "cstr buf = takeWhile (\<lambda>c. c \<noteq> nul) buf"

definition strlcpy :: "char list \<Rightarrow> string \<Rightarrow> nat \<Rightarrow> (char list \<times> nat) option" where
  "strlcpy dst src sz =
     (if sz > 0 then
        let trimmed_size = min (length src) (sz - 1) in
        if trimmed_size < length dst
        then Some (take trimmed_size src @ nul # drop (Suc trimmed_size) dst, length src)
        else None
      else Some (dst, length src))"

text \<open>\<^verbatim>\<open>strnlen (dst, sz)\<close> looks at \<open>sz\<close> bytes at most.\<close>

definition strnlen :: "char list \<Rightarrow> nat \<Rightarrow> nat option" where
  "strnlen buf sz =
     (let n = length (cstr (take sz buf)) in
      if n < sz \<and> length buf \<le> n then None else Some n)"

definition strlcat :: "char list \<Rightarrow> string \<Rightarrow> nat \<Rightarrow> (char list \<times> nat) option" where
  "strlcat dst src sz =
     do { dst_len \<leftarrow> strnlen dst sz;
          if sz \<le> dst_len then Some (dst, sz)
          else do { (tail, n) \<leftarrow> strlcpy (drop dst_len dst) src (sz - dst_len);
                    Some (take dst_len dst @ tail, dst_len + n) } }"

text \<open>The string that a copy into a fresh array of \<open>sz\<close> bytes leaves there.\<close>

definition strlcpy_str :: "string \<Rightarrow> nat \<Rightarrow> string" where
  "strlcpy_str src sz = take (sz - 1) src"

section \<open>Numbers\<close>

definition isspace :: "char \<Rightarrow> bool" where
  "isspace c \<longleftrightarrow> c \<in> set [CHR 0x20, CHR 0x09, CHR 0x0A, CHR 0x0B, CHR 0x0C, CHR 0x0D]"

definition digit_of :: "char \<Rightarrow> nat" where
  "digit_of c =
     (let n = of_char c :: nat in
      if 48 \<le> n \<and> n \<le> 57 then n - 48
      else if 97 \<le> n \<and> n \<le> 122 then n - 87
      else if 65 \<le> n \<and> n \<le> 90 then n - 55
      else 99)"

definition digits_value :: "nat \<Rightarrow> string \<Rightarrow> nat" where
  "digits_value b ds = foldl (\<lambda>a c. a * b + digit_of c) 0 ds"

definition sign_of :: "string \<Rightarrow> bool \<times> string" where
  "sign_of s =
     (if s \<noteq> [] \<and> hd s = CHR ''-'' then (True, tl s)
      else if s \<noteq> [] \<and> hd s = CHR ''+'' then (False, tl s)
      else (False, s))"

definition hex_prefix :: "string \<Rightarrow> bool" where
  "hex_prefix s \<longleftrightarrow>
     2 < length s \<and> s ! 0 = CHR ''0'' \<and> (s ! 1 = CHR ''x'' \<or> s ! 1 = CHR ''X'') \<and> digit_of (s ! 2) < 16"

definition int_base :: "nat \<Rightarrow> string \<Rightarrow> nat \<times> string" where
  "int_base base s =
     (if (base = 0 \<or> base = 16) \<and> hex_prefix s then (16, drop 2 s)
      else if base = 0 then (if s \<noteq> [] \<and> hd s = CHR ''0'' then (8, s) else (10, s))
      else (base, s))"

text \<open>Sign, magnitude and rest of the number at the start of \<open>s\<close>; \<open>None\<close> when there is none.\<close>

definition scan_int :: "nat \<Rightarrow> string \<Rightarrow> (bool \<times> nat \<times> string) option" where
  "scan_int base s =
     (let (neg, s) = sign_of (dropWhile isspace s);
          (b, s) = int_base base s;
          ds = takeWhile (\<lambda>c. digit_of c < b) s
      in if ds = [] then None else Some (neg, digits_value b ds, drop (length ds) s))"

text \<open>
  \<^verbatim>\<open>strtol\<close> and \<^verbatim>\<open>strtoull\<close> on a 64-bit target return the value and what is stored through
  \<^verbatim>\<open>endptr\<close>. An invalid base (1, or above 36) makes them return 0 and store nothing.
\<close>

definition valid_base :: "nat \<Rightarrow> bool" where
  "valid_base base \<longleftrightarrow> base = 0 \<or> 2 \<le> base \<and> base \<le> 36"

definition LONG_MAX :: int where "LONG_MAX = 9223372036854775807"

definition strtol :: "string \<Rightarrow> nat \<Rightarrow> int \<times> string option" where
  "strtol s base =
     (if \<not> valid_base base then (0, None)
      else case scan_int base s of
        None \<Rightarrow> (0, Some s)
      | Some (neg, m, r) \<Rightarrow>
          (if neg then max (- LONG_MAX - 1) (- int m) else min LONG_MAX (int m), Some r))"

definition strtoull :: "string \<Rightarrow> nat \<Rightarrow> u64 \<times> string option" where
  "strtoull s base =
     (if \<not> valid_base base then (0, None)
      else case scan_int base s of
        None \<Rightarrow> (0, Some s)
      | Some (neg, m, r) \<Rightarrow>
          (if 2 ^ 64 \<le> m then - 1 else if neg then - of_nat m else of_nat m, Some r))"

text \<open>\<^verbatim>\<open>atoi\<close> is \<^verbatim>\<open>(int) strtol (s, NULL, 10)\<close>; an \<^verbatim>\<open>int\<close> is kept as its 32 bits.\<close>

definition atoi :: "string \<Rightarrow> u32" where
  "atoi s = word_of_int (fst (strtol s 10))"

section \<open>Decimal notation\<close>

fun dec :: "nat \<Rightarrow> string" where
  "dec n = (if n < 10 then [char_of (48 + n)] else dec (n div 10) @ [char_of (48 + n mod 10)])"

declare dec.simps [simp del]

lemma digit_of_dec [simp]: "n < 10 \<Longrightarrow> digit_of (char_of (48 + n)) = n"
  by (simp add: digit_of_def Let_def)

lemma dec_digits: "c \<in> set (dec n) \<Longrightarrow> \<exists>d < 10 :: nat. c = char_of (48 + d)"
proof (induction n rule: dec.induct)
  case (1 n)
  show ?case
  proof (cases "n < 10")
    case False
    then have "c = char_of (48 + n mod 10) \<or> c \<in> set (dec (n div 10))"
      using 1(2) by (subst (asm) dec.simps) auto
    then show ?thesis
    proof
      assume "c = char_of (48 + n mod 10)"
      then show ?thesis by (intro exI [of _ "n mod 10"]) simp
    qed (rule 1(1) [OF False])
  qed (use 1(2) in \<open>auto simp: dec.simps [of n]\<close>)
qed

lemma dec_not_Nil [simp]: "dec n \<noteq> []"
  by (subst dec.simps) simp

lemma digits_value_snoc [simp]:
  "digits_value b (ds @ [c]) = digits_value b ds * b + digit_of c"
  by (simp add: digits_value_def)

lemma digits_value_dec [simp]: "digits_value 10 (dec n) = n"
proof (induction n rule: dec.induct)
  case (1 n)
  then show ?case
    by (subst dec.simps) (auto simp: digits_value_def)
qed

text \<open>What stands right after a number: not one of its digits.\<close>

definition ends_number :: "nat \<Rightarrow> string \<Rightarrow> bool" where
  "ends_number b r \<longleftrightarrow> r = [] \<or> \<not> digit_of (hd r) < b"

lemma ends_number_mono: "ends_number b r \<Longrightarrow> b' \<le> b \<Longrightarrow> ends_number b' r"
  by (auto simp: ends_number_def)

lemma takeWhile_dec:
  assumes "ends_number b r" and "10 \<le> b"
  shows "takeWhile (\<lambda>c. digit_of c < b) (dec n @ r) = dec n"
proof -
  have "\<forall>c \<in> set (dec n). digit_of c < b"
    using assms(2) by (auto dest!: dec_digits)
  then show ?thesis
    using assms(1) by (cases r) (auto simp: ends_number_def)
qed

lemma hd_dec: "\<exists>d < 10 :: nat. hd (dec n) = char_of (48 + d)"
  using dec_digits [of "hd (dec n)" n] by simp

lemma dec_digit_char:
  assumes "d < (10 :: nat)"
  shows "\<not> isspace (char_of (48 + d))" "char_of (48 + d) \<noteq> CHR ''-''" "char_of (48 + d) \<noteq> CHR ''+''"
    "char_of (48 + d) \<noteq> CHR '',''" "char_of (48 + d) \<noteq> CHR ''.''" "char_of (48 + d) \<noteq> CHR ''=''"
    "char_of (48 + d) \<noteq> CHR '':''" "char_of (48 + d) \<noteq> CHR ''x''" "char_of (48 + d) \<noteq> CHR ''X''"
    "char_of (48 + d) \<noteq> nul" "char_of (48 + d) = CHR ''0'' \<longleftrightarrow> d = 0"
proof -
  have "d \<in> {0, 1, 2, 3, 4, 5, 6, 7, 8, 9}" using assms by auto
  then show "\<not> isspace (char_of (48 + d))" "char_of (48 + d) \<noteq> CHR ''-''" "char_of (48 + d) \<noteq> CHR ''+''"
    "char_of (48 + d) \<noteq> CHR '',''" "char_of (48 + d) \<noteq> CHR ''.''" "char_of (48 + d) \<noteq> CHR ''=''"
    "char_of (48 + d) \<noteq> CHR '':''" "char_of (48 + d) \<noteq> CHR ''x''" "char_of (48 + d) \<noteq> CHR ''X''"
    "char_of (48 + d) \<noteq> nul" "char_of (48 + d) = CHR ''0'' \<longleftrightarrow> d = 0"
    by (auto simp: isspace_def char_of_eq_iff nul_def)
qed

lemma dec_chars:
  assumes "c \<in> set (dec n)"
  shows "\<not> isspace c" "c \<noteq> CHR ''-''" "c \<noteq> CHR ''+''" "c \<noteq> CHR '',''" "c \<noteq> CHR ''.''" "c \<noteq> CHR ''=''"
    "c \<noteq> CHR '':''" "c \<noteq> CHR ''x''" "c \<noteq> CHR ''X''" "c \<noteq> nul"
  using dec_digits [OF assms] dec_digit_char by auto

lemma scan_prefix_dec: "sign_of (dropWhile isspace (dec n @ r)) = (False, dec n @ r)"
proof -
  have "hd (dec n) \<in> set (dec n)" by simp
  from dec_chars [OF this] show ?thesis
    by (cases "dec n") (auto simp: sign_of_def)
qed

lemma scan_int_10_dec:
  "ends_number 10 r \<Longrightarrow> scan_int 10 (dec n @ r) = Some (False, n, r)"
  by (simp add: scan_int_def scan_prefix_dec int_base_def takeWhile_dec)

text \<open>With base 0 a decimal number is read in base 10, and \<open>0\<close> in base 8.\<close>

lemma hd_dec_0: "hd (dec n) = CHR ''0'' \<longleftrightarrow> n = 0"
proof (induction n rule: dec.induct)
  case (1 n)
  then show ?case
    by (subst dec.simps) (auto simp: dec_digit_char)
qed

lemma scan_int_0_dec:
  assumes "ends_number 36 r"
  shows "scan_int 0 (dec n @ r) = Some (False, n, r)"
proof (cases "n = 0")
  case True
  have "dec n = [CHR ''0'']" by (subst dec.simps) (simp add: True char_of_eq_iff)
  moreover have "\<not> hex_prefix (CHR ''0'' # r)" "takeWhile (\<lambda>c. digit_of c < 8) r = []"
    using assms by (cases r; auto simp: hex_prefix_def ends_number_def digit_of_def)+
  ultimately show ?thesis
    using True scan_prefix_dec [of n r]
    by (simp add: scan_int_def int_base_def digits_value_def digit_of_def)
next
  case False
  then have "hd (dec n @ r) \<noteq> CHR ''0''" by (simp add: hd_dec_0)
  then have "int_base 0 (dec n @ r) = (10, dec n @ r)"
    by (simp add: int_base_def hex_prefix_def hd_conv_nth)
  then show ?thesis
    using ends_number_mono [OF assms, of 10] by (simp add: scan_int_def scan_prefix_dec takeWhile_dec)
qed

lemma strtol_dec:
  assumes "ends_number 36 r" and "int n \<le> LONG_MAX"
  shows "strtol (dec n @ r) 0 = (int n, Some r)"
  using assms by (simp add: strtol_def valid_base_def scan_int_0_dec)

lemma strtoull_dec:
  assumes "ends_number 36 r" and "n < 2 ^ 64"
  shows "strtoull (dec n @ r) 0 = (of_nat n, Some r)"
  using assms by (simp add: strtoull_def valid_base_def scan_int_0_dec)

lemma atoi_dec:
  assumes "ends_number 10 r" and "n < 2 ^ 31"
  shows "atoi (dec n @ r) = of_nat n"
  using assms by (simp add: atoi_def strtol_def valid_base_def scan_int_10_dec LONG_MAX_def)

end
