(* ===== verification/Utils.thy ===== *)
theory Utils
  imports C_String
begin

text \<open>
  \<^verbatim>\<open>applications/common/utils.c\<close>: reading a file into a buffer, the linear array initialisation
  and the bounded string copies (\<^verbatim>\<open>strlcpy\<close> and \<^verbatim>\<open>strlcat\<close> are defined in \<open>C_String\<close>).
\<close>

section \<open>read_file\<close>

text \<open>
  What the C library answers while one file is read: whether \<^verbatim>\<open>fopen\<close> succeeds, what the two
  \<^verbatim>\<open>fseek\<close> return, the result of \<^verbatim>\<open>ftell\<close>, whether \<^verbatim>\<open>malloc\<close> succeeds and the bytes that
  \<^verbatim>\<open>fread\<close> delivers. The resource calls are logged.
\<close>

record file_io =
  io_opens :: bool
  io_seek_end :: int
  io_tell :: int
  io_malloc :: bool
  io_seek_set :: int
  io_read :: "u8 list"

datatype io_event = Fopen | Fclose | Malloc int | Free

type_synonym read_result = "(doca_error + u8 list) \<times> io_event list"

text \<open>\<^verbatim>\<open>fread\<close> delivers at most the number of bytes asked for.\<close>

definition read_file :: "file_io \<Rightarrow> read_result" where
  "read_file io =
     (if \<not> io_opens io then (Inl DOCA_ERROR_NOT_FOUND, [])
      else if io_seek_end io \<noteq> 0 then (Inl DOCA_ERROR_IO_FAILED, [Fopen, Fclose])
      else
        let nb_file_bytes = io_tell io in
        if nb_file_bytes = -1 then (Inl DOCA_ERROR_IO_FAILED, [Fopen, Fclose])
        else if nb_file_bytes = 0 then (Inl DOCA_ERROR_INVALID_VALUE, [Fopen, Fclose])
        else if \<not> io_malloc io then (Inl DOCA_ERROR_NO_MEMORY, [Fopen, Fclose])
        else if io_seek_set io \<noteq> 0
          then (Inl DOCA_ERROR_IO_FAILED, [Fopen, Malloc nb_file_bytes, Free, Fclose])
        else
          let bytes = take (nat nb_file_bytes) (io_read io) in
          if int (length bytes) \<noteq> nb_file_bytes
          then (Inl DOCA_ERROR_IO_FAILED, [Fopen, Malloc nb_file_bytes, Fclose, Free])
          else (Inr bytes, [Fopen, Malloc nb_file_bytes, Fclose]))"

section \<open>linear_array_init_u16\<close>

function linear_array_loop :: "u16 \<Rightarrow> u16 \<Rightarrow> u16 list \<Rightarrow> u16 list option" where
  "linear_array_loop i n array =
     (if i < n then
        if unat i < length array then linear_array_loop (i + 1) n (array[unat i := i]) else None
      else Some array)"
  by pat_completeness auto
termination
proof (relation "measure (\<lambda>(i, n, _). unat n - unat i)")
  fix i n :: u16 and array :: "u16 list"
  assume "i < n"
  then have "unat (i + 1) = Suc (unat i)"
    by (rule unat_Suc_less)
  with \<open>i < n\<close> show "((i + 1, n, array[unat i := i]), i, n, array) \<in> measure (\<lambda>(i, n, _). unat n - unat i)"
    by (simp add: word_less_nat_alt)
qed simp

declare linear_array_loop.simps [simp del]

definition linear_array_init_u16 :: "u16 list \<Rightarrow> u16 \<Rightarrow> u16 list option" where
  "linear_array_init_u16 array n = linear_array_loop 0 n array"

lemma linear_array_loop_eq:
  assumes "i \<le> n" and "unat n \<le> length array"
    and "\<forall>j < unat i. array ! j = of_nat j"
  shows "\<exists>array'. linear_array_loop i n array = Some array' \<and> length array' = length array
    \<and> (\<forall>j < unat n. array' ! j = of_nat j) \<and> drop (unat n) array' = drop (unat n) array"
  using assms
proof (induction i n array rule: linear_array_loop.induct)
  case (1 i n array)
  show ?case
  proof (cases "i < n")
    case True
    then have i: "unat i < length array" "unat (i + 1) = Suc (unat i)" "i + 1 \<le> n" "unat i < unat n"
      using 1(3) unat_Suc_less [OF True] by (simp_all add: word_less_nat_alt word_le_nat_alt)
    have "\<forall>j < unat (i + 1). array[unat i := i] ! j = of_nat j"
      using 1(4) i by (auto simp: nth_list_update less_Suc_eq)
    from 1(1) [OF True i(1) i(3) _ this] 1(3) i True show ?thesis
      by (simp add: linear_array_loop.simps [of i])
  next
    case False
    then have "i = n" using 1(2) by simp
    then show ?thesis using 1 by (simp add: linear_array_loop.simps [of n n])
  qed
qed

lemma cstr_append: "nul \<notin> set xs \<Longrightarrow> cstr (xs @ ys) = xs @ cstr ys"
  by (induction xs) (auto simp: cstr_def)

lemma cstr_nul [simp]: "cstr (nul # ys) = []"
  by (simp add: cstr_def)

lemma nul_not_in_cstr [simp]: "nul \<notin> set (cstr buf)"
  by (auto simp: cstr_def dest: set_takeWhileD)

lemma strlcpy_ok:
  assumes "0 < sz" and "sz \<le> length dst" and "nul \<notin> set src"
  shows "\<exists>dst'. strlcpy dst src sz = Some (dst', length src) \<and> length dst' = length dst
            \<and> cstr dst' = take (sz - 1) src \<and> drop sz dst' = drop sz dst"
proof -
  let ?k = "min (length src) (sz - 1)"
  have k: "?k < sz" using assms by auto
  have "cstr (take ?k src @ nul # drop (Suc ?k) dst) = take ?k src"
    using assms(3) by (subst cstr_append) (auto dest: in_set_takeD)
  moreover have "take ?k src = take (sz - 1) src"
    by (simp add: min_def)
  moreover have "drop sz (take ?k src @ nul # drop (Suc ?k) dst) = drop sz dst"
    using k by (cases sz) (auto simp: Suc_diff_le)
  ultimately show ?thesis
    using assms k by (auto simp: strlcpy_def Let_def)
qed

lemma cstr_take:
  assumes "nul \<in> set (take sz dst)"
  shows "cstr (take sz dst) = cstr dst" "length (cstr dst) < sz" "take (length (cstr dst)) dst = cstr dst"
    "length (cstr dst) < length dst"
proof -
  have "cstr dst = cstr (take sz dst @ drop sz dst)" by simp
  also have "\<dots> = cstr (take sz dst)"
    using assms unfolding cstr_def by (rule takeWhile_append1) simp
  finally show c: "cstr (take sz dst) = cstr dst" ..
  have "length (cstr (take sz dst)) \<noteq> length (take sz dst)"
    using assms nul_not_in_cstr [of "take sz dst"] unfolding cstr_def
    by (metis append.right_neutral takeWhile_dropWhile_id append_eq_conv_conj length_0_conv take_all_iff takeWhile_eq_take order.refl)
  moreover have "length (cstr (take sz dst)) \<le> length (take sz dst)"
    unfolding cstr_def by (rule length_takeWhile_le)
  ultimately show "length (cstr dst) < sz" "length (cstr dst) < length dst"
    by (auto simp: c)
  show "take (length (cstr dst)) dst = cstr dst"
    by (simp add: cstr_def takeWhile_eq_take [symmetric])
qed

section \<open>Properties\<close>

text \<open>C17. \<^verbatim>\<open>strlcpy\<close> into an array of at least \<^verbatim>\<open>size\<close> bytes never writes outside it, leaves a
  terminated string that is the source cut to \<^verbatim>\<open>size - 1\<close> characters and keeps every byte from
  \<^verbatim>\<open>size\<close> on; \<^verbatim>\<open>strlcat\<close> on an array that holds a string leaves the concatenation cut the
  same way. Both return the length they tried to create.\<close>

theorem strlcpy_strlcat_bounded:
  assumes "0 < sz" and "sz \<le> length dst" and "nul \<notin> set src"
  shows "(\<exists>dst'. strlcpy dst src sz = Some (dst', length src) \<and> length dst' = length dst
            \<and> cstr dst' = take (sz - 1) src \<and> drop sz dst' = drop sz dst)
    \<and> (nul \<in> set (take sz dst) \<longrightarrow>
         (\<exists>dst'. strlcat dst src sz = Some (dst', length (cstr dst) + length src)
            \<and> length dst' = length dst \<and> cstr dst' = take (sz - 1) (cstr dst @ src)
            \<and> drop sz dst' = drop sz dst))"
proof (intro conjI impI strlcpy_ok assms)
  let ?n = "length (cstr dst)"
  assume nul: "nul \<in> set (take sz dst)"
  note c = cstr_take [OF nul]
  obtain tail where t: "strlcpy (drop ?n dst) src (sz - ?n) = Some (tail, length src)"
      "length tail = length dst - ?n" "cstr tail = take (sz - ?n - 1) src"
      "drop (sz - ?n) tail = drop sz dst"
    using strlcpy_ok [of "sz - ?n" "drop ?n dst" src] assms c(2) diff_le_mono [OF assms(2), of ?n] by auto
  have "strlcat dst src sz = Some (cstr dst @ tail, ?n + length src)"
    using t(1) c by (simp add: strlcat_def strnlen_def)
  moreover have "cstr (cstr dst @ tail) = take (sz - 1) (cstr dst @ src)"
    using c(2) by (simp add: cstr_append t(3))
  ultimately show "\<exists>dst'. strlcat dst src sz = Some (dst', ?n + length src)
            \<and> length dst' = length dst \<and> cstr dst' = take (sz - 1) (cstr dst @ src)
            \<and> drop sz dst' = drop sz dst"
    using t c by auto
qed

theorem strlcpy_strlcat_bounded_witness:
  "\<exists>dst'. strlcat [CHR ''a'', nul, nul, nul] ''bcd'' 4 = Some (dst', 4) \<and> cstr dst' = ''abc''"
  using strlcpy_strlcat_bounded [of 4 "[CHR ''a'', nul, nul, nul]" "''bcd''"]
  by (auto simp: nul_def cstr_def)

text \<open>C18. \<^verbatim>\<open>read_file\<close> never leaks: on every path on which the file was opened it is closed
  exactly once, and the buffer that was allocated is freed exactly when no bytes are returned. It
  returns bytes only when it read the whole file, whose size is then not zero.\<close>

theorem read_file_no_leak:
  "(let (r, log) = read_file io in
     count_list log Fclose = count_list log Fopen
     \<and> length (filter (\<lambda>e. \<exists>n. e = Malloc n) log) = count_list log Free + (if isl r then 0 else 1)
     \<and> (\<forall>bytes. r = Inr bytes \<longrightarrow> bytes \<noteq> [] \<and> int (length bytes) = io_tell io
          \<and> bytes = take (length bytes) (io_read io)))"
  by (auto simp: read_file_def Let_def)

theorem read_file_no_leak_witness:
  "(let (r, log) = read_file \<lparr>io_opens = True, io_seek_end = 0, io_tell = 2, io_malloc = True,
       io_seek_set = 0, io_read = [1, 2]\<rparr>
    in r = Inr [1, 2] \<and> count_list log Fclose = count_list log Fopen)"
  using read_file_no_leak [of "\<lparr>io_opens = True, io_seek_end = 0, io_tell = 2, io_malloc = True,
       io_seek_set = 0, io_read = [1, 2]\<rparr>"] by (simp add: read_file_def)

text \<open>\<^verbatim>\<open>linear_array_init_u16\<close> terminates for every count, also the largest, and sets the
  first \<open>n\<close> elements of an array that has them to their index; the others stay.\<close>

theorem linear_array_init_u16_spec:
  assumes "unat n \<le> length array"
  shows "\<exists>array'. linear_array_init_u16 array n = Some array' \<and> length array' = length array
    \<and> (\<forall>j < unat n. array' ! j = of_nat j) \<and> drop (unat n) array' = drop (unat n) array"
  using linear_array_loop_eq [of 0 n array] assms by (simp add: linear_array_init_u16_def)

theorem linear_array_init_u16_spec_witness:
  "\<exists>array'. linear_array_init_u16 [9, 9, 9] 2 = Some array' \<and> array' ! 1 = 1"
  using linear_array_init_u16_spec [of 2 "[9, 9, 9]"] by auto

end
