(* ===== verification/Flow_Types.thy ===== *)
theory Flow_Types
  imports Prelude
begin

text \<open>
  The enumerations and structures of \<^verbatim>\<open>doca_flow.h\<close> and \<^verbatim>\<open>doca_flow_net.h\<close> that the command
  line parser, the pipes manager and the gateway fill. A union is kept as its storage on a
  little-endian LP64 target wherever two of its members that the programs use overlap:
  \<^item> \<^verbatim>\<open>ip4\<close> and \<^verbatim>\<open>ip6\<close> of a header are the eleven 32-bit words of the larger one;
  \<^item> \<^verbatim>\<open>tcp\<close>, \<^verbatim>\<open>udp\<close> and \<^verbatim>\<open>transport\<close> share the two ports;
  \<^item> \<^verbatim>\<open>port_id\<close> of a forward is the low half of \<^verbatim>\<open>rss_outer_flags\<close>.

  The three tunnel identifiers stand at different offsets of their union (8, 12 and 0) and are
  separate fields. Fields that the programs never touch are left out.
\<close>

section \<open>Enumerations\<close>

datatype doca_flow_l3_type =
  DOCA_FLOW_L3_TYPE_NONE | DOCA_FLOW_L3_TYPE_IP4 | DOCA_FLOW_L3_TYPE_IP6

datatype doca_flow_l4_type_ext =
    DOCA_FLOW_L4_TYPE_EXT_NONE | DOCA_FLOW_L4_TYPE_EXT_TCP | DOCA_FLOW_L4_TYPE_EXT_UDP
  | DOCA_FLOW_L4_TYPE_EXT_ICMP | DOCA_FLOW_L4_TYPE_EXT_ICMP6 | DOCA_FLOW_L4_TYPE_EXT_TRANSPORT

datatype doca_flow_tun_type =
    DOCA_FLOW_TUN_NONE | DOCA_FLOW_TUN_VXLAN | DOCA_FLOW_TUN_GTPU | DOCA_FLOW_TUN_GRE
  | DOCA_FLOW_TUN_ESP | DOCA_FLOW_TUN_MPLS_O_UDP | DOCA_FLOW_TUN_GENEVE | DOCA_FLOW_TUN_PSP
  | DOCA_FLOW_TUN_MAX

datatype doca_flow_fwd_type =
    DOCA_FLOW_FWD_NONE | DOCA_FLOW_FWD_RSS | DOCA_FLOW_FWD_PORT | DOCA_FLOW_FWD_PIPE
  | DOCA_FLOW_FWD_DROP | DOCA_FLOW_FWD_TARGET | DOCA_FLOW_FWD_ORDERED_LIST_PIPE
  | DOCA_FLOW_FWD_CHANGEABLE

datatype doca_flow_pipe_type =
    DOCA_FLOW_PIPE_BASIC | DOCA_FLOW_PIPE_CONTROL | DOCA_FLOW_PIPE_LPM | DOCA_FLOW_PIPE_CT
  | DOCA_FLOW_PIPE_ACL | DOCA_FLOW_PIPE_ORDERED_LIST | DOCA_FLOW_PIPE_HASH

datatype doca_flow_resource_type =
  DOCA_FLOW_RESOURCE_TYPE_NONE | DOCA_FLOW_RESOURCE_TYPE_SHARED | DOCA_FLOW_RESOURCE_TYPE_NON_SHARED

definition DOCA_FLOW_MATCH_TCP_FLAG_FIN :: u8 where "DOCA_FLOW_MATCH_TCP_FLAG_FIN = push_bit 0 1"
definition DOCA_FLOW_MATCH_TCP_FLAG_SYN :: u8 where "DOCA_FLOW_MATCH_TCP_FLAG_SYN = push_bit 1 1"
definition DOCA_FLOW_MATCH_TCP_FLAG_RST :: u8 where "DOCA_FLOW_MATCH_TCP_FLAG_RST = push_bit 2 1"
definition DOCA_FLOW_MATCH_TCP_FLAG_PSH :: u8 where "DOCA_FLOW_MATCH_TCP_FLAG_PSH = push_bit 3 1"
definition DOCA_FLOW_MATCH_TCP_FLAG_ACK :: u8 where "DOCA_FLOW_MATCH_TCP_FLAG_ACK = push_bit 4 1"
definition DOCA_FLOW_MATCH_TCP_FLAG_URG :: u8 where "DOCA_FLOW_MATCH_TCP_FLAG_URG = push_bit 5 1"
definition DOCA_FLOW_MATCH_TCP_FLAG_ECE :: u8 where "DOCA_FLOW_MATCH_TCP_FLAG_ECE = push_bit 6 1"
definition DOCA_FLOW_MATCH_TCP_FLAG_CWR :: u8 where "DOCA_FLOW_MATCH_TCP_FLAG_CWR = push_bit 7 1"

definition DOCA_FLOW_NO_WAIT :: u32 where "DOCA_FLOW_NO_WAIT = 0"

section \<open>Structures\<close>

record doca_flow_header_eth =
  src_mac :: "u8 list"
  dst_mac :: "u8 list"
  eth_type :: u16

record doca_flow_header_format =
  eth :: doca_flow_header_eth
  eth_vlan_tci :: "u16 list"
  l3_type :: doca_flow_l3_type
  l3_words :: "u32 list"
  l4_type_ext :: doca_flow_l4_type_ext
  l4_src_port :: u16
  l4_dst_port :: u16
  tcp_flags :: u8

record doca_flow_tun =
  tun_type :: doca_flow_tun_type
  vxlan_tun_id :: u32
  gre_key :: u32
  gtp_teid :: u32

record doca_flow_match =
  match_flags :: u32
  port_meta :: u32
  outer :: doca_flow_header_format
  tun :: doca_flow_tun
  inner :: doca_flow_header_format

record doca_flow_actions =
  act_outer :: doca_flow_header_format
  encap_outer :: doca_flow_header_format
  encap_tun :: doca_flow_tun

record doca_flow_monitor =
  meter_type :: doca_flow_resource_type
  cir :: u64
  cbs :: u64
  counter_type :: doca_flow_resource_type
  aging_sec :: u32

text \<open>\<^verbatim>\<open>rss_queues\<close> of a forward is a pointer: the address of an allocated array, 0 for \<^verbatim>\<open>NULL\<close>.\<close>

record doca_flow_fwd =
  fwd_type :: doca_flow_fwd_type
  rss_outer_flags :: u32
  rss_inner_flags :: u32
  fwd_rss_queues :: nat
  num_of_queues :: int

section \<open>Union members\<close>

definition ip4_src_ip :: "doca_flow_header_format \<Rightarrow> u32" where
  "ip4_src_ip h = l3_words h ! 0"

definition ip4_dst_ip :: "doca_flow_header_format \<Rightarrow> u32" where
  "ip4_dst_ip h = l3_words h ! 1"

definition set_ip4_src_ip :: "u32 \<Rightarrow> doca_flow_header_format \<Rightarrow> doca_flow_header_format" where
  "set_ip4_src_ip a h = h\<lparr>l3_words := (l3_words h)[0 := a]\<rparr>"

definition set_ip4_dst_ip :: "u32 \<Rightarrow> doca_flow_header_format \<Rightarrow> doca_flow_header_format" where
  "set_ip4_dst_ip a h = h\<lparr>l3_words := (l3_words h)[1 := a]\<rparr>"

text \<open>\<^verbatim>\<open>ttl\<close> is byte 17 of the IPv4 header structure: byte 1 of word 4.\<close>

definition set_ip4_ttl :: "u8 \<Rightarrow> doca_flow_header_format \<Rightarrow> doca_flow_header_format" where
  "set_ip4_ttl t h =
     h\<lparr>l3_words := (l3_words h)[4 := (l3_words h ! 4 AND 0xFFFF00FF) OR push_bit 8 (ucast t)]\<rparr>"

definition set_ip6_src_ip :: "u32 list \<Rightarrow> doca_flow_header_format \<Rightarrow> doca_flow_header_format" where
  "set_ip6_src_ip a h = h\<lparr>l3_words := a @ drop 4 (l3_words h)\<rparr>"

definition set_ip6_dst_ip :: "u32 list \<Rightarrow> doca_flow_header_format \<Rightarrow> doca_flow_header_format" where
  "set_ip6_dst_ip a h = h\<lparr>l3_words := take 4 (l3_words h) @ a @ drop 8 (l3_words h)\<rparr>"

definition ip6_src_ip :: "doca_flow_header_format \<Rightarrow> u32 list" where
  "ip6_src_ip h = take 4 (l3_words h)"

definition ip6_dst_ip :: "doca_flow_header_format \<Rightarrow> u32 list" where
  "ip6_dst_ip h = take 4 (drop 4 (l3_words h))"

definition fwd_port_id :: "doca_flow_fwd \<Rightarrow> u16" where
  "fwd_port_id f = ucast (rss_outer_flags f)"

definition set_fwd_port_id :: "u16 \<Rightarrow> doca_flow_fwd \<Rightarrow> doca_flow_fwd" where
  "set_fwd_port_id p f = f\<lparr>rss_outer_flags := (rss_outer_flags f AND 0xFFFF0000) OR ucast p\<rparr>"

section \<open>Zeroed structures\<close>

text \<open>What \<^verbatim>\<open>memset (&s, 0, sizeof s)\<close> leaves.\<close>

definition zero_header :: doca_flow_header_format where
  "zero_header = \<lparr>eth = \<lparr>src_mac = replicate 6 0, dst_mac = replicate 6 0, eth_type = 0\<rparr>,
     eth_vlan_tci = [0, 0], l3_type = DOCA_FLOW_L3_TYPE_NONE, l3_words = replicate 11 0,
     l4_type_ext = DOCA_FLOW_L4_TYPE_EXT_NONE, l4_src_port = 0, l4_dst_port = 0, tcp_flags = 0\<rparr>"

definition zero_tun :: doca_flow_tun where
  "zero_tun = \<lparr>tun_type = DOCA_FLOW_TUN_NONE, vxlan_tun_id = 0, gre_key = 0, gtp_teid = 0\<rparr>"

definition zero_match :: doca_flow_match where
  "zero_match = \<lparr>match_flags = 0, port_meta = 0, outer = zero_header, tun = zero_tun, inner = zero_header\<rparr>"

definition zero_actions :: doca_flow_actions where
  "zero_actions = \<lparr>act_outer = zero_header, encap_outer = zero_header, encap_tun = zero_tun\<rparr>"

definition zero_monitor :: doca_flow_monitor where
  "zero_monitor = \<lparr>meter_type = DOCA_FLOW_RESOURCE_TYPE_NONE, cir = 0, cbs = 0,
     counter_type = DOCA_FLOW_RESOURCE_TYPE_NONE, aging_sec = 0\<rparr>"

definition zero_fwd :: doca_flow_fwd where
  "zero_fwd = \<lparr>fwd_type = DOCA_FLOW_FWD_NONE, rss_outer_flags = 0, rss_inner_flags = 0,
     fwd_rss_queues = 0, num_of_queues = 0\<rparr>"

section \<open>Byte order\<close>

text \<open>Conversion to network order on the little-endian target.\<close>

definition be16 :: "u16 \<Rightarrow> u16" where
  "be16 v = SET_BYTE (GET_BYTE v 0) 1 OR SET_BYTE (GET_BYTE v 1) 0"

definition be32 :: "u32 \<Rightarrow> u32" where
  "be32 v = SET_BYTE (GET_BYTE v 0) 3 OR SET_BYTE (GET_BYTE v 1) 2
        OR SET_BYTE (GET_BYTE v 2) 1 OR SET_BYTE (GET_BYTE v 3) 0"

text \<open>The bytes of a value in the order in which they stand in memory.\<close>

definition mem_bytes32 :: "u32 \<Rightarrow> u8 list" where
  "mem_bytes32 v = [GET_BYTE v 0, GET_BYTE v 1, GET_BYTE v 2, GET_BYTE v 3]"

section \<open>Well-formed headers\<close>

definition wf_header :: "doca_flow_header_format \<Rightarrow> bool" where
  "wf_header h \<longleftrightarrow> length (src_mac (eth h)) = 6 \<and> length (dst_mac (eth h)) = 6
     \<and> length (eth_vlan_tci h) = 2 \<and> length (l3_words h) = 11"

lemma wf_zero_header [simp]: "wf_header zero_header"
  by (simp add: wf_header_def zero_header_def)

lemma bit_high_half: "bit (0xFFFF0000 :: int) n \<Longrightarrow> 16 \<le> n"
proof -
  have "(0xFFFF0000 :: int) = push_bit 16 0xFFFF" by (simp add: push_bit_eq_mult)
  then show "bit (0xFFFF0000 :: int) n \<Longrightarrow> 16 \<le> n"
    by (simp only: bit_push_bit_iff)
qed

lemma fwd_port_id_set [simp]: "fwd_port_id (set_fwd_port_id p f) = p"
  by (rule bit_word_eqI)
     (auto simp: fwd_port_id_def set_fwd_port_id_def bit_simps dest!: bit_high_half)

lemma ip4_get_set:
  "wf_header h \<Longrightarrow> ip4_src_ip (set_ip4_src_ip a h) = a"
  "wf_header h \<Longrightarrow> ip4_dst_ip (set_ip4_dst_ip a h) = a"
  "wf_header h \<Longrightarrow> ip4_dst_ip (set_ip4_src_ip a h) = ip4_dst_ip h"
  "wf_header h \<Longrightarrow> ip4_src_ip (set_ip4_dst_ip a h) = ip4_src_ip h"
  by (auto simp: wf_header_def ip4_src_ip_def ip4_dst_ip_def set_ip4_src_ip_def set_ip4_dst_ip_def)

end
