(* ===== verification/Flow_Values.thy ===== *)
theory Flow_Values
  imports C_String Flow_Types
begin

text \<open>
  The value parsers of \<^verbatim>\<open>applications/common/flow_parser.c\<close>: addresses, ports, type names, RSS
  queues. An \<^verbatim>\<open>int\<close> is kept as its 32 bits. A parser with an output parameter returns the error
  code and the value of the output afterwards; undefined behaviour is \<open>None\<close>.
\<close>

section \<open>IPv4 addresses\<close>

definition HEXADECIMAL_BASE :: nat where "HEXADECIMAL_BASE = 1"
definition MAC_ADDR_LEN :: nat where "MAC_ADDR_LEN = 6"
definition IP_ADDR_LEN :: nat where "IP_ADDR_LEN = 4"
definition UINT32_CHANGEABLE_FIELD :: string where "UINT32_CHANGEABLE_FIELD = ''0xffffffff''"

definition BE_IPV4_ADDR :: "u32 \<Rightarrow> u32 \<Rightarrow> u32 \<Rightarrow> u32 \<Rightarrow> u32" where
  "BE_IPV4_ADDR a b c d = be32 (push_bit 24 a + push_bit 16 b + push_bit 8 c + d)"

text \<open>The loop over the dotted parts: their values and the text after the last dot.\<close>

fun ipv4_parts :: "nat \<Rightarrow> string \<Rightarrow> (u32 list \<times> string) option" where
  "ipv4_parts 0 str_ip = Some ([], str_ip)"
| "ipv4_parts (Suc n) str_ip =
     (case strchr str_ip (CHR ''.'') of
        None \<Rightarrow> None
      | Some ptr \<Rightarrow>
          (case ipv4_parts n (tl ptr) of
             None \<Rightarrow> None
           | Some (ips, rest) \<Rightarrow> Some (atoi str_ip # ips, rest)))"

definition parse_ipv4_str :: "string \<Rightarrow> doca_error + u32" where
  "parse_ipv4_str str_ip =
     (if str_ip = UINT32_CHANGEABLE_FIELD then Inr (- 1)
      else case ipv4_parts 3 str_ip of
        None \<Rightarrow> Inl DOCA_ERROR_INVALID_VALUE
      | Some (ips, ptr) \<Rightarrow> Inr (BE_IPV4_ADDR (ips ! 0) (ips ! 1) (ips ! 2) (atoi ptr)))"

section \<open>Names\<close>

definition parse_protocol_string :: "string \<Rightarrow> doca_error + doca_flow_l4_type_ext" where
  "parse_protocol_string protocol_str =
     (if protocol_str = ''tcp'' then Inr DOCA_FLOW_L4_TYPE_EXT_TCP
      else if protocol_str = ''udp'' then Inr DOCA_FLOW_L4_TYPE_EXT_UDP
      else Inl DOCA_ERROR_INVALID_VALUE)"

definition PIPE_ID_STR_LEN :: nat where "PIPE_ID_STR_LEN = 8"
definition PORT_ID_STR_LEN :: nat where "PORT_ID_STR_LEN = 8"

definition parse_pipe_id_input :: "string \<Rightarrow> doca_error + u64" where
  "parse_pipe_id_input pipe_id_str =
     (if \<not> strncmp0 pipe_id_str ''pipe_id='' PIPE_ID_STR_LEN then Inl DOCA_ERROR_INVALID_VALUE
      else Inr (fst (strtoull (drop PIPE_ID_STR_LEN pipe_id_str) 0)))"

definition parse_port_id_input :: "string \<Rightarrow> doca_error + u32" where
  "parse_port_id_input port_id_str =
     (if \<not> strncmp0 port_id_str ''port_id='' PORT_ID_STR_LEN then Inl DOCA_ERROR_INVALID_VALUE
      else Inr (word_of_int (fst (strtol (drop PORT_ID_STR_LEN port_id_str) 0))))"

definition parse_tun_type_string :: "string \<Rightarrow> doca_error + doca_flow_tun_type" where
  "parse_tun_type_string tun_type_str =
     (if tun_type_str = ''vxlan'' then Inr DOCA_FLOW_TUN_VXLAN
      else if tun_type_str = ''gtpu'' then Inr DOCA_FLOW_TUN_GTPU
      else if tun_type_str = ''gre'' then Inr DOCA_FLOW_TUN_GRE
      else Inl DOCA_ERROR_INVALID_VALUE)"

definition parse_fwd_type :: "string \<Rightarrow> doca_error + doca_flow_fwd_type" where
  "parse_fwd_type fwd_str =
     (if fwd_str = ''rss'' then Inr DOCA_FLOW_FWD_RSS
      else if fwd_str = ''port'' then Inr DOCA_FLOW_FWD_PORT
      else if fwd_str = ''pipe'' then Inr DOCA_FLOW_FWD_PIPE
      else if fwd_str = ''drop'' then Inr DOCA_FLOW_FWD_DROP
      else Inl DOCA_ERROR_INVALID_VALUE)"

text \<open>
  The setter of the pipe configuration is a function of the DOCA Flow library; it is a parameter
  that returns its error code and the configuration afterwards.
\<close>

definition parse_pipe_type ::
    "('cfg \<Rightarrow> doca_flow_pipe_type \<Rightarrow> doca_error \<times> 'cfg) \<Rightarrow> string \<Rightarrow> 'cfg
     \<Rightarrow> (doca_error + doca_flow_pipe_type) \<times> 'cfg" where
  "parse_pipe_type set_type pipe_type cfg =
     (if pipe_type = ''basic'' then
        let (result, cfg) = set_type cfg DOCA_FLOW_PIPE_BASIC in
        if result \<noteq> DOCA_SUCCESS then (Inl result, cfg) else (Inr DOCA_FLOW_PIPE_BASIC, cfg)
      else if pipe_type = ''control'' then
        let (result, cfg) = set_type cfg DOCA_FLOW_PIPE_CONTROL in
        if result \<noteq> DOCA_SUCCESS then (Inl result, cfg) else (Inr DOCA_FLOW_PIPE_CONTROL, cfg)
      else (Inl DOCA_ERROR_INVALID_VALUE, cfg))"

definition parse_ip_type :: "string \<Rightarrow> doca_error + doca_flow_l3_type" where
  "parse_ip_type ip_type_str =
     (if ip_type_str = ''ipv4'' then Inr DOCA_FLOW_L3_TYPE_IP4
      else if ip_type_str = ''ipv6'' then Inr DOCA_FLOW_L3_TYPE_IP6
      else Inl DOCA_ERROR_INVALID_VALUE)"

definition parse_l3_type :: "string \<Rightarrow> doca_error + doca_flow_l3_type" where
  "parse_l3_type l3_type_str =
     (if l3_type_str = ''ipv4'' then Inr DOCA_FLOW_L3_TYPE_IP4
      else if l3_type_str = ''ipv6'' then Inr DOCA_FLOW_L3_TYPE_IP6
      else Inl DOCA_ERROR_INVALID_VALUE)"

definition parse_tcp_flag_string :: "string \<Rightarrow> doca_error + u8" where
  "parse_tcp_flag_string tcp_flag_str =
     (if tcp_flag_str = ''FIN'' then Inr DOCA_FLOW_MATCH_TCP_FLAG_FIN
      else if tcp_flag_str = ''SYN'' then Inr DOCA_FLOW_MATCH_TCP_FLAG_SYN
      else if tcp_flag_str = ''RST'' then Inr DOCA_FLOW_MATCH_TCP_FLAG_RST
      else if tcp_flag_str = ''PSH'' then Inr DOCA_FLOW_MATCH_TCP_FLAG_PSH
      else if tcp_flag_str = ''ACK'' then Inr DOCA_FLOW_MATCH_TCP_FLAG_ACK
      else if tcp_flag_str = ''URG'' then Inr DOCA_FLOW_MATCH_TCP_FLAG_URG
      else if tcp_flag_str = ''ECE'' then Inr DOCA_FLOW_MATCH_TCP_FLAG_ECE
      else if tcp_flag_str = ''CWR'' then Inr DOCA_FLOW_MATCH_TCP_FLAG_CWR
      else Inl DOCA_ERROR_INVALID_VALUE)"

section \<open>MAC and IPv6 addresses\<close>

fun mac_loop :: "nat \<Rightarrow> nat \<Rightarrow> string \<Rightarrow> u8 list \<Rightarrow> (doca_error \<times> u8 list)" where
  "mac_loop 0 i mac_addr_str mac_addr =
     (DOCA_SUCCESS, mac_addr[i := word_of_int (fst (strtol mac_addr_str HEXADECIMAL_BASE))])"
| "mac_loop (Suc n) i mac_addr_str mac_addr =
     (let mac_addr = mac_addr[i := word_of_int (fst (strtol mac_addr_str HEXADECIMAL_BASE))] in
      case strchr mac_addr_str (CHR '':'') of
        Some ptr \<Rightarrow> mac_loop n (Suc i) (tl ptr) mac_addr
      | None \<Rightarrow> (DOCA_ERROR_INVALID_VALUE, mac_addr))"

definition parse_mac_address :: "string \<Rightarrow> u8 list \<Rightarrow> doca_error \<times> u8 list" where
  "parse_mac_address mac_addr_str mac_addr = mac_loop (MAC_ADDR_LEN - 1) 0 mac_addr_str mac_addr"

text \<open>
  \<open>ptr\<close> is the local pointer, \<open>None\<close> while it is uninitialised; reading it then is undefined. A
  pointer that \<^verbatim>\<open>strtol\<close> stored is never \<^verbatim>\<open>NULL\<close>.
\<close>

definition ipv6_half :: "string \<Rightarrow> string option \<Rightarrow> (u32 \<times> string \<times> string option) option" where
  "ipv6_half str_ip ptr =
     (let (v, stored) = strtol str_ip HEXADECIMAL_BASE;
          ptr = (if stored = None then ptr else stored)
      in do { p \<leftarrow> ptr; next \<leftarrow> ptr_add p 1; Some (word_of_int v, next, Some next) })"

fun ipv6_words :: "nat \<Rightarrow> string \<Rightarrow> string option \<Rightarrow> u32 list option" where
  "ipv6_words 0 str_ip ptr = Some []"
| "ipv6_words (Suc n) str_ip ptr =
     do { (ip0, str_ip, ptr) \<leftarrow> ipv6_half str_ip ptr;
          (ip1, str_ip, ptr) \<leftarrow> ipv6_half str_ip ptr;
          ws \<leftarrow> ipv6_words n str_ip ptr;
          Some (be32 (push_bit 16 ip0 + ip1) # ws) }"

definition parse_ipv6_str :: "string \<Rightarrow> u32 list option" where
  "parse_ipv6_str str_ip = ipv6_words IP_ADDR_LEN str_ip None"

section \<open>RSS queues\<close>

text \<open>
  The global \<^verbatim>\<open>rss_queues\<close> and the heap it points into. \<open>malloc_ok\<close> says whether the \<open>n\<close>-th
  allocation succeeds; a request for a negative number of bytes is one of almost \<open>2 ^ 64\<close> bytes and
  fails. A freed array leaves the heap, a pointer to it dangles.
\<close>

record rss_heap =
  rss_queues :: nat
  arrays :: "nat \<Rightarrow> u16 list option"
  allocs :: nat

fun rss_loop :: "nat \<Rightarrow> string \<Rightarrow> u16 list option" where
  "rss_loop 0 rss_queues_str = Some [word_of_int (fst (strtol rss_queues_str 0))]"
| "rss_loop (Suc n) rss_queues_str =
     do { next \<leftarrow> ptr_add rss_queues_str 2;
          qs \<leftarrow> rss_loop n next;
          Some (word_of_int (fst (strtol rss_queues_str 0)) # qs) }"

definition parse_rss_queues ::
    "(nat \<Rightarrow> bool) \<Rightarrow> string \<Rightarrow> int \<Rightarrow> rss_heap \<Rightarrow> (doca_error \<times> rss_heap) option" where
  "parse_rss_queues malloc_ok rss_queues_str n_queues h =
     (let h = (if rss_queues h \<noteq> 0 then h\<lparr>arrays := (arrays h)(rss_queues h := None)\<rparr> else h);
          a = Suc (allocs h)
      in if n_queues < 0 \<or> \<not> malloc_ok a
         then Some (DOCA_ERROR_NO_MEMORY, h\<lparr>rss_queues := 0, allocs := a\<rparr>)
         else if n_queues = 0 then None
         else do { qs \<leftarrow> rss_loop (nat n_queues - 1) rss_queues_str;
                   Some (DOCA_SUCCESS,
                     h\<lparr>rss_queues := a, arrays := (arrays h)(a \<mapsto> qs), allocs := a\<rparr>) })"

section \<open>Dotted addresses\<close>

definition dotted :: "nat \<Rightarrow> nat \<Rightarrow> nat \<Rightarrow> nat \<Rightarrow> string" where
  "dotted a b c d = dec a @ ''.'' @ dec b @ ''.'' @ dec c @ ''.'' @ dec d"

lemma strchr_dec:
  "strchr (dec n @ CHR ''.'' # r) (CHR ''.'') = Some (CHR ''.'' # r)"
proof -
  have "dropWhile (\<lambda>x. x \<noteq> CHR ''.'') (dec n @ CHR ''.'' # r) = CHR ''.'' # r"
    by (subst dropWhile_append2) (auto dest: dec_chars)
  then show ?thesis by (simp add: strchr_def)
qed

lemma ends_number_dot [simp]: "ends_number 10 (CHR ''.'' # r)"
  by (simp add: ends_number_def digit_of_def)

lemma ends_number_Nil [simp]: "ends_number b []"
  by (simp add: ends_number_def)

lemma ipv4_parts_dotted:
  assumes "a < 256" "b < 256" "c < 256"
  shows "ipv4_parts 3 (dotted a b c d) = Some ([of_nat a, of_nat b, of_nat c], dec d)"
  using assms by (simp add: dotted_def numeral_3_eq_3 strchr_dec atoi_dec)

lemma GET_BYTE_be32:
  "n < 4 \<Longrightarrow> GET_BYTE (be32 v) n = GET_BYTE v (3 - n)"
proof -
  assume "n < 4"
  then have "n \<in> {0, 1, 2, 3}" by auto
  then show ?thesis
    by (auto simp: be32_def GET_BYTE_or GET_SET_BYTE)
qed

lemma unat_ipv4_word:
  assumes "a < 256" "b < 256" "c < 256" "d < 256"
  shows "unat (push_bit 24 (of_nat a) + push_bit 16 (of_nat b) + push_bit 8 (of_nat c) + of_nat d :: u32)
    = a * 2 ^ 24 + b * 2 ^ 16 + c * 2 ^ 8 + d"
proof -
  have "push_bit 24 (of_nat a) + push_bit 16 (of_nat b) + push_bit 8 (of_nat c) + of_nat d
      = (of_nat (a * 2 ^ 24 + b * 2 ^ 16 + c * 2 ^ 8 + d) :: u32)"
    by (simp add: push_bit_eq_mult)
  moreover have "a * 2 ^ 24 + b * 2 ^ 16 + c * 2 ^ 8 + d < 2 ^ 32"
    using assms by simp
  ultimately show ?thesis
    by (simp only: unat_of_nat) simp
qed


lemma BE_IPV4_ADDR_bytes:
  assumes "a < 256" "b < 256" "c < 256" "d < 256"
  shows "mem_bytes32 (BE_IPV4_ADDR (of_nat a) (of_nat b) (of_nat c) (of_nat d))
    = [of_nat a, of_nat b, of_nat c, of_nat d]"
proof -
  let ?w = "push_bit 24 (of_nat a) + push_bit 16 (of_nat b) + push_bit 8 (of_nat c) + of_nat d :: u32"
  have w: "unat ?w = a * 16777216 + b * 65536 + c * 256 + d"
    using unat_ipv4_word [OF assms] by simp
  have split: "a * 16777216 + b * 65536 + c * 256 + d = (a * 256 + b) * 65536 + (c * 256 + d)"
    "a * 16777216 + b * 65536 + c * 256 + d = (a * 65536 + b * 256 + c) * 256 + d"
    by simp_all
  have "(a * 16777216 + b * 65536 + c * 256 + d) div 65536 = a * 256 + b"
    unfolding split(1) using assms by (subst div_mult_self3) simp_all
  moreover have "(a * 16777216 + b * 65536 + c * 256 + d) div 256 = (a * 256 + b) * 256 + c"
    unfolding split(2) using assms by (subst div_mult_self3) simp_all
  moreover have "(a * 16777216 + b * 65536 + c * 256 + d) mod 256 = d"
    unfolding split(2) using assms by (subst mod_mult_self3) simp
  moreover have "(65536 * a + b * 256 + c) mod 256 = ((a * 256 + b) * 256 + c) mod 256"
    by simp
  then have "(65536 * a + b * 256 + c) mod 256 = c"
    using assms by (simp only: mod_mult_self3) simp
  ultimately have "unat (GET_BYTE ?w 3) = a" "unat (GET_BYTE ?w 2) = b" "unat (GET_BYTE ?w 1) = c"
      "unat (GET_BYTE ?w 0) = d"
    unfolding unat_GET_BYTE w using assms by simp_all
  then have "GET_BYTE ?w 3 = of_nat a" "GET_BYTE ?w 2 = of_nat b" "GET_BYTE ?w 1 = of_nat c" "GET_BYTE ?w 0 = of_nat d"
    by (simp_all add: unat_eq_of_nat)
  then show ?thesis
    by (simp add: mem_bytes32_def BE_IPV4_ADDR_def GET_BYTE_be32)
qed

section \<open>When the address parsers fail\<close>

lemma strchr_None: "strchr s c = None \<longleftrightarrow> c \<notin> set s"
proof -
  have "strchr s c = None \<longleftrightarrow> dropWhile (\<lambda>x. x \<noteq> c) s = []"
    by (auto simp: strchr_def simp del: dropWhile_eq_Nil_conv split: list.splits)
  then show ?thesis by (auto simp: dropWhile_eq_Nil_conv)
qed

lemma strchr_Some:
  "strchr s c = Some p \<Longrightarrow> \<exists>pre. s = pre @ p \<and> c \<notin> set pre \<and> p \<noteq> [] \<and> hd p = c"
proof -
  assume "strchr s c = Some p"
  then have p: "p = dropWhile (\<lambda>x. x \<noteq> c) s" "p \<noteq> []"
    by (auto simp: strchr_def split: list.splits)
  then have "hd p = c" using hd_dropWhile [of "\<lambda>x. x \<noteq> c" s] by auto
  moreover have "s = takeWhile (\<lambda>x. x \<noteq> c) s @ p" by (simp add: p)
  moreover have "c \<notin> set (takeWhile (\<lambda>x. x \<noteq> c) s)" by (auto dest: set_takeWhileD)
  ultimately show ?thesis using p(2) by blast
qed

lemma count_strchr_Some: "strchr s c = Some p \<Longrightarrow> count_list s c = Suc (count_list (tl p) c)"
  by (drule strchr_Some) (auto simp: neq_Nil_conv)

lemma ipv4_parts_None: "ipv4_parts n s = None \<longleftrightarrow> count_list s (CHR ''.'') < n"
proof (induction n arbitrary: s)
  case (Suc n)
  show ?case
  proof (cases "strchr s (CHR ''.'')")
    case None
    then have "CHR ''.'' \<notin> set s" by (simp add: strchr_None)
    with None show ?thesis by simp
  next
    case (Some p)
    then show ?thesis
      using Suc.IH [of "tl p"] by (auto simp: count_strchr_Some split: option.splits)
  qed
qed simp

lemma strtol_hex_base: "strtol s HEXADECIMAL_BASE = (0, None)"
  by (simp add: strtol_def HEXADECIMAL_BASE_def valid_base_def)

lemma mac_loop_zero:
  "i + n < length mac \<Longrightarrow> n \<le> count_list s (CHR '':'') \<Longrightarrow>
   mac_loop n i s mac = (DOCA_SUCCESS, take i mac @ replicate (Suc n) 0 @ drop (Suc (i + n)) mac)"
proof (induction n arbitrary: i s mac)
  case 0
  then show ?case by (simp add: strtol_hex_base upd_conv_take_nth_drop)
next
  case (Suc n)
  from Suc.prems obtain p where p: "strchr s (CHR '':'') = Some p"
    by (cases "strchr s (CHR '':'')") (auto simp: strchr_None)
  with Suc show ?case
    by (simp add: strtol_hex_base count_strchr_Some upd_conv_take_nth_drop min_def Suc_diff_le
        add.commute [of n])
qed

section \<open>Parsing dotted addresses\<close>

lemma parse_ipv4_dotted:
  assumes "a < 256" "b < 256" "c < 256" "d < 256"
  shows "\<exists>w. parse_ipv4_str (dotted a b c d) = Inr w
     \<and> mem_bytes32 w = [of_nat a, of_nat b, of_nat c, of_nat d]"
proof -
  have "CHR ''.'' \<in> set (dotted a b c d)" by (simp add: dotted_def)
  then have "dotted a b c d \<noteq> UINT32_CHANGEABLE_FIELD"
    by (auto simp: UINT32_CHANGEABLE_FIELD_def)
  moreover have "atoi (dec d) = of_nat d"
    using atoi_dec [of "[]" d] assms by simp
  ultimately show ?thesis
    using assms by (simp add: parse_ipv4_str_def ipv4_parts_dotted BE_IPV4_ADDR_bytes)
qed

section \<open>Properties\<close>

text \<open>C23. The dotted notation of an IPv4 address is parsed into the four bytes in network order:
  in memory the parsed \<^verbatim>\<open>doca_be32_t\<close> reads \<open>a\<close>, \<open>b\<close>, \<open>c\<close>, \<open>d\<close>.\<close>

theorem parse_ipv4_str_dotted:
  assumes "a < 256" "b < 256" "c < 256" "d < 256"
  shows "\<exists>w. parse_ipv4_str (dotted a b c d) = Inr w
     \<and> mem_bytes32 w = [of_nat a, of_nat b, of_nat c, of_nat d]"
  using parse_ipv4_dotted [OF assms] .

theorem parse_ipv4_str_dotted_witness:
  "\<exists>w. parse_ipv4_str (dotted 10 0 255 1) = Inr w \<and> mem_bytes32 w = [10, 0, 255, 1]"
  using parse_ipv4_str_dotted [of 10 0 255 1] by simp

text \<open>\<^verbatim>\<open>parse_ipv4_str\<close> rejects a string exactly when it is not the changeable marker and
  has fewer than three dots: nothing else about the four parts is checked, so parts that are out of
  range or no numbers are accepted.\<close>

theorem parse_ipv4_str_rejects:
  "(\<exists>e. parse_ipv4_str s = Inl e) \<longleftrightarrow>
     s \<noteq> UINT32_CHANGEABLE_FIELD \<and> count_list s (CHR ''.'') < 3"
  using ipv4_parts_None [of 3 s] by (auto simp: parse_ipv4_str_def split: option.splits)



end
