(* ===== verification/Flow_Fields.thy ===== *)
theory Flow_Fields
  imports Flow_Values
begin

text \<open>
  The field parsers of \<^verbatim>\<open>flow_parser.c\<close>, one per structure, and \<^verbatim>\<open>parse_struct\<close>, which runs one
  of them over a list \<^verbatim>\<open>field=value,field=value\<close>. A field parser returns its error code and the
  structure afterwards: what was written before an error stays.
\<close>

type_synonym 's fill_fun = "string \<Rightarrow> string \<Rightarrow> 's \<Rightarrow> (doca_error \<times> 's) option"

definition MAX_CMDLINE_INPUT_LEN :: nat where "MAX_CMDLINE_INPUT_LEN = 512"
definition MAX_FIELD_INPUT_LEN :: nat where "MAX_FIELD_INPUT_LEN = 128"

section \<open>Storing a parsed value\<close>

definition stored :: "'s \<Rightarrow> (doca_error \<times> 's) option" where
  "stored s = Some (DOCA_SUCCESS, s)"

definition store_result :: "doca_error + 'a \<Rightarrow> ('a \<Rightarrow> 's) \<Rightarrow> 's \<Rightarrow> (doca_error \<times> 's) option" where
  "store_result r f s = (case r of Inl e \<Rightarrow> Some (e, s) | Inr v \<Rightarrow> stored (f v))"

text \<open>\<^verbatim>\<open>strtol (value, NULL, 0)\<close> and with \<^verbatim>\<open>HEXADECIMAL_BASE\<close>, cut to the width of the field.\<close>

definition num :: "string \<Rightarrow> 'a::len word" where
  "num value = word_of_int (fst (strtol value 0))"

definition hexnum :: "string \<Rightarrow> 'a::len word" where
  "hexnum value = word_of_int (fst (strtol value HEXADECIMAL_BASE))"

definition fill_src_mac :: "string \<Rightarrow> ((doca_flow_header_format \<Rightarrow> doca_flow_header_format) \<Rightarrow> 's \<Rightarrow> 's)
    \<Rightarrow> doca_flow_header_format \<Rightarrow> 's \<Rightarrow> (doca_error \<times> 's) option" where
  "fill_src_mac value upd h s =
     (let (result, mac) = parse_mac_address value (src_mac (eth h))
      in Some (result, upd (eth_update (src_mac_update (\<lambda>_. mac))) s))"

definition fill_dst_mac :: "string \<Rightarrow> ((doca_flow_header_format \<Rightarrow> doca_flow_header_format) \<Rightarrow> 's \<Rightarrow> 's)
    \<Rightarrow> doca_flow_header_format \<Rightarrow> 's \<Rightarrow> (doca_error \<times> 's) option" where
  "fill_dst_mac value upd h s =
     (let (result, mac) = parse_mac_address value (dst_mac (eth h))
      in Some (result, upd (eth_update (dst_mac_update (\<lambda>_. mac))) s))"

definition fill_src_ip :: "string \<Rightarrow> ((doca_flow_header_format \<Rightarrow> doca_flow_header_format) \<Rightarrow> 's \<Rightarrow> 's)
    \<Rightarrow> doca_flow_header_format \<Rightarrow> 's \<Rightarrow> (doca_error \<times> 's) option" where
  "fill_src_ip value upd h s =
     (if l3_type h = DOCA_FLOW_L3_TYPE_IP4
      then store_result (parse_ipv4_str value) (\<lambda>w. upd (set_ip4_src_ip w) s) s
      else if l3_type h = DOCA_FLOW_L3_TYPE_IP6
      then do { ws \<leftarrow> parse_ipv6_str value; stored (upd (set_ip6_src_ip ws) s) }
      else Some (DOCA_ERROR_INVALID_VALUE, s))"

definition fill_dst_ip :: "string \<Rightarrow> ((doca_flow_header_format \<Rightarrow> doca_flow_header_format) \<Rightarrow> 's \<Rightarrow> 's)
    \<Rightarrow> doca_flow_header_format \<Rightarrow> 's \<Rightarrow> (doca_error \<times> 's) option" where
  "fill_dst_ip value upd h s =
     (if l3_type h = DOCA_FLOW_L3_TYPE_IP4
      then store_result (parse_ipv4_str value) (\<lambda>w. upd (set_ip4_dst_ip w) s) s
      else if l3_type h = DOCA_FLOW_L3_TYPE_IP6
      then do { ws \<leftarrow> parse_ipv6_str value; stored (upd (set_ip6_dst_ip ws) s) }
      else Some (DOCA_ERROR_INVALID_VALUE, s))"

section \<open>Monitor and forward\<close>

definition parse_monitor_field :: "doca_flow_monitor fill_fun" where
  "parse_monitor_field field_name value monitor =
     (if field_name = ''flags'' then
        let flags = num value :: u8;
            monitor = (if flags AND 2 \<noteq> 0
              then monitor\<lparr>meter_type := DOCA_FLOW_RESOURCE_TYPE_NON_SHARED\<rparr> else monitor);
            monitor = (if flags AND 4 \<noteq> 0
              then monitor\<lparr>counter_type := DOCA_FLOW_RESOURCE_TYPE_NON_SHARED\<rparr> else monitor)
        in stored monitor
      else if field_name = ''cir'' then stored (monitor\<lparr>cir := fst (strtoull value 0)\<rparr>)
      else if field_name = ''cbs'' then stored (monitor\<lparr>cbs := fst (strtoull value 0)\<rparr>)
      else if field_name = ''aging_sec'' then stored (monitor\<lparr>aging_sec := num value\<rparr>)
      else Some (DOCA_ERROR_INVALID_VALUE, monitor))"

text \<open>The structure, the next pipe id and the queue heap: what a forward field can change.\<close>

record fwd_state =
  fs_fwd :: doca_flow_fwd
  fs_next_pipe_id :: u64
  fs_heap :: rss_heap

definition parse_fwd_field :: "(nat \<Rightarrow> bool) \<Rightarrow> fwd_state fill_fun" where
  "parse_fwd_field malloc_ok field_name value s =
     (if field_name = ''type'' then
        store_result (parse_fwd_type value) (\<lambda>t. fs_fwd_update (fwd_type_update (\<lambda>_. t)) s) s
      else if field_name = ''rss_outer_flags'' then
        stored (fs_fwd_update (rss_outer_flags_update (\<lambda>_. num value)) s)
      else if field_name = ''rss_inner_flags'' then
        stored (fs_fwd_update (rss_inner_flags_update (\<lambda>_. num value)) s)
      else if field_name = ''rss_queues'' then
        do { (result, h) \<leftarrow> parse_rss_queues malloc_ok value (num_of_queues (fs_fwd s)) (fs_heap s);
             let s = s\<lparr>fs_heap := h\<rparr> in
             if result \<noteq> DOCA_SUCCESS then Some (result, s)
             else stored (fs_fwd_update (fwd_rss_queues_update (\<lambda>_. rss_queues h)) s) }
      else if field_name = ''num_of_queues'' then
        stored (fs_fwd_update (num_of_queues_update (\<lambda>_. sint (num value :: u32))) s)
      else if field_name = ''port_id'' then stored (fs_fwd_update (set_fwd_port_id (num value)) s)
      else if field_name = ''next_pipe_id'' then stored (s\<lparr>fs_next_pipe_id := fst (strtoull value 0)\<rparr>)
      else Some (DOCA_ERROR_INVALID_VALUE, s))"

text \<open>\<^verbatim>\<open>parse_fwd_miss_field\<close>: the state holds the miss structure and \<^verbatim>\<open>fwd_miss_next_pipe_id\<close>.\<close>

definition parse_fwd_miss_field :: "(nat \<Rightarrow> bool) \<Rightarrow> fwd_state fill_fun" where
  "parse_fwd_miss_field malloc_ok field_name value s =
     (if field_name = ''type'' then
        store_result (parse_fwd_type value) (\<lambda>t. fs_fwd_update (fwd_type_update (\<lambda>_. t)) s) s
      else if field_name = ''rss_outer_flags'' then
        stored (fs_fwd_update (rss_outer_flags_update (\<lambda>_. num value)) s)
      else if field_name = ''rss_inner_flags'' then
        stored (fs_fwd_update (rss_inner_flags_update (\<lambda>_. num value)) s)
      else if field_name = ''rss_queues'' then
        do { (result, h) \<leftarrow> parse_rss_queues malloc_ok value (num_of_queues (fs_fwd s)) (fs_heap s);
             let s = s\<lparr>fs_heap := h\<rparr> in
             if result \<noteq> DOCA_SUCCESS then Some (result, s)
             else stored (fs_fwd_update (fwd_rss_queues_update (\<lambda>_. rss_queues h)) s) }
      else if field_name = ''num_of_queues'' then
        stored (fs_fwd_update (num_of_queues_update (\<lambda>_. sint (num value :: u32))) s)
      else if field_name = ''port_id'' then stored (fs_fwd_update (set_fwd_port_id (num value)) s)
      else if field_name = ''next_pipe_id'' then stored (s\<lparr>fs_next_pipe_id := fst (strtoull value 0)\<rparr>)
      else Some (DOCA_ERROR_INVALID_VALUE, s))"

section \<open>Actions\<close>

definition parse_actions_field :: "doca_flow_actions fill_fun" where
  "parse_actions_field field_name value action =
     (if field_name = ''outer.eth.src_mac'' then
        fill_src_mac value act_outer_update (act_outer action) action
      else if field_name = ''outer.eth.dst_mac'' then
        fill_dst_mac value act_outer_update (act_outer action) action
      else if field_name = ''outer.l3_type'' then
        store_result (parse_ip_type value) (\<lambda>t. act_outer_update (l3_type_update (\<lambda>_. t)) action) action
      else if field_name = ''outer.src_ip_addr'' then
        fill_src_ip value act_outer_update (act_outer action) action
      else if field_name = ''outer.dst_ip_addr'' then
        fill_dst_ip value act_outer_update (act_outer action) action
      else if field_name = ''outer.l4_type_ext'' then
        store_result (parse_protocol_string value)
          (\<lambda>t. act_outer_update (l4_type_ext_update (\<lambda>_. t)) action) action
      else if field_name = ''outer.tcp_src_port'' then
        stored (act_outer_update (l4_src_port_update (\<lambda>_. num value)) action)
      else if field_name = ''outer.tcp_dst_port'' then
        stored (act_outer_update (l4_dst_port_update (\<lambda>_. num value)) action)
      else if field_name = ''outer.udp_src_port'' then
        stored (act_outer_update (l4_src_port_update (\<lambda>_. num value)) action)
      else if field_name = ''outer.udp_dst_port'' then
        stored (act_outer_update (l4_dst_port_update (\<lambda>_. num value)) action)
      else if field_name = ''outer.ip4.ttl'' then
        stored (act_outer_update (set_ip4_ttl (num value)) action)
      else if field_name = ''encap_src_mac'' then
        fill_src_mac value encap_outer_update (encap_outer action) action
      else if field_name = ''encap_dst_mac'' then
        fill_dst_mac value encap_outer_update (encap_outer action) action
      else if field_name = ''encap_src_ip_type'' then
        store_result (parse_ip_type value) (\<lambda>t. encap_outer_update (l3_type_update (\<lambda>_. t)) action) action
      else if field_name = ''encap_src_ip_addr'' then
        fill_src_ip value encap_outer_update (encap_outer action) action
      else if field_name = ''encap_dst_ip_type'' then
        store_result (parse_ip_type value) (\<lambda>t. encap_outer_update (l3_type_update (\<lambda>_. t)) action) action
      else if field_name = ''encap_dst_ip_addr'' then
        fill_dst_ip value encap_outer_update (encap_outer action) action
      else if field_name = ''encap_tun_type'' then
        store_result (parse_tun_type_string value)
          (\<lambda>t. encap_tun_update (tun_type_update (\<lambda>_. t)) action) action
      else if field_name = ''encap_vxlan_tun_id'' then
        stored (encap_tun_update (vxlan_tun_id_update (\<lambda>_. num value)) action)
      else if field_name = ''encap_gre_key'' then
        stored (encap_tun_update (gre_key_update (\<lambda>_. num value)) action)
      else if field_name = ''encap_gtp_teid'' then
        stored (encap_tun_update (gtp_teid_update (\<lambda>_. num value)) action)
      else Some (DOCA_ERROR_INVALID_VALUE, action))"

section \<open>Match\<close>

text \<open>The ports of the inner header are stored where the code stores them: in the outer one.\<close>

definition parse_match_field :: "doca_flow_match fill_fun" where
  "parse_match_field field_name value match =
     (if field_name = ''flags'' then stored (match\<lparr>match_flags := hexnum value\<rparr>)
      else if field_name = ''port_meta'' then stored (match\<lparr>port_meta := num value\<rparr>)
      else if field_name = ''outer.eth.src_mac'' then
        fill_src_mac value outer_update (outer match) match
      else if field_name = ''outer.eth.dst_mac'' then
        fill_dst_mac value outer_update (outer match) match
      else if field_name = ''outer.eth.type'' then
        stored (outer_update (eth_update (eth_type_update (\<lambda>_. hexnum value))) match)
      else if field_name = ''outer.eth_vlan[0].tci'' then
        stored (outer_update (eth_vlan_tci_update (\<lambda>l. l[0 := num value])) match)
      else if field_name = ''outer.eth_vlan[1].tci'' then
        stored (outer_update (eth_vlan_tci_update (\<lambda>l. l[1 := num value])) match)
      else if field_name = ''outer.l3_type'' then
        store_result (parse_l3_type value) (\<lambda>t. outer_update (l3_type_update (\<lambda>_. t)) match) match
      else if field_name = ''outer.src_ip_addr'' then
        fill_src_ip value outer_update (outer match) match
      else if field_name = ''outer.dst_ip_addr'' then
        fill_dst_ip value outer_update (outer match) match
      else if field_name = ''outer.l4_type_ext'' then
        store_result (parse_protocol_string value)
          (\<lambda>t. outer_update (l4_type_ext_update (\<lambda>_. t)) match) match
      else if field_name = ''outer.tcp.flags'' then
        store_result (parse_tcp_flag_string value)
          (\<lambda>t. outer_update (tcp_flags_update (\<lambda>_. t)) match) match
      else if field_name = ''outer.tcp_src_port'' then
        stored (outer_update (l4_src_port_update (\<lambda>_. be16 (num value))) match)
      else if field_name = ''outer.tcp_dst_port'' then
        stored (outer_update (l4_dst_port_update (\<lambda>_. be16 (num value))) match)
      else if field_name = ''outer.udp_src_port'' then
        stored (outer_update (l4_src_port_update (\<lambda>_. be16 (num value))) match)
      else if field_name = ''outer.udp_dst_port'' then
        stored (outer_update (l4_dst_port_update (\<lambda>_. be16 (num value))) match)
      else if field_name = ''tun_type'' then
        store_result (parse_tun_type_string value)
          (\<lambda>t. tun_update (tun_type_update (\<lambda>_. t)) match) match
      else if field_name = ''vxlan_tun_id'' then
        stored (tun_update (vxlan_tun_id_update (\<lambda>_. num value)) match)
      else if field_name = ''gre_key'' then
        stored (tun_update (gre_key_update (\<lambda>_. num value)) match)
      else if field_name = ''gtp_teid'' then
        stored (tun_update (gtp_teid_update (\<lambda>_. num value)) match)
      else if field_name = ''inner.eth.src_mac'' then
        fill_src_mac value inner_update (inner match) match
      else if field_name = ''inner.eth.dst_mac'' then
        fill_dst_mac value inner_update (inner match) match
      else if field_name = ''inner.eth.type'' then
        stored (inner_update (eth_update (eth_type_update (\<lambda>_. hexnum value))) match)
      else if field_name = ''inner.eth_vlan[0].tci'' then
        stored (inner_update (eth_vlan_tci_update (\<lambda>l. l[0 := num value])) match)
      else if field_name = ''inner.eth_vlan[1].tci'' then
        stored (inner_update (eth_vlan_tci_update (\<lambda>l. l[1 := num value])) match)
      else if field_name = ''inner.l3_type'' then
        store_result (parse_l3_type value) (\<lambda>t. inner_update (l3_type_update (\<lambda>_. t)) match) match
      else if field_name = ''inner.src_ip_addr'' then
        fill_src_ip value inner_update (inner match) match
      else if field_name = ''inner.dst_ip_addr'' then
        fill_dst_ip value inner_update (inner match) match
      else if field_name = ''inner.l4_type_ext'' then
        store_result (parse_protocol_string value)
          (\<lambda>t. inner_update (l4_type_ext_update (\<lambda>_. t)) match) match
      else if field_name = ''inner.tcp.flags'' then
        store_result (parse_tcp_flag_string value)
          (\<lambda>t. inner_update (tcp_flags_update (\<lambda>_. t)) match) match
      else if field_name = ''inner.tcp_src_port'' then
        stored (outer_update (l4_src_port_update (\<lambda>_. be16 (num value))) match)
      else if field_name = ''inner.tcp_dst_port'' then
        stored (outer_update (l4_dst_port_update (\<lambda>_. be16 (num value))) match)
      else if field_name = ''inner.udp_src_port'' then
        stored (outer_update (l4_src_port_update (\<lambda>_. be16 (num value))) match)
      else if field_name = ''inner.udp_dst_port'' then
        stored (outer_update (l4_dst_port_update (\<lambda>_. be16 (num value))) match)
      else Some (DOCA_ERROR_INVALID_VALUE, match))"

definition parse_fw_match_field :: "doca_flow_match fill_fun" where
  "parse_fw_match_field field_name value match =
     (let match = outer_update (l3_type_update (\<lambda>_. DOCA_FLOW_L3_TYPE_IP4)) match in
      if field_name = ''outer.src_ip_addr'' then
        store_result (parse_ipv4_str value) (\<lambda>w. outer_update (set_ip4_src_ip w) match) match
      else if field_name = ''outer.dst_ip_addr'' then
        store_result (parse_ipv4_str value) (\<lambda>w. outer_update (set_ip4_dst_ip w) match) match
      else if field_name = ''outer.l4_type_ext'' then
        store_result (parse_protocol_string value)
          (\<lambda>t. outer_update (l4_type_ext_update (\<lambda>_. t)) match) match
      else if field_name = ''outer.tcp_src_port'' then
        stored (outer_update (l4_src_port_update (\<lambda>_. be16 (num value))) match)
      else if field_name = ''outer.tcp_dst_port'' then
        stored (outer_update (l4_dst_port_update (\<lambda>_. be16 (num value))) match)
      else if field_name = ''outer.udp_src_port'' then
        stored (outer_update (l4_src_port_update (\<lambda>_. be16 (num value))) match)
      else if field_name = ''outer.udp_dst_port'' then
        stored (outer_update (l4_dst_port_update (\<lambda>_. be16 (num value))) match)
      else Some (DOCA_ERROR_INVALID_VALUE, match))"

section \<open>parse_struct\<close>

text \<open>
  One round of the loop up to the call of \<^verbatim>\<open>fill_struct\<close>: the field name, the value and the text
  from the character that ends the value on. \<^verbatim>\<open>ptr\<close>, \<^verbatim>\<open>field_name\<close> and \<^verbatim>\<open>value\<close> are bounded
  arrays; stepping over the end of the input is \<open>None\<close>.
\<close>

definition struct_item :: "string \<Rightarrow> (doca_error + string \<times> string \<times> string) option" where
  "struct_item struct_str =
     (case strtok (strlcpy_str struct_str MAX_CMDLINE_INPUT_LEN) (CHR ''='') of
        None \<Rightarrow> Some (Inl DOCA_ERROR_INVALID_VALUE)
      | Some tmp \<Rightarrow>
          let field_name = strlcpy_str tmp MAX_FIELD_INPUT_LEN in
          do { struct_str \<leftarrow> ptr_add struct_str (length field_name + 1);
               case strtok (strlcpy_str struct_str MAX_CMDLINE_INPUT_LEN) (CHR '','') of
                 None \<Rightarrow> Some (Inl DOCA_ERROR_INVALID_VALUE)
               | Some tmp \<Rightarrow>
                   let value = strlcpy_str tmp MAX_FIELD_INPUT_LEN in
                   do { struct_str \<leftarrow> ptr_add struct_str (length value);
                        Some (Inr (field_name, value, struct_str)) } })"

lemma struct_item_shorter:
  "struct_item str = Some (Inr (f, v, rest)) \<Longrightarrow> length rest < length str"
  by (auto simp: struct_item_def ptr_add_def Let_def split: option.splits if_splits)

function parse_struct :: "'s fill_fun \<Rightarrow> string \<Rightarrow> 's \<Rightarrow> (doca_error \<times> 's) option" where
  "parse_struct fill_struct struct_str s =
     (case struct_item struct_str of
        None \<Rightarrow> None
      | Some (Inl e) \<Rightarrow> Some (e, s)
      | Some (Inr (field_name, value, rest)) \<Rightarrow>
          (case fill_struct field_name value s of
             None \<Rightarrow> None
           | Some (result, s) \<Rightarrow>
               if result \<noteq> DOCA_SUCCESS then Some (result, s)
               else if rest \<noteq> [] \<and> hd rest = CHR '','' then parse_struct fill_struct (tl rest) s
               else Some (DOCA_SUCCESS, s)))"
  by pat_completeness auto
termination
  by (relation "measure (\<lambda>(_, str, _). length str)") (auto dest: struct_item_shorter)

declare parse_struct.simps [simp del]

section \<open>The contract of a field parser\<close>

text \<open>A field parser keeps an invariant of its structure whatever it is given, errors included.\<close>

locale field_parser =
  fixes fill :: "'s fill_fun"
    and inv :: "'s \<Rightarrow> bool"
  assumes fill_inv: "inv s \<Longrightarrow> fill f v s = Some (e, s') \<Longrightarrow> inv s'"
begin

lemma parse_struct_inv:
  "inv s \<Longrightarrow> parse_struct fill str s = Some (e, s') \<Longrightarrow> inv s'"
proof (induction "length str" arbitrary: str s rule: less_induct)
  case less
  note [simp] = parse_struct.simps [of fill str s]
  from less.prems(2) consider "s' = s"
    | f v rest e1 s1 where "struct_item str = Some (Inr (f, v, rest))" "fill f v s = Some (e1, s1)"
        "s' = s1 \<or> rest \<noteq> [] \<and> parse_struct fill (tl rest) s1 = Some (e, s')"
    by (auto split: option.splits sum.splits if_splits)
  then show ?case
  proof cases
    case 2
    have "inv s1" using fill_inv [OF less.prems(1) 2(2)] .
    moreover have "length (tl rest) < length str" using struct_item_shorter [OF 2(1)] by simp
    ultimately show ?thesis using 2(3) less.hyps by blast
  qed (use less.prems in simp)
qed

end

definition wf_match :: "doca_flow_match \<Rightarrow> bool" where
  "wf_match m \<longleftrightarrow> wf_header (outer m) \<and> wf_header (inner m)"

definition wf_actions :: "doca_flow_actions \<Rightarrow> bool" where
  "wf_actions a \<longleftrightarrow> wf_header (act_outer a) \<and> wf_header (encap_outer a)"

text \<open>The live queue array is the one the global points to: nothing leaks and it does not dangle.\<close>

definition wf_heap :: "rss_heap \<Rightarrow> bool" where
  "wf_heap h \<longleftrightarrow> dom (arrays h) = (if rss_queues h = 0 then {} else {rss_queues h})
     \<and> rss_queues h \<le> allocs h"

text \<open>The forward that was filled last points to the live array or to nothing.\<close>

definition wf_fwd_state :: "fwd_state \<Rightarrow> bool" where
  "wf_fwd_state s \<longleftrightarrow> wf_heap (fs_heap s)"

named_theorems wf_simps

lemma length_mac_loop: "length (snd (mac_loop n i str mac)) = length mac"
  by (induction n i str mac rule: mac_loop.induct) (auto simp: Let_def split: option.splits)

lemma length_parse_mac: "parse_mac_address str mac = (e, mac') \<Longrightarrow> length mac' = length mac"
  using length_mac_loop by (metis parse_mac_address_def snd_conv)

lemma parse_ipv6_str_None [simp]: "parse_ipv6_str str = None"
  by (simp add: parse_ipv6_str_def IP_ADDR_LEN_def numeral_eq_Suc ipv6_half_def strtol_hex_base)

lemma wf_header_updates [wf_simps]:
  "wf_header h \<Longrightarrow> wf_header (set_ip4_src_ip w h)"
  "wf_header h \<Longrightarrow> wf_header (set_ip4_dst_ip w h)"
  "wf_header h \<Longrightarrow> wf_header (set_ip4_ttl t h)"
  "wf_header h \<Longrightarrow> wf_header (l3_type_update f1 h)"
  "wf_header h \<Longrightarrow> wf_header (l4_type_ext_update f2 h)"
  "wf_header h \<Longrightarrow> wf_header (l4_src_port_update f3 h)"
  "wf_header h \<Longrightarrow> wf_header (l4_dst_port_update f3 h)"
  "wf_header h \<Longrightarrow> wf_header (tcp_flags_update f4 h)"
  "wf_header h \<Longrightarrow> wf_header (eth_update (eth_type_update f3) h)"
  "wf_header h \<Longrightarrow> length m = 6 \<Longrightarrow> wf_header (eth_update (src_mac_update (\<lambda>_. m)) h)"
  "wf_header h \<Longrightarrow> length m = 6 \<Longrightarrow> wf_header (eth_update (dst_mac_update (\<lambda>_. m)) h)"
  "wf_header h \<Longrightarrow> wf_header (eth_vlan_tci_update (\<lambda>l. l[i := t']) h)"
  by (auto simp: wf_header_def set_ip4_src_ip_def set_ip4_dst_ip_def set_ip4_ttl_def)

text \<open>Every helper applies some update of one header that keeps it well-formed.\<close>

lemma fill_helpers_upd:
  assumes "wf_header h"
  shows "fill_src_mac v upd h s = Some (e, s') \<Longrightarrow> \<exists>m. length m = 6 \<and> s' = upd (eth_update (src_mac_update (\<lambda>_. m))) s"
    and "fill_dst_mac v upd h s = Some (e, s') \<Longrightarrow> \<exists>m. length m = 6 \<and> s' = upd (eth_update (dst_mac_update (\<lambda>_. m))) s"
    and "fill_src_ip v upd h s = Some (e, s') \<Longrightarrow> s' = s \<or> (\<exists>w. s' = upd (set_ip4_src_ip w) s)"
    and "fill_dst_ip v upd h s = Some (e, s') \<Longrightarrow> s' = s \<or> (\<exists>w. s' = upd (set_ip4_dst_ip w) s)"
  using assms
  by (auto simp: fill_src_mac_def fill_dst_mac_def fill_src_ip_def fill_dst_ip_def store_result_def
      stored_def wf_header_def split: prod.splits if_splits sum.splits dest!: length_parse_mac)

lemma store_result_cases:
  "store_result r f s = Some (e, s') \<Longrightarrow> s' = s \<or> (\<exists>v. s' = f v)"
  by (auto simp: store_result_def stored_def split: sum.splits)

lemma stored_eq [simp]: "stored s = Some (e, s') \<longleftrightarrow> e = DOCA_SUCCESS \<and> s' = s"
  by (auto simp: stored_def)

lemma parse_match_field_wf:
  assumes "wf_match m" and "parse_match_field f v m = Some (e, m')"
  shows "wf_match m'"
proof -
  have h: "wf_header (outer m)" "wf_header (inner m)"
    using assms(1) by (auto simp: wf_match_def)
  from assms(2) h show ?thesis
    by (simp only: parse_match_field_def split: if_split_asm)
       (auto simp: wf_match_def wf_simps dest!: store_result_cases fill_helpers_upd [rotated])
qed

lemma parse_fw_match_field_wf:
  assumes "wf_match m" and "parse_fw_match_field f v m = Some (e, m')"
  shows "wf_match m'"
proof -
  have "wf_header (outer m)" "wf_header (inner m)"
    using assms(1) by (auto simp: wf_match_def)
  with assms(2) show ?thesis
    by (simp only: parse_fw_match_field_def Let_def split: if_split_asm)
       (auto simp: wf_match_def wf_simps dest!: store_result_cases)
qed

lemma parse_actions_field_wf:
  assumes "wf_actions a" and "parse_actions_field f v a = Some (e, a')"
  shows "wf_actions a'"
proof -
  have "wf_header (act_outer a)" "wf_header (encap_outer a)"
    using assms(1) by (auto simp: wf_actions_def)
  with assms(2) show ?thesis
    by (simp only: parse_actions_field_def split: if_split_asm)
       (auto simp: wf_actions_def wf_simps dest!: store_result_cases fill_helpers_upd [rotated])
qed

lemma upd_None_singleton: "dom m = {k} \<Longrightarrow> m(k := None) = (\<lambda>_. None)"
  by (auto simp: fun_eq_iff dom_def)

lemma parse_rss_queues_wf:
  assumes "wf_heap h" and "parse_rss_queues malloc_ok str n h = Some (e, h')"
  shows "wf_heap h'"
  using assms by (auto simp: parse_rss_queues_def wf_heap_def Let_def bind_eq_Some_conv
      upd_None_singleton split: if_splits)

lemma parse_fwd_field_wf:
  assumes "wf_heap (fs_heap s)" and "parse_fwd_field malloc_ok f v s = Some (e, s')"
  shows "wf_heap (fs_heap s')"
  using assms
  by (simp only: parse_fwd_field_def split: if_split_asm)
     (auto simp: bind_eq_Some_conv Let_def dest!: store_result_cases dest: parse_rss_queues_wf split: if_splits)

lemma parse_fwd_miss_field_eq: "parse_fwd_miss_field = parse_fwd_field"
  by (simp add: fun_eq_iff parse_fwd_miss_field_def parse_fwd_field_def)

interpretation match_field: field_parser parse_match_field wf_match
  by unfold_locales (rule parse_match_field_wf)

interpretation fw_match_field: field_parser parse_fw_match_field wf_match
  by unfold_locales (rule parse_fw_match_field_wf)

interpretation actions_field: field_parser parse_actions_field wf_actions
  by unfold_locales (rule parse_actions_field_wf)

interpretation fwd_field: field_parser "parse_fwd_field malloc_ok" "\<lambda>s. wf_heap (fs_heap s)" for malloc_ok
  by unfold_locales (rule parse_fwd_field_wf)

interpretation fwd_miss_field: field_parser "parse_fwd_miss_field malloc_ok" "\<lambda>s. wf_heap (fs_heap s)"
  for malloc_ok
  by unfold_locales (unfold parse_fwd_miss_field_eq, rule parse_fwd_field_wf)

section \<open>The notation of a structure\<close>

fun fields_str :: "(string \<times> string) list \<Rightarrow> string" where
  "fields_str [] = []"
| "fields_str [(f, v)] = f @ ''='' @ v"
| "fields_str ((f, v) # p # ps) = f @ ''='' @ v @ '','' @ fields_str (p # ps)"

fun fill_all :: "'s fill_fun \<Rightarrow> (string \<times> string) list \<Rightarrow> 's \<Rightarrow> (doca_error \<times> 's) option" where
  "fill_all fill [] s = Some (DOCA_SUCCESS, s)"
| "fill_all fill ((f, v) # ps) s =
     (case fill f v s of
        None \<Rightarrow> None
      | Some (result, s) \<Rightarrow> if result \<noteq> DOCA_SUCCESS then Some (result, s) else fill_all fill ps s)"

definition wf_field :: "string \<times> string \<Rightarrow> bool" where
  "wf_field p \<longleftrightarrow> (let (f, v) = p in
     f \<noteq> [] \<and> CHR ''='' \<notin> set f \<and> length f < MAX_FIELD_INPUT_LEN
     \<and> v \<noteq> [] \<and> CHR '','' \<notin> set v \<and> length v < MAX_FIELD_INPUT_LEN)"

lemma strtok_take:
  assumes "t \<noteq> []" and "d \<notin> set t" and "length t < n" and "r = [] \<or> hd r = d"
  shows "strtok (take n (t @ r)) d = Some t"
proof -
  obtain c t' where t: "t = c # t'" "c \<noteq> d" using assms(1,2) by (cases t) auto
  have "takeWhile (\<lambda>c. c \<noteq> d) (t @ take (n - length t) r) = t"
    using assms by (cases r) (auto simp: take_Cons' takeWhile_append)
  moreover have "dropWhile (\<lambda>c. c = d) (take n (t @ r)) = t @ take (n - length t) r"
    using assms(3) t by (auto simp: take_Cons')
  ultimately show ?thesis
    using t by (simp add: strtok_def Let_def)
qed

lemma struct_item_wf:
  assumes "wf_field (f, v)" and "r = [] \<or> hd r = CHR '',''"
  shows "struct_item (f @ CHR ''='' # v @ r) = Some (Inr (f, v, r))"
  using assms strtok_take [of f "CHR ''=''" 511 "CHR ''='' # v @ r"] strtok_take [of v "CHR '',''" 511 r]
  by (simp add: struct_item_def strlcpy_str_def wf_field_def ptr_add_def MAX_CMDLINE_INPUT_LEN_def
      MAX_FIELD_INPUT_LEN_def Let_def)

lemma fields_str_Cons:
  "fields_str ((f, v) # ps) = f @ CHR ''='' # v @ (if ps = [] then [] else CHR '','' # fields_str ps)"
  by (cases ps) auto

lemma parse_struct_fields_str:
  assumes "ps \<noteq> []" and "\<forall>p \<in> set ps. wf_field p"
  shows "parse_struct fill (fields_str ps) s = fill_all fill ps s"
  using assms
proof (induction ps arbitrary: s)
  case (Cons p ps)
  obtain f v where p: "p = (f, v)" by (cases p)
  have wf: "wf_field (f, v)" using Cons.prems p by simp
  show ?case
    using struct_item_wf [OF wf, of "[]"] struct_item_wf [OF wf, of "CHR '','' # fields_str ps"]
      Cons.IH Cons.prems(2)
    by (subst parse_struct.simps) (auto simp: p fields_str_Cons split: option.split)
qed simp

section \<open>Properties\<close>

text \<open>C19. \<^verbatim>\<open>parse_struct\<close> on the text \<^verbatim>\<open>f1=v1,f2=v2,...\<close> calls the field parser on exactly
  these fields in this order and stops at the first that fails; names and values shorter than 128
  characters, without the character that ends them, come through unchanged.\<close>

theorem parse_struct_fields:
  assumes "ps \<noteq> []" and "\<forall>p \<in> set ps. wf_field p"
  shows "parse_struct fill (fields_str ps) s = fill_all fill ps s"
  using assms by (rule parse_struct_fields_str)

theorem parse_struct_fields_witness:
  "parse_struct parse_monitor_field (fields_str [(''cir'', ''100''), (''aging_sec'', ''5'')]) zero_monitor
     = fill_all parse_monitor_field [(''cir'', ''100''), (''aging_sec'', ''5'')] zero_monitor
   \<and> fields_str [(''cir'', ''100''), (''aging_sec'', ''5'')] = ''cir=100,aging_sec=5''"
  using parse_struct_fields [of "[(''cir'', ''100''), (''aging_sec'', ''5'')]" parse_monitor_field zero_monitor]
  by (simp add: wf_field_def MAX_FIELD_INPUT_LEN_def)



definition fw_fields :: "string list" where
  "fw_fields = [''outer.src_ip_addr'', ''outer.dst_ip_addr'', ''outer.l4_type_ext'', ''outer.tcp_src_port'',
     ''outer.tcp_dst_port'', ''outer.udp_src_port'', ''outer.udp_dst_port'']"

text \<open>C21. The match parser of the firewall subset is the full match parser on IPv4: on the seven
  fields it knows it does what the full parser does on a match whose outer type is IPv4, and it
  rejects every other field.\<close>

theorem parse_fw_match_field_equiv:
  "parse_fw_match_field f v m =
     (let m = outer_update (l3_type_update (\<lambda>_. DOCA_FLOW_L3_TYPE_IP4)) m in
      if f \<in> set fw_fields then parse_match_field f v m else Some (DOCA_ERROR_INVALID_VALUE, m))"
proof (cases "f \<in> set fw_fields")
  case True
  then show ?thesis
    unfolding fw_fields_def set_simps insert_iff empty_iff
    by (elim disjE FalseE;
        simp add: parse_fw_match_field_def parse_match_field_def fill_src_ip_def fill_dst_ip_def)
qed (simp add: fw_fields_def parse_fw_match_field_def)

text \<open>The fields \<^verbatim>\<open>inner.tcp_src_port\<close>, \<^verbatim>\<open>inner.tcp_dst_port\<close>, \<^verbatim>\<open>inner.udp_src_port\<close> and
  \<^verbatim>\<open>inner.udp_dst_port\<close> of a match are parsed into the outer header: they have the effect of the
  outer field of the same name, and the inner header stays as it was.\<close>

theorem inner_ports_go_outer:
  assumes "x \<in> set [''tcp_src_port'', ''tcp_dst_port'', ''udp_src_port'', ''udp_dst_port'']"
  shows "parse_match_field (''inner.'' @ x) v m = parse_match_field (''outer.'' @ x) v m
    \<and> (\<exists>m'. parse_match_field (''inner.'' @ x) v m = Some (DOCA_SUCCESS, m') \<and> inner m' = inner m)"
  using assms by (auto simp: parse_match_field_def stored_def)

theorem inner_ports_go_outer_witness:
  "parse_match_field ''inner.tcp_src_port'' ''80'' zero_match = parse_match_field ''outer.tcp_src_port'' ''80'' zero_match"
  using inner_ports_go_outer [of "''tcp_src_port''" "''80''" zero_match] by simp

end
