(* ===== verification/Flow_Params.thy ===== *)
theory Flow_Params
  imports Flow_Fields
begin

text \<open>
  The parameter parsers of \<^verbatim>\<open>flow_parser.c\<close>: \<^verbatim>\<open>name=value,name=value\<close> after a command. Most of
  them let \<^verbatim>\<open>strtol (ptr, &params_str, 0)\<close> move the cursor from the caller's text into their own
  array \<^verbatim>\<open>ptr\<close> and later copy the text at the cursor to the start of that array. A cursor
  therefore is the text from it on together with its offset in \<^verbatim>\<open>ptr\<close>, when it points there; a
  copy whose source and destination overlap is undefined (\<open>None\<close>), as \<^verbatim>\<open>strlcpy\<close> copies with
  \<^verbatim>\<open>memcpy\<close>.
\<close>

section \<open>Cursors\<close>

type_synonym cur = "string \<times> nat option"

definition cur_add :: "cur \<Rightarrow> nat \<Rightarrow> cur option" where
  "cur_add c n = (if n \<le> length (fst c) then Some (drop n (fst c), map_option (\<lambda>k. k + n) (snd c)) else None)"

text \<open>
  \<^verbatim>\<open>strlcpy (ptr, params_str, size)\<close>: the string now in \<^verbatim>\<open>ptr\<close> and the cursor. The terminator may
  fall on the character the cursor points to.
\<close>

definition copy_to_ptr :: "cur \<Rightarrow> nat \<Rightarrow> (string \<times> cur) option" where
  "copy_to_ptr c sz =
     (let n = min (length (fst c)) (sz - 1) in
      case snd c of
        None \<Rightarrow> Some (take n (fst c), c)
      | Some k \<Rightarrow> if k < n then None
                  else Some (take n (fst c), if k = n then ([], Some k) else c))"

text \<open>The cursor that \<^verbatim>\<open>strtol (ptr, &params_str, 0)\<close> leaves: it points into \<^verbatim>\<open>ptr\<close>.\<close>

definition cur_in_ptr :: "string \<Rightarrow> string option \<Rightarrow> cur \<Rightarrow> cur" where
  "cur_in_ptr ptr endp c = (case endp of None \<Rightarrow> c | Some rest \<Rightarrow> (rest, Some (length ptr - length rest)))"

definition NAME_STR_LEN :: nat where "NAME_STR_LEN = 5"
definition FWD_STR_LEN :: nat where "FWD_STR_LEN = 4"
definition MISS_FWD_STR_LEN :: nat where "MISS_FWD_STR_LEN = 9"
definition MATCH_MASK_STR_LEN :: nat where "MATCH_MASK_STR_LEN = 11"
definition MONITOR_STR_LEN :: nat where "MONITOR_STR_LEN = 8"
definition ROOT_ENABLE_STR_LEN :: nat where "ROOT_ENABLE_STR_LEN = 12"
definition ENTRY_ID_STR_LEN :: nat where "ENTRY_ID_STR_LEN = 9"
definition PIPE_QUEUE_STR_LEN :: nat where "PIPE_QUEUE_STR_LEN = 11"
definition PRIORITY_STR_LEN :: nat where "PRIORITY_STR_LEN = 9"
definition FILE_STR_LEN :: nat where "FILE_STR_LEN = 5"
definition TYPE_STR_LEN :: nat where "TYPE_STR_LEN = 5"

lemmas str_len_defs = NAME_STR_LEN_def FWD_STR_LEN_def MISS_FWD_STR_LEN_def MATCH_MASK_STR_LEN_def
  MONITOR_STR_LEN_def ROOT_ENABLE_STR_LEN_def ENTRY_ID_STR_LEN_def PIPE_QUEUE_STR_LEN_def
  PRIORITY_STR_LEN_def FILE_STR_LEN_def TYPE_STR_LEN_def PIPE_ID_STR_LEN_def PORT_ID_STR_LEN_def

section \<open>Booleans\<close>

definition parse_bool_params_input :: "cur \<Rightarrow> nat \<Rightarrow> bool \<Rightarrow> (doca_error \<times> bool \<times> cur) option" where
  "parse_bool_params_input params_str param_str_len take_action =
     do { params_str \<leftarrow> cur_add params_str param_str_len;
          let (v, ptr) = strtol (fst params_str) 0;
              value = word_of_int v :: u32
          in if ptr = Some (fst params_str) then Some (DOCA_ERROR_INVALID_VALUE, take_action, params_str)
             else if value \<noteq> 1 \<and> value \<noteq> 0 then Some (DOCA_ERROR_BAD_STATE, take_action, params_str)
             else do { next \<leftarrow> cur_add params_str 1;
                       Some (DOCA_SUCCESS, if value = 1 then True else take_action, next) } }"

section \<open>The loop over the parameters\<close>

text \<open>
  \<^verbatim>\<open>do { ... tmp_char = params_str[0]; params_str++; } while (tmp_char == ',')\<close>: a round of the
  body ends with an error code (\<open>Inl\<close>) or with the cursor behind the parameter (\<open>Inr\<close>).
\<close>

type_synonym 's param_step = "cur \<Rightarrow> 's \<Rightarrow> ((doca_error \<times> 's) + (cur \<times> 's)) option"

partial_function (option) params_loop ::
    "'s param_step \<Rightarrow> cur \<Rightarrow> 's \<Rightarrow> ((doca_error \<times> 's) + 's) option" where
  "params_loop body c s =
     (case body c s of
        None \<Rightarrow> None
      | Some (Inl r) \<Rightarrow> Some (Inl r)
      | Some (Inr (c', s')) \<Rightarrow>
          if fst c' \<noteq> [] \<and> hd (fst c') = CHR '',''
          then params_loop body (tl (fst c'), map_option Suc (snd c')) s'
          else Some (Inr s'))"

declare params_loop.simps [code]

text \<open>The rounds that the loop makes, one after the other.\<close>

inductive rounds :: "'s param_step \<Rightarrow> cur \<Rightarrow> 's \<Rightarrow> cur \<Rightarrow> 's \<Rightarrow> bool" for body where
  first: "rounds body c s c s"
| another: "body c s = Some (Inr ((CHR '','' # r, l), s1)) \<Longrightarrow> rounds body (r, map_option Suc l) s1 c' s'
     \<Longrightarrow> rounds body c s c' s'"

section \<open>The contract of a loop body\<close>

text \<open>
  A body never moves the cursor back. Then the loop ends: it gives no result only when one of its
  rounds is undefined.
\<close>

locale param_body =
  fixes body :: "'s param_step"
  assumes moves_on: "body c s = Some (Inr (c', s')) \<Longrightarrow> length (fst c') \<le> length (fst c)"
begin

lemma loop_ends:
  "params_loop body c s = None \<Longrightarrow> \<exists>c' s'. rounds body c s c' s' \<and> body c' s' = None"
proof (induction "length (fst c)" arbitrary: c s rule: less_induct)
  case less
  show ?case
  proof (cases "body c s")
    case None
    then show ?thesis by (blast intro: rounds.first)
  next
    case (Some r)
    with less.prems obtain rest l s1 where step: "body c s = Some (Inr ((CHR '','' # rest, l), s1))"
      and rec: "params_loop body (rest, map_option Suc l) s1 = None"
      by (subst (asm) params_loop.simps) (auto split: sum.splits if_splits simp: neq_Nil_conv)
    have "length (fst (rest, map_option Suc l)) < length (fst c)"
      using moves_on [OF step] by simp
    from less.hyps [OF this rec] step show ?thesis by (blast intro: rounds.another)
  qed
qed

lemma loop_inv:
  assumes step: "\<And>c s c1 s1. Q s \<Longrightarrow> body c s = Some (Inr (c1, s1)) \<Longrightarrow> Q s1 \<and> P s1"
  shows "Q s \<Longrightarrow> params_loop body c s = Some (Inr s') \<Longrightarrow> Q s' \<and> P s'"
proof (induction "length (fst c)" arbitrary: c s rule: less_induct)
  case less
  from less.prems(2) obtain c1 s1 where b: "body c s = Some (Inr (c1, s1))"
    and r: "s' = s1 \<or> fst c1 \<noteq> [] \<and> params_loop body (tl (fst c1), map_option Suc (snd c1)) s1 = Some (Inr s')"
    by (subst (asm) params_loop.simps) (auto split: option.splits sum.splits if_splits)
  have "fst c1 \<noteq> [] \<Longrightarrow> length (fst (tl (fst c1), map_option Suc (snd c1))) < length (fst c)"
    using moves_on [OF b] by (cases "fst c1") auto
  with r step [OF less.prems(1) b] less.hyps show ?case by blast
qed

lemma loop_inv_err:
  assumes step: "\<And>c s c1 s1. Q s \<Longrightarrow> body c s = Some (Inr (c1, s1)) \<Longrightarrow> Q s1"
    and fail: "\<And>c s e s1. Q s \<Longrightarrow> body c s = Some (Inl (e, s1)) \<Longrightarrow> P s1"
  shows "Q s \<Longrightarrow> params_loop body c s = Some (Inl (e, s')) \<Longrightarrow> P s'"
proof (induction "length (fst c)" arbitrary: c s rule: less_induct)
  case less
  from less.prems(2) consider "body c s = Some (Inl (e, s'))"
    | c1 s1 where "body c s = Some (Inr (c1, s1))" "fst c1 \<noteq> []"
        "params_loop body (tl (fst c1), map_option Suc (snd c1)) s1 = Some (Inl (e, s'))"
    by (subst (asm) params_loop.simps) (auto split: option.splits sum.splits if_splits)
  then show ?case
  proof cases
    case 1
    then show ?thesis using fail less.prems(1) by blast
  next
    case 2
    have "length (fst (tl (fst c1), map_option Suc (snd c1))) < length (fst c)"
      using moves_on [OF 2(1)] 2(2) by (cases "fst c1") auto
    with 2 step [OF less.prems(1) 2(1)] less.hyps show ?thesis by blast
  qed
qed

end

section \<open>create pipe\<close>

text \<open>
  The setters of a pipe configuration are functions of the DOCA Flow library: each returns its
  error code and the configuration afterwards.
\<close>

record 'cfg pipe_cfg_api =
  cfg_create :: "doca_error + 'cfg"
  cfg_set_type :: "'cfg \<Rightarrow> doca_flow_pipe_type \<Rightarrow> doca_error \<times> 'cfg"
  cfg_set_name :: "'cfg \<Rightarrow> string option \<Rightarrow> doca_error \<times> 'cfg"
  cfg_set_is_root :: "'cfg \<Rightarrow> bool \<Rightarrow> doca_error \<times> 'cfg"
  cfg_set_monitor :: "'cfg \<Rightarrow> doca_flow_monitor \<Rightarrow> doca_error \<times> 'cfg"
  cfg_set_match :: "'cfg \<Rightarrow> doca_flow_match \<Rightarrow> doca_flow_match option \<Rightarrow> doca_error \<times> 'cfg"
  cfg_set_actions :: "'cfg \<Rightarrow> doca_flow_actions \<Rightarrow> doca_error \<times> 'cfg"

text \<open>
  The outputs and locals of \<^verbatim>\<open>parse_create_pipe_params\<close>; \<open>cp_type\<close> and \<open>cp_result\<close> are \<open>None\<close>
  while they are uninitialised.
\<close>

record 'cfg create_pipe =
  cp_cfg :: 'cfg
  cp_fwd :: bool
  cp_fwd_miss :: bool
  cp_match_mask :: bool
  cp_type :: "doca_flow_pipe_type option"
  cp_pipe_port_id :: u16
  cp_has_port_id :: bool
  cp_result :: "doca_error option"

text \<open>A boolean parameter: the error path returns, otherwise the continuation gets the flag.\<close>

definition bool_param :: "cur \<Rightarrow> nat \<Rightarrow> bool \<Rightarrow> (doca_error \<Rightarrow> doca_error \<times> 's)
    \<Rightarrow> (bool \<Rightarrow> (doca_error \<times> 's) + 's) \<Rightarrow> ((doca_error \<times> 's) + (cur \<times> 's)) option" where
  "bool_param c len take_action fail k =
     do { (result, flag, c) \<leftarrow> parse_bool_params_input c len take_action;
          if result \<noteq> DOCA_SUCCESS then Some (Inl (fail result))
          else case k flag of Inl r \<Rightarrow> Some (Inl r) | Inr s \<Rightarrow> Some (Inr (c, s)) }"

definition create_pipe_param ::
    "'cfg pipe_cfg_api \<Rightarrow> doca_flow_monitor \<Rightarrow> 'cfg create_pipe param_step" where
  "create_pipe_param api monitor c s =
     (if strncmp0 (fst c) ''port_id='' PORT_ID_STR_LEN then
        do { c \<leftarrow> cur_add c PORT_ID_STR_LEN;
             (ptr, c) \<leftarrow> copy_to_ptr c MAX_CMDLINE_INPUT_LEN;
             let (value, endp) = strtol ptr 0 in
             if endp = Some ptr then Some (Inl (DOCA_ERROR_INVALID_VALUE, s))
             else do { param_str_value \<leftarrow> strtok ptr (CHR '','');
                       c \<leftarrow> cur_add c (length param_str_value);
                       Some (Inr (c, s\<lparr>cp_pipe_port_id := word_of_int value, cp_has_port_id := True\<rparr>)) } }
      else if strncmp0 (fst c) ''name='' NAME_STR_LEN then
        do { c \<leftarrow> cur_add c NAME_STR_LEN;
             (ptr, c) \<leftarrow> copy_to_ptr c MAX_CMDLINE_INPUT_LEN;
             let (result, cfg) = cfg_set_name api (cp_cfg s) (strtok ptr (CHR '',''));
                 s = s\<lparr>cp_cfg := cfg, cp_result := Some result\<rparr>
             in if result \<noteq> DOCA_SUCCESS then Some (Inl (result, s)) else Some (Inr (c, s)) }
      else if strncmp0 (fst c) ''root_enable='' ROOT_ENABLE_STR_LEN then
        bool_param c ROOT_ENABLE_STR_LEN False (\<lambda>result. (result, s\<lparr>cp_result := Some result\<rparr>))
          (\<lambda>take_action.
             if take_action then
               let (result, cfg) = cfg_set_is_root api (cp_cfg s) True;
                   s = s\<lparr>cp_cfg := cfg, cp_result := Some result\<rparr>
               in if result \<noteq> DOCA_SUCCESS then Inl (result, s) else Inr s
             else Inr (s\<lparr>cp_result := Some DOCA_SUCCESS\<rparr>))
      else if strncmp0 (fst c) ''monitor='' MONITOR_STR_LEN then
        bool_param c MONITOR_STR_LEN False (\<lambda>result. (result, s\<lparr>cp_result := Some result\<rparr>))
          (\<lambda>take_action.
             if take_action then
               let (result, cfg) = cfg_set_monitor api (cp_cfg s) monitor;
                   s = s\<lparr>cp_cfg := cfg, cp_result := Some result\<rparr>
               in if result \<noteq> DOCA_SUCCESS then Inl (result, s) else Inr s
             else Inr (s\<lparr>cp_result := Some DOCA_SUCCESS\<rparr>))
      else if strncmp0 (fst c) ''match_mask='' MATCH_MASK_STR_LEN then
        bool_param c MATCH_MASK_STR_LEN False (\<lambda>result. (result, s\<lparr>cp_result := Some result\<rparr>))
          (\<lambda>take_action.
             Inr (s\<lparr>cp_result := Some DOCA_SUCCESS,
                    cp_match_mask := (if take_action then True else cp_match_mask s)\<rparr>))
      else if strncmp0 (fst c) ''fwd_miss='' MISS_FWD_STR_LEN then
        bool_param c MISS_FWD_STR_LEN (cp_fwd_miss s) (\<lambda>result. (result, s\<lparr>cp_result := Some result\<rparr>))
          (\<lambda>flag. Inr (s\<lparr>cp_result := Some DOCA_SUCCESS, cp_fwd_miss := flag\<rparr>))
      else if strncmp0 (fst c) ''fwd='' FWD_STR_LEN then
        bool_param c FWD_STR_LEN (cp_fwd s) (\<lambda>result. (result, s\<lparr>cp_result := Some result\<rparr>))
          (\<lambda>flag. Inr (s\<lparr>cp_result := Some DOCA_SUCCESS, cp_fwd := flag\<rparr>))
      else if strncmp0 (fst c) ''type='' TYPE_STR_LEN then
        do { c \<leftarrow> cur_add c TYPE_STR_LEN;
             (ptr, c) \<leftarrow> copy_to_ptr c MAX_FIELD_INPUT_LEN;
             type_str \<leftarrow> strtok ptr (CHR '','');
             let (r, cfg) = parse_pipe_type (cfg_set_type api) type_str (cp_cfg s);
                 s = s\<lparr>cp_cfg := cfg\<rparr>
             in case r of
                  Inl result \<Rightarrow> Some (Inl (result, s\<lparr>cp_result := Some result\<rparr>))
                | Inr t \<Rightarrow>
                    do { c \<leftarrow> cur_add c (length type_str);
                         Some (Inr (c, s\<lparr>cp_type := Some t, cp_result := Some DOCA_SUCCESS\<rparr>)) } }
      else Some (Inl (DOCA_ERROR_INVALID_VALUE, s)))"

text \<open>Without \<^verbatim>\<open>port_id\<close> the function returns \<^verbatim>\<open>result\<close>, whatever was stored there last.\<close>

definition parse_create_pipe_params ::
    "'cfg pipe_cfg_api \<Rightarrow> doca_flow_monitor \<Rightarrow> string \<Rightarrow> 'cfg create_pipe \<Rightarrow> (doca_error \<times> 'cfg create_pipe) option" where
  "parse_create_pipe_params api monitor params_str s =
     do { r \<leftarrow> params_loop (create_pipe_param api monitor) (params_str, None) s;
          case r of
            Inl e \<Rightarrow> Some e
          | Inr s \<Rightarrow> if \<not> cp_has_port_id s then do { result \<leftarrow> cp_result s; Some (result, s) }
                     else Some (DOCA_SUCCESS, s) }"

section \<open>add entry\<close>

text \<open>\<^verbatim>\<open>*out = strtoull (ptr, &params_str, 0)\<close> after the name of the parameter was skipped.\<close>

definition num_param :: "cur \<Rightarrow> nat \<Rightarrow> (string \<Rightarrow> 'v \<times> string option) \<Rightarrow> ('v \<times> cur) option" where
  "num_param c len conv =
     do { c \<leftarrow> cur_add c len;
          (ptr, c) \<leftarrow> copy_to_ptr c MAX_CMDLINE_INPUT_LEN;
          let (v, endp) = conv ptr in Some (v, cur_in_ptr ptr endp c) }"

record add_entry =
  ae_fwd :: bool
  ae_monitor :: bool
  ae_pipe_id :: u64
  ae_pipe_queue :: u32
  ae_has_pipe_id :: bool
  ae_has_pipe_queue :: bool

text \<open>The initial values that \<^verbatim>\<open>cmd_add_entry_parsed\<close> passes.\<close>

definition zero_add_entry :: add_entry where
  "zero_add_entry = \<lparr>ae_fwd = False, ae_monitor = False, ae_pipe_id = 0, ae_pipe_queue = 0,
     ae_has_pipe_id = False, ae_has_pipe_queue = False\<rparr>"

definition add_entry_param :: "add_entry param_step" where
  "add_entry_param c s =
     (if strncmp0 (fst c) ''pipe_id='' PIPE_ID_STR_LEN then
        do { (v, c) \<leftarrow> num_param c PIPE_ID_STR_LEN (\<lambda>ptr. strtoull ptr 0);
             Some (Inr (c, s\<lparr>ae_pipe_id := v, ae_has_pipe_id := True\<rparr>)) }
      else if strncmp0 (fst c) ''pipe_queue='' PIPE_QUEUE_STR_LEN then
        do { (v, c) \<leftarrow> num_param c PIPE_QUEUE_STR_LEN (\<lambda>ptr. strtol ptr 0);
             Some (Inr (c, s\<lparr>ae_pipe_queue := word_of_int v, ae_has_pipe_queue := True\<rparr>)) }
      else if strncmp0 (fst c) ''monitor='' MONITOR_STR_LEN then
        bool_param c MONITOR_STR_LEN (ae_monitor s) (\<lambda>_. (DOCA_ERROR_INVALID_VALUE, s))
          (\<lambda>flag. Inr (s\<lparr>ae_monitor := flag\<rparr>))
      else if strncmp0 (fst c) ''fwd='' FWD_STR_LEN then
        bool_param c FWD_STR_LEN (ae_fwd s) (\<lambda>_. (DOCA_ERROR_INVALID_VALUE, s))
          (\<lambda>flag. Inr (s\<lparr>ae_fwd := flag\<rparr>))
      else Some (Inl (DOCA_ERROR_INVALID_VALUE, s)))"

definition parse_add_entry_params :: "string \<Rightarrow> add_entry \<Rightarrow> (doca_error \<times> add_entry) option" where
  "parse_add_entry_params params_str s =
     do { r \<leftarrow> params_loop add_entry_param (params_str, None)
                 (s\<lparr>ae_has_pipe_id := False, ae_has_pipe_queue := False\<rparr>);
          case r of
            Inl e \<Rightarrow> Some e
          | Inr s \<Rightarrow>
              if \<not> ae_has_pipe_id s then Some (DOCA_ERROR_INVALID_VALUE, s)
              else if \<not> ae_has_pipe_queue s then Some (DOCA_ERROR_INVALID_VALUE, s)
              else Some (DOCA_SUCCESS, s) }"

definition parse_fw_add_entry_params :: "string \<Rightarrow> doca_error + u16" where
  "parse_fw_add_entry_params params_str =
     (if strncmp0 params_str ''port_id='' PORT_ID_STR_LEN
      then Inr (ucast (fst (strtoull (strlcpy_str (drop PORT_ID_STR_LEN params_str) MAX_CMDLINE_INPUT_LEN) 0)))
      else Inl DOCA_ERROR_INVALID_VALUE)"

section \<open>add control_pipe entry\<close>

record control_entry =
  ce_fwd :: bool
  ce_match_mask :: bool
  ce_pipe_id :: u64
  ce_pipe_queue :: u16
  ce_priority :: u8
  ce_has_pipe_id :: bool
  ce_has_pipe_queue :: bool
  ce_has_priority :: bool

definition control_entry_param :: "control_entry param_step" where
  "control_entry_param c s =
     (if strncmp0 (fst c) ''pipe_id='' PIPE_ID_STR_LEN then
        do { (v, c) \<leftarrow> num_param c PIPE_ID_STR_LEN (\<lambda>ptr. strtoull ptr 0);
             Some (Inr (c, s\<lparr>ce_pipe_id := v, ce_has_pipe_id := True\<rparr>)) }
      else if strncmp0 (fst c) ''pipe_queue='' PIPE_QUEUE_STR_LEN then
        do { (v, c) \<leftarrow> num_param c PIPE_QUEUE_STR_LEN (\<lambda>ptr. strtol ptr 0);
             Some (Inr (c, s\<lparr>ce_pipe_queue := word_of_int v, ce_has_pipe_queue := True\<rparr>)) }
      else if strncmp0 (fst c) ''priority='' PRIORITY_STR_LEN then
        do { (v, c) \<leftarrow> num_param c PRIORITY_STR_LEN (\<lambda>ptr. strtol ptr 0);
             Some (Inr (c, s\<lparr>ce_priority := word_of_int v, ce_has_priority := True\<rparr>)) }
      else if strncmp0 (fst c) ''match_mask='' MATCH_MASK_STR_LEN then
        bool_param c MATCH_MASK_STR_LEN (ce_match_mask s) (\<lambda>_. (DOCA_ERROR_INVALID_VALUE, s))
          (\<lambda>flag. Inr (s\<lparr>ce_match_mask := flag\<rparr>))
      else if strncmp0 (fst c) ''fwd='' FWD_STR_LEN then
        bool_param c FWD_STR_LEN (ce_fwd s) (\<lambda>_. (DOCA_ERROR_INVALID_VALUE, s))
          (\<lambda>flag. Inr (s\<lparr>ce_fwd := flag\<rparr>))
      else Some (Inl (DOCA_ERROR_INVALID_VALUE, s)))"

definition parse_add_control_pipe_entry_params ::
    "string \<Rightarrow> control_entry \<Rightarrow> (doca_error \<times> control_entry) option" where
  "parse_add_control_pipe_entry_params params_str s =
     do { r \<leftarrow> params_loop control_entry_param (params_str, None)
                 (s\<lparr>ce_has_pipe_id := False, ce_has_pipe_queue := False, ce_has_priority := False\<rparr>);
          case r of
            Inl e \<Rightarrow> Some e
          | Inr s \<Rightarrow>
              if \<not> ce_has_pipe_id s then Some (DOCA_ERROR_INVALID_VALUE, s)
              else if \<not> ce_has_pipe_queue s then Some (DOCA_ERROR_INVALID_VALUE, s)
              else if \<not> ce_has_priority s then Some (DOCA_ERROR_INVALID_VALUE, s)
              else Some (DOCA_SUCCESS, s) }"

section \<open>rm entry and query\<close>

text \<open>\<open>ep_queue\<close> is \<open>None\<close> when the caller passes \<^verbatim>\<open>NULL\<close> for \<^verbatim>\<open>pipe_queue\<close>.\<close>

record entry_params =
  ep_queue :: "u16 option"
  ep_entry_id :: u64
  ep_has_pipe_queue :: bool
  ep_has_entry_id :: bool

definition entry_param :: "entry_params param_step" where
  "entry_param c s =
     (if strncmp0 (fst c) ''pipe_queue='' PIPE_QUEUE_STR_LEN then
        (if ep_queue s \<noteq> None
         then do { (v, c) \<leftarrow> num_param c PIPE_QUEUE_STR_LEN (\<lambda>ptr. strtol ptr 0);
                   Some (Inr (c, s\<lparr>ep_queue := Some (word_of_int v), ep_has_pipe_queue := True\<rparr>)) }
         else do { c \<leftarrow> cur_add c PIPE_QUEUE_STR_LEN;
                   (ptr, c) \<leftarrow> copy_to_ptr c MAX_CMDLINE_INPUT_LEN;
                   Some (Inr (c, s\<lparr>ep_has_pipe_queue := True\<rparr>)) })
      else if strncmp0 (fst c) ''entry_id='' ENTRY_ID_STR_LEN then
        do { (v, c) \<leftarrow> num_param c ENTRY_ID_STR_LEN (\<lambda>ptr. strtoull ptr 0);
             Some (Inr (c, s\<lparr>ep_entry_id := v, ep_has_entry_id := True\<rparr>)) }
      else Some (Inl (DOCA_ERROR_INVALID_VALUE, s)))"

definition parse_entry_params :: "string \<Rightarrow> bool \<Rightarrow> entry_params \<Rightarrow> (doca_error \<times> entry_params) option" where
  "parse_entry_params params pipe_queue_mandatory s =
     do { r \<leftarrow> params_loop entry_param (params, None)
                 (s\<lparr>ep_has_pipe_queue := False, ep_has_entry_id := False\<rparr>);
          case r of
            Inl e \<Rightarrow> Some e
          | Inr s \<Rightarrow>
              if pipe_queue_mandatory \<and> \<not> ep_has_pipe_queue s then Some (DOCA_ERROR_INVALID_VALUE, s)
              else if \<not> ep_has_entry_id s then Some (DOCA_ERROR_INVALID_VALUE, s)
              else Some (DOCA_SUCCESS, s) }"

definition parse_fw_entry_params :: "string \<Rightarrow> doca_error + u64" where
  "parse_fw_entry_params params =
     (if strncmp0 params ''entry_id='' ENTRY_ID_STR_LEN
      then Inr (fst (strtoull (strlcpy_str (drop ENTRY_ID_STR_LEN params) MAX_CMDLINE_INPUT_LEN) 0))
      else Inl DOCA_ERROR_INVALID_VALUE)"

section \<open>port pipes dump\<close>

text \<open>\<open>dp_file\<close> is the open stream, named by its path; opening and closing is logged.\<close>

datatype file_event = Open string | Close string

record dump_params =
  dp_port_id :: u16
  dp_file :: "string option"
  dp_has_port_id :: bool
  dp_has_file :: bool
  dp_log :: "file_event list"

definition dump_param :: "(string \<Rightarrow> bool) \<Rightarrow> dump_params param_step" where
  "dump_param fopen_ok c s =
     (if strncmp0 (fst c) ''port_id='' PORT_ID_STR_LEN then
        do { (v, c) \<leftarrow> num_param c PORT_ID_STR_LEN (\<lambda>ptr. strtol ptr 0);
             Some (Inr (c, s\<lparr>dp_port_id := word_of_int v, dp_has_port_id := True\<rparr>)) }
      else if strncmp0 (fst c) ''file='' FILE_STR_LEN then
        (if dp_has_file s
         then do { f \<leftarrow> dp_file s;
                   Some (Inl (DOCA_ERROR_INVALID_VALUE, s\<lparr>dp_file := None, dp_log := dp_log s @ [Close f]\<rparr>)) }
         else do { c \<leftarrow> cur_add c FILE_STR_LEN;
                   (ptr, c) \<leftarrow> copy_to_ptr c MAX_CMDLINE_INPUT_LEN;
                   name \<leftarrow> strtok ptr (CHR '','');
                   c \<leftarrow> cur_add c (length name);
                   if fopen_ok name
                   then Some (Inr (c, s\<lparr>dp_file := Some name, dp_has_file := True,
                                        dp_log := dp_log s @ [Open name]\<rparr>))
                   else Some (Inl (DOCA_ERROR_INVALID_VALUE, s\<lparr>dp_file := None\<rparr>)) })
      else Some (Inl (DOCA_ERROR_INVALID_VALUE, s)))"

definition parse_dump_pipe_params ::
    "(string \<Rightarrow> bool) \<Rightarrow> string \<Rightarrow> dump_params \<Rightarrow> (doca_error \<times> dump_params) option" where
  "parse_dump_pipe_params fopen_ok params s =
     do { r \<leftarrow> params_loop (dump_param fopen_ok) (params, None)
                 (s\<lparr>dp_has_port_id := False, dp_has_file := False\<rparr>);
          case r of
            Inl e \<Rightarrow> Some e
          | Inr s \<Rightarrow>
              if \<not> dp_has_port_id s then Some (DOCA_ERROR_INVALID_VALUE, s)
              else if \<not> dp_has_file s then
                (if fopen_ok ''port_info.txt''
                 then Some (DOCA_SUCCESS, s\<lparr>dp_file := Some ''port_info.txt'',
                                           dp_log := dp_log s @ [Open ''port_info.txt'']\<rparr>)
                 else Some (DOCA_ERROR_IO_FAILED, s\<lparr>dp_file := None\<rparr>))
              else Some (DOCA_SUCCESS, s) }"

section \<open>Every body moves on\<close>

lemma length_sign_of: "length (snd (sign_of s)) \<le> length s"
  by (simp add: sign_of_def)

lemma length_int_base: "length (snd (int_base b s)) \<le> length s"
  by (simp add: int_base_def)

lemma scan_int_rest: "scan_int b s = Some (neg, m, r) \<Longrightarrow> length r < length s"
proof -
  assume a: "scan_int b s = Some (neg, m, r)"
  let ?s1 = "snd (sign_of (dropWhile isspace s))"
  let ?s2 = "snd (int_base b ?s1)" and ?b = "fst (int_base b ?s1)"
  let ?ds = "takeWhile (\<lambda>c. digit_of c < ?b) ?s2"
  have ds: "?ds \<noteq> []" and r: "r = drop (length ?ds) ?s2"
    using a by (auto simp: scan_int_def Let_def split_beta split: if_splits)
  have "length ?s2 \<le> length ?s1" by (rule length_int_base)
  also have "\<dots> \<le> length (dropWhile isspace s)" by (rule length_sign_of)
  also have "\<dots> \<le> length s" by (rule length_dropWhile_le)
  finally have "length ?s2 \<le> length s" .
  moreover have "0 < length ?ds" "length ?ds \<le> length ?s2"
    using ds by (auto intro: length_takeWhile_le)
  ultimately show ?thesis unfolding r length_drop by linarith
qed

lemma strtol_rest: "strtol s b = (v, Some r) \<Longrightarrow> length r \<le> length s"
  by (auto simp: strtol_def split: if_splits option.splits dest: scan_int_rest)

lemma strtoull_rest: "strtoull s b = (v, Some r) \<Longrightarrow> length r \<le> length s"
  by (auto simp: strtoull_def split: if_splits option.splits dest: scan_int_rest)

lemma cur_add_len: "cur_add c n = Some c' \<Longrightarrow> length (fst c') \<le> length (fst c)"
  by (auto simp: cur_add_def split: if_splits)

lemma copy_to_ptr_len:
  "copy_to_ptr c sz = Some (ptr, c') \<Longrightarrow> length (fst c') \<le> length (fst c) \<and> length ptr \<le> length (fst c)"
  by (auto simp: copy_to_ptr_def Let_def split: if_splits option.splits)

lemma num_param_len:
  assumes "num_param c len conv = Some (v, c')"
    and "\<And>ptr v r. conv ptr = (v, Some r) \<Longrightarrow> length r \<le> length ptr"
  shows "length (fst c') \<le> length (fst c)"
proof -
  obtain c1 ptr c2 where "cur_add c len = Some c1" "copy_to_ptr c1 MAX_CMDLINE_INPUT_LEN = Some (ptr, c2)"
      and c': "c' = cur_in_ptr ptr (snd (conv ptr)) c2"
    using assms(1) by (auto simp: num_param_def bind_eq_Some_conv split_beta)
  then have "length (fst c2) \<le> length (fst c)" "length ptr \<le> length (fst c)"
    using cur_add_len copy_to_ptr_len by (meson order.trans)+
  moreover have "length r \<le> length ptr" if "snd (conv ptr) = Some r" for r
    using assms(2) [of ptr "fst (conv ptr)" r] that by (simp add: prod_eq_iff)
  ultimately show ?thesis
    unfolding c' by (cases "snd (conv ptr)") (auto simp: cur_in_ptr_def)
qed

lemma bool_param_len:
  "bool_param c len flag fail k = Some (Inr (c', s')) \<Longrightarrow> length (fst c') \<le> length (fst c)"
  by (auto simp: bool_param_def parse_bool_params_input_def bind_eq_Some_conv Let_def split_beta
      case_sum_eq_conv
      split: if_split_asm dest!: cur_add_len)

lemma num_param_strtol_len:
  "num_param c len (\<lambda>ptr. strtol ptr b) = Some (v, c') \<Longrightarrow> length (fst c') \<le> length (fst c)"
  by (erule num_param_len) (erule strtol_rest)

lemma num_param_strtoull_len:
  "num_param c len (\<lambda>ptr. strtoull ptr b) = Some (v, c') \<Longrightarrow> length (fst c') \<le> length (fst c)"
  by (erule num_param_len) (erule strtoull_rest)

lemmas body_len = cur_add_len copy_to_ptr_len bool_param_len num_param_strtol_len num_param_strtoull_len

interpretation create_pipe_body: param_body "create_pipe_param api monitor" for api monitor
  by unfold_locales
     (auto simp: create_pipe_param_def bind_eq_Some_conv Let_def split_beta
       case_sum_eq_conv split: if_split_asm dest!: body_len)

interpretation add_entry_body: param_body add_entry_param
  by unfold_locales (auto simp: add_entry_param_def bind_eq_Some_conv split: if_splits dest!: body_len)

interpretation control_entry_body: param_body control_entry_param
  by unfold_locales (auto simp: control_entry_param_def bind_eq_Some_conv split: if_splits dest!: body_len)

interpretation entry_body: param_body entry_param
  by unfold_locales (auto simp: entry_param_def bind_eq_Some_conv split: if_splits dest!: body_len)

interpretation dump_body: param_body "dump_param fopen_ok" for fopen_ok
  by unfold_locales (auto simp: dump_param_def bind_eq_Some_conv split: if_splits dest!: body_len)

section \<open>Numbers as parameters\<close>

lemma length_dec: "0 < k \<Longrightarrow> n < 10 ^ k \<Longrightarrow> length (dec n) \<le> k"
proof (induction k arbitrary: n)
  case (Suc k)
  show ?case
  proof (cases "n < 10")
    case False
    then have "0 < k" using Suc.prems(2) by (cases k) auto
    moreover have "n div 10 < 10 ^ k" using Suc.prems(2) by (simp add: div_less_iff_less_mult mult.commute)
    ultimately show ?thesis using Suc.IH False by (subst dec.simps) simp
  qed (simp add: dec.simps)
qed simp

lemma ends_number_comma [simp]: "ends_number b (CHR '','' # r) \<longleftrightarrow> b \<le> 99"
  by (auto simp: ends_number_def digit_of_def)

lemma num_param_dec:
  assumes "length kw = len" and "length (dec n @ r) < 512" and "conv (dec n @ r) = (v, Some r)"
  shows "num_param (kw @ dec n @ r, l) len conv =
    (if \<forall>k. l = Some k \<longrightarrow> length (dec n @ r) \<le> k + len
     then Some (v, (r, Some (length (dec n)))) else None)"
  using assms
  by (cases l) (auto simp: num_param_def cur_add_def copy_to_ptr_def MAX_CMDLINE_INPUT_LEN_def Let_def
      min_def cur_in_ptr_def)

lemma strncmp0_simps:
  "strncmp0 (c # s) (d # t) (Suc n) \<longleftrightarrow> c = d \<and> strncmp0 s t n" "strncmp0 s t 0"
  by (auto simp: strncmp0_def)

section \<open>Properties\<close>

lemma create_pipe_round:
  "create_pipe_param api monitor c s = Some (Inr (c1, s1)) \<Longrightarrow>
   cp_has_port_id s1 \<or> cp_result s1 = Some DOCA_SUCCESS"
  by (auto simp: create_pipe_param_def bool_param_def bind_eq_Some_conv Let_def split_beta
      case_sum_eq_conv split: if_split_asm)

lemma create_pipe_loop_result:
  "params_loop (create_pipe_param api monitor) c s = Some (Inr s') \<Longrightarrow>
   cp_has_port_id s' \<or> cp_result s' = Some DOCA_SUCCESS"
  using create_pipe_body.loop_inv [where Q = "\<lambda>_. True" and P = "\<lambda>s. cp_has_port_id s \<or> cp_result s = Some DOCA_SUCCESS"]
    create_pipe_round by blast



text \<open>\<^verbatim>\<open>add entry pipe_id=N,pipe_queue=Q\<close> is parsed into the two numbers. In the other order
  the second number is copied from the inside of \<^verbatim>\<open>ptr\<close> to its start: \<^verbatim>\<open>pipe_queue=Q,pipe_id=N\<close>
  is parsed when \<open>N\<close> has at most nine digits more than \<open>Q\<close>, and is an overlapping copy otherwise,
  as for a one-digit queue and a pipe id of eleven digits.\<close>

theorem add_entry_params_order:
  assumes "n < 2 ^ 64" and "q < 2 ^ 31"
  shows "parse_add_entry_params (''pipe_id='' @ dec n @ '',pipe_queue='' @ dec q) s =
      Some (DOCA_SUCCESS, s\<lparr>ae_pipe_id := of_nat n, ae_pipe_queue := of_nat q,
         ae_has_pipe_id := True, ae_has_pipe_queue := True\<rparr>)
    \<and> parse_add_entry_params (''pipe_queue='' @ dec q @ '',pipe_id='' @ dec n) s =
      (if length (dec n) \<le> length (dec q) + 9
       then Some (DOCA_SUCCESS, s\<lparr>ae_pipe_id := of_nat n, ae_pipe_queue := of_nat q,
         ae_has_pipe_id := True, ae_has_pipe_queue := True\<rparr>)
       else None)"
proof -
  have len: "length (dec n) \<le> 20" "length (dec q) \<le> 10"
    using assms by (auto intro!: length_dec)
  have v: "strtoull (dec n @ CHR '','' # r) 0 = (of_nat n, Some (CHR '','' # r))"
      "strtoull (dec n) 0 = (of_nat n, Some [])"
      "strtol (dec q @ CHR '','' # r) 0 = (int q, Some (CHR '','' # r))"
      "strtol (dec q) 0 = (int q, Some [])" for r
    using assms strtoull_dec [of "CHR '','' # r" n] strtoull_dec [of "[]" n]
      strtol_dec [of "CHR '','' # r" q] strtol_dec [of "[]" q] by (simp_all add: LONG_MAX_def)
  show ?thesis
    using len num_param_dec [of "''pipe_id=''" 8 n "'',pipe_queue='' @ dec q" "\<lambda>p. strtoull p 0" "of_nat n" None]
      num_param_dec [of "''pipe_queue=''" 11 q "[]" "\<lambda>p. strtol p 0" "int q" "Some (Suc (length (dec n)))"]
      num_param_dec [of "''pipe_queue=''" 11 q "'',pipe_id='' @ dec n" "\<lambda>p. strtol p 0" "int q" None]
      num_param_dec [of "''pipe_id=''" 8 n "[]" "\<lambda>p. strtoull p 0" "of_nat n" "Some (Suc (length (dec q)))"]
    by (simp add: parse_add_entry_params_def params_loop.simps [of add_entry_param] add_entry_param_def
        str_len_defs strncmp0_simps numeral_eq_Suc v)
qed

theorem add_entry_params_order_witness:
  "parse_add_entry_params (''pipe_id='' @ dec 7 @ '',pipe_queue='' @ dec 3) zero_add_entry =
      Some (DOCA_SUCCESS, zero_add_entry\<lparr>ae_pipe_id := 7, ae_pipe_queue := 3,
        ae_has_pipe_id := True, ae_has_pipe_queue := True\<rparr>)
   \<and> parse_add_entry_params (''pipe_queue='' @ dec 0 @ '',pipe_id='' @ dec 12345678901) zero_add_entry = None"
  using add_entry_params_order [of 7 3 zero_add_entry] add_entry_params_order [of 12345678901 0 zero_add_entry]
  by (simp add: dec.simps)

text \<open>Two gaps of the \<^verbatim>\<open>create pipe\<close> parameters. A command without \<^verbatim>\<open>port_id\<close>, a mandatory
  parameter, that has no other error is reported as a success. And nothing after a name is read:
  behind \<^verbatim>\<open>name=\<close> the cursor stays on the name, so the loop ends there with success whatever
  follows.\<close>

theorem create_pipe_params_gaps:
  "(params_loop (create_pipe_param api mon) (str, None) s = Some (Inr s') \<and> \<not> cp_has_port_id s' \<longrightarrow>
      parse_create_pipe_params api mon str s = Some (DOCA_SUCCESS, s'))
   \<and> (nm \<noteq> [] \<and> hd nm \<noteq> CHR '',''
       \<and> cfg_set_name api (cp_cfg s) (strtok (take 511 (nm @ rest)) (CHR '','')) = (DOCA_SUCCESS, cfg) \<longrightarrow>
      parse_create_pipe_params api mon (''name='' @ nm @ rest) s =
        Some (DOCA_SUCCESS, s\<lparr>cp_cfg := cfg, cp_result := Some DOCA_SUCCESS\<rparr>))"
proof (intro conjI impI)
  assume "params_loop (create_pipe_param api mon) (str, None) s = Some (Inr s') \<and> \<not> cp_has_port_id s'"
  then show "parse_create_pipe_params api mon str s = Some (DOCA_SUCCESS, s')"
    using create_pipe_loop_result [of api mon "(str, None)" s s'] by (auto simp: parse_create_pipe_params_def)
next
  assume "nm \<noteq> [] \<and> hd nm \<noteq> CHR '',''
     \<and> cfg_set_name api (cp_cfg s) (strtok (take 511 (nm @ rest)) (CHR '','')) = (DOCA_SUCCESS, cfg)"
  moreover have "take (min (length nm + length rest) 511) (nm @ rest) = take 511 (nm @ rest)"
    by (auto simp: min_def)
  ultimately show "parse_create_pipe_params api mon (''name='' @ nm @ rest) s =
      Some (DOCA_SUCCESS, s\<lparr>cp_cfg := cfg, cp_result := Some DOCA_SUCCESS\<rparr>)"
    by (simp add: parse_create_pipe_params_def params_loop.simps [of "create_pipe_param api mon"]
        create_pipe_param_def str_len_defs strncmp0_simps numeral_eq_Suc cur_add_def copy_to_ptr_def
        MAX_CMDLINE_INPUT_LEN_def del: take_append)
qed

theorem create_pipe_params_gaps_witness:
  "parse_create_pipe_params
     \<lparr>cfg_create = Inr (), cfg_set_type = \<lambda>c _. (DOCA_SUCCESS, c), cfg_set_name = \<lambda>c _. (DOCA_SUCCESS, c),
      cfg_set_is_root = \<lambda>c _. (DOCA_SUCCESS, c), cfg_set_monitor = \<lambda>c _. (DOCA_SUCCESS, c),
      cfg_set_match = \<lambda>c _ _. (DOCA_SUCCESS, c), cfg_set_actions = \<lambda>c _. (DOCA_SUCCESS, c)\<rparr>
     zero_monitor (''name='' @ ''p'' @ '',port_id=x'')
     \<lparr>cp_cfg = (), cp_fwd = False, cp_fwd_miss = False, cp_match_mask = False, cp_type = None,
      cp_pipe_port_id = 0, cp_has_port_id = False, cp_result = None\<rparr> =
   Some (DOCA_SUCCESS, \<lparr>cp_cfg = (), cp_fwd = False, cp_fwd_miss = False, cp_match_mask = False, cp_type = None,
      cp_pipe_port_id = 0, cp_has_port_id = False, cp_result = Some DOCA_SUCCESS\<rparr>)"
  using create_pipe_params_gaps [of
     "\<lparr>cfg_create = Inr (), cfg_set_type = \<lambda>c _. (DOCA_SUCCESS, c), cfg_set_name = \<lambda>c _. (DOCA_SUCCESS, c),
      cfg_set_is_root = \<lambda>c _. (DOCA_SUCCESS, c), cfg_set_monitor = \<lambda>c _. (DOCA_SUCCESS, c),
      cfg_set_match = \<lambda>c _ _. (DOCA_SUCCESS, c), cfg_set_actions = \<lambda>c _. (DOCA_SUCCESS, c)\<rparr>"
     zero_monitor _ "\<lparr>cp_cfg = (), cp_fwd = False, cp_fwd_miss = False, cp_match_mask = False, cp_type = None,
      cp_pipe_port_id = 0, cp_has_port_id = False, cp_result = None\<rparr>" _ "''p''" "'',port_id=x''" "()"]
  by simp

end
