(* ===== verification/Flow_Cmds.thy ===== *)
theory Flow_Cmds
  imports Flow_Params
begin

text \<open>
  The commands of \<^verbatim>\<open>flow_parser.c\<close>: the global structures they fill, the callbacks they call and
  the two command sets (\<^verbatim>\<open>main_ctx\<close> and \<^verbatim>\<open>fw_subset_ctx\<close>). A handler returns the globals and the
  call it makes, if any; splitting the line into the words of a command is the work of the command
  line library.
\<close>

section \<open>Globals and callbacks\<close>

text \<open>Whether a callback is registered (its pointer is not \<^verbatim>\<open>NULL\<close>).\<close>

record callbacks =
  create_pipe_func :: bool
  add_entry_func :: bool
  add_fw_entry_func :: bool
  add_control_pipe_entry_func :: bool
  destroy_pipe_func :: bool
  remove_entry_func :: bool
  remove_fw_entry_func :: bool
  port_pipes_flush_func :: bool
  query_func :: bool
  port_pipes_dump_func :: bool

text \<open>The pointers are \<^verbatim>\<open>NULL\<close> until the application registers them.\<close>

definition no_callbacks :: callbacks where
  "no_callbacks = \<lparr>create_pipe_func = False, add_entry_func = False, add_fw_entry_func = False,
     add_control_pipe_entry_func = False, destroy_pipe_func = False, remove_entry_func = False,
     remove_fw_entry_func = False, port_pipes_flush_func = False, query_func = False,
     port_pipes_dump_func = False\<rparr>"

definition set_pipe_create :: "bool \<Rightarrow> callbacks \<Rightarrow> callbacks" where
  "set_pipe_create action c = c\<lparr>create_pipe_func := action\<rparr>"
definition set_pipe_add_entry :: "bool \<Rightarrow> callbacks \<Rightarrow> callbacks" where
  "set_pipe_add_entry action c = c\<lparr>add_entry_func := action\<rparr>"
definition set_pipe_fw_add_entry :: "bool \<Rightarrow> callbacks \<Rightarrow> callbacks" where
  "set_pipe_fw_add_entry action c = c\<lparr>add_fw_entry_func := action\<rparr>"
definition set_pipe_control_add_entry :: "bool \<Rightarrow> callbacks \<Rightarrow> callbacks" where
  "set_pipe_control_add_entry action c = c\<lparr>add_control_pipe_entry_func := action\<rparr>"
definition set_pipe_destroy :: "bool \<Rightarrow> callbacks \<Rightarrow> callbacks" where
  "set_pipe_destroy action c = c\<lparr>destroy_pipe_func := action\<rparr>"
definition set_pipe_rm_entry :: "bool \<Rightarrow> callbacks \<Rightarrow> callbacks" where
  "set_pipe_rm_entry action c = c\<lparr>remove_entry_func := action\<rparr>"
definition set_pipe_fw_rm_entry :: "bool \<Rightarrow> callbacks \<Rightarrow> callbacks" where
  "set_pipe_fw_rm_entry action c = c\<lparr>remove_fw_entry_func := action\<rparr>"
definition set_port_pipes_flush :: "bool \<Rightarrow> callbacks \<Rightarrow> callbacks" where
  "set_port_pipes_flush action c = c\<lparr>port_pipes_flush_func := action\<rparr>"
definition set_query :: "bool \<Rightarrow> callbacks \<Rightarrow> callbacks" where
  "set_query action c = c\<lparr>query_func := action\<rparr>"
definition set_port_pipes_dump :: "bool \<Rightarrow> callbacks \<Rightarrow> callbacks" where
  "set_port_pipes_dump action c = c\<lparr>port_pipes_dump_func := action\<rparr>"

record globals =
  pipe_match :: doca_flow_match
  entry_match :: doca_flow_match
  match_mask :: doca_flow_match
  g_actions :: doca_flow_actions
  g_monitor :: doca_flow_monitor
  g_fwd :: doca_flow_fwd
  g_fwd_miss :: doca_flow_fwd
  pipe_port_id :: u16
  fwd_next_pipe_id :: u64
  fwd_miss_next_pipe_id :: u64
  g_heap :: rss_heap
  g_callbacks :: callbacks
  g_files :: "file_event list"

definition reset_doca_flow_structs :: "globals \<Rightarrow> globals" where
  "reset_doca_flow_structs g =
     g\<lparr>pipe_match := zero_match, entry_match := zero_match, match_mask := zero_match,
       g_actions := zero_actions, g_monitor := zero_monitor, g_fwd := zero_fwd, g_fwd_miss := zero_fwd\<rparr>"

text \<open>The static globals before the program starts.\<close>

definition initial_globals :: "callbacks \<Rightarrow> globals" where
  "initial_globals cb =
     \<lparr>pipe_match = zero_match, entry_match = zero_match, match_mask = zero_match,
      g_actions = zero_actions, g_monitor = zero_monitor, g_fwd = zero_fwd, g_fwd_miss = zero_fwd,
      pipe_port_id = 0, fwd_next_pipe_id = 0, fwd_miss_next_pipe_id = 0,
      g_heap = \<lparr>rss_queues = 0, arrays = (\<lambda>_. None), allocs = 0\<rparr>, g_callbacks = cb, g_files = []\<rparr>"

text \<open>The calls of the callbacks with their arguments; a structure pointer is what it points to.\<close>

datatype 'cfg cli_call =
    Create_pipe 'cfg u16 "doca_flow_fwd option" u64 "doca_flow_fwd option" u64
  | Add_entry u16 u64 doca_flow_match doca_flow_actions "doca_flow_monitor option" "doca_flow_fwd option" u64 u32
  | Add_fw_entry u16 doca_flow_match
  | Add_control_pipe_entry u16 u8 u64 doca_flow_match "doca_flow_match option" "doca_flow_fwd option" u64
  | Destroy_pipe u64
  | Remove_entry u16 u64 u32
  | Remove_fw_entry u64
  | Port_pipes_flush u16
  | Query u64
  | Port_pipes_dump u16 string

type_synonym 'cfg handler = "globals \<Rightarrow> (globals \<times> 'cfg cli_call option) option"

section \<open>The handlers\<close>

text \<open>Reading \<^verbatim>\<open>type\<close> when no \<^verbatim>\<open>type=\<close> was given reads an uninitialised variable.\<close>

definition cmd_create_pipe_parsed :: "'cfg pipe_cfg_api \<Rightarrow> string \<Rightarrow> 'cfg handler" where
  "cmd_create_pipe_parsed api params g =
     (if \<not> create_pipe_func (g_callbacks g) then Some (g, None)
      else case cfg_create api of
        Inl _ \<Rightarrow> Some (g, None)
      | Inr cfg \<Rightarrow>
          do { (result, s) \<leftarrow> parse_create_pipe_params api (g_monitor g) params
                 \<lparr>cp_cfg = cfg, cp_fwd = False, cp_fwd_miss = False, cp_match_mask = False, cp_type = None,
                  cp_pipe_port_id = pipe_port_id g, cp_has_port_id = False, cp_result = None\<rparr>;
               let g = g\<lparr>pipe_port_id := cp_pipe_port_id s\<rparr> in
               if result \<noteq> DOCA_SUCCESS then Some (g, None)
               else do { type \<leftarrow> cp_type s;
                 let call = (\<lambda>cfg. Create_pipe cfg (pipe_port_id g)
                       (if cp_fwd s then Some (g_fwd g) else None) (fwd_next_pipe_id g)
                       (if cp_fwd_miss s then Some (g_fwd_miss g) else None) (fwd_miss_next_pipe_id g))
                 in if type \<noteq> DOCA_FLOW_PIPE_CONTROL then
                      let (result, cfg) = cfg_set_match api (cp_cfg s) (pipe_match g)
                            (if cp_match_mask s then Some (match_mask g) else None)
                      in if result \<noteq> DOCA_SUCCESS then Some (g, None)
                         else let (result, cfg) = cfg_set_actions api cfg (g_actions g)
                              in if result \<noteq> DOCA_SUCCESS then Some (g, None) else Some (g, Some (call cfg))
                    else Some (g, Some (call (cp_cfg s))) } })"

definition cmd_add_entry_parsed :: "string \<Rightarrow> 'cfg handler" where
  "cmd_add_entry_parsed params g =
     (if \<not> add_entry_func (g_callbacks g) then Some (g, None)
      else do { (result, s) \<leftarrow> parse_add_entry_params params zero_add_entry;
                if result \<noteq> DOCA_SUCCESS then Some (g, None)
                else Some (g, Some (Add_entry (ucast (ae_pipe_queue s)) (ae_pipe_id s) (entry_match g)
                       (g_actions g) (if ae_monitor s then Some (g_monitor g) else None)
                       (if ae_fwd s then Some (g_fwd g) else None) (fwd_next_pipe_id g) DOCA_FLOW_NO_WAIT)) })"

definition cmd_fw_add_entry_parsed :: "string \<Rightarrow> 'cfg handler" where
  "cmd_fw_add_entry_parsed params g =
     (if \<not> add_fw_entry_func (g_callbacks g) then Some (g, None)
      else case parse_fw_add_entry_params params of
        Inl _ \<Rightarrow> Some (g, None)
      | Inr port_id \<Rightarrow> Some (g, Some (Add_fw_entry port_id (entry_match g))))"

definition cmd_add_control_pipe_entry_parsed :: "string \<Rightarrow> 'cfg handler" where
  "cmd_add_control_pipe_entry_parsed params g =
     (if \<not> add_control_pipe_entry_func (g_callbacks g) then Some (g, None)
      else do { (result, s) \<leftarrow> parse_add_control_pipe_entry_params params
                  \<lparr>ce_fwd = False, ce_match_mask = False, ce_pipe_id = 0, ce_pipe_queue = 0, ce_priority = 0,
                   ce_has_pipe_id = False, ce_has_pipe_queue = False, ce_has_priority = False\<rparr>;
                if result \<noteq> DOCA_SUCCESS then Some (g, None)
                else Some (g, Some (Add_control_pipe_entry (ce_pipe_queue s) (ce_priority s) (ce_pipe_id s)
                       (entry_match g) (if ce_match_mask s then Some (match_mask g) else None)
                       (if ce_fwd s then Some (g_fwd g) else None) (fwd_next_pipe_id g))) })"

definition cmd_destroy_pipe_parsed :: "string \<Rightarrow> 'cfg handler" where
  "cmd_destroy_pipe_parsed params g =
     (if \<not> destroy_pipe_func (g_callbacks g) then Some (g, None)
      else case parse_pipe_id_input params of
        Inl _ \<Rightarrow> Some (g, None)
      | Inr pipe_id \<Rightarrow> Some (g, Some (Destroy_pipe pipe_id)))"

definition cmd_rm_entry_parsed :: "string \<Rightarrow> 'cfg handler" where
  "cmd_rm_entry_parsed params g =
     (if \<not> remove_entry_func (g_callbacks g) then Some (g, None)
      else do { (result, s) \<leftarrow> parse_entry_params params True
                  \<lparr>ep_queue = Some 0, ep_entry_id = 0, ep_has_pipe_queue = False, ep_has_entry_id = False\<rparr>;
                if result \<noteq> DOCA_SUCCESS then Some (g, None)
                else do { pipe_queue \<leftarrow> ep_queue s;
                          Some (g, Some (Remove_entry pipe_queue (ep_entry_id s) DOCA_FLOW_NO_WAIT)) } })"

definition cmd_fw_rm_entry_parsed :: "string \<Rightarrow> 'cfg handler" where
  "cmd_fw_rm_entry_parsed params g =
     (if \<not> remove_fw_entry_func (g_callbacks g) then Some (g, None)
      else case parse_fw_entry_params params of
        Inl _ \<Rightarrow> Some (g, None)
      | Inr entry_id \<Rightarrow> Some (g, Some (Remove_fw_entry entry_id)))"

definition cmd_flush_pipes_parsed :: "string \<Rightarrow> 'cfg handler" where
  "cmd_flush_pipes_parsed port_id g =
     (if \<not> port_pipes_flush_func (g_callbacks g) then Some (g, None)
      else case parse_port_id_input port_id of
        Inl _ \<Rightarrow> Some (g, None)
      | Inr port_id \<Rightarrow> Some (g, Some (Port_pipes_flush (ucast port_id))))"

definition cmd_query_parsed :: "string \<Rightarrow> 'cfg handler" where
  "cmd_query_parsed params g =
     (if \<not> query_func (g_callbacks g) then Some (g, None)
      else do { (result, s) \<leftarrow> parse_entry_params params False
                  \<lparr>ep_queue = None, ep_entry_id = 0, ep_has_pipe_queue = False, ep_has_entry_id = False\<rparr>;
                if result \<noteq> DOCA_SUCCESS then Some (g, None)
                else Some (g, Some (Query (ep_entry_id s))) })"

definition cmd_dump_pipe_parsed :: "(string \<Rightarrow> bool) \<Rightarrow> string \<Rightarrow> 'cfg handler" where
  "cmd_dump_pipe_parsed fopen_ok params g =
     (if \<not> port_pipes_dump_func (g_callbacks g) then Some (g, None)
      else do { (result, s) \<leftarrow> parse_dump_pipe_params fopen_ok params
                  \<lparr>dp_port_id = 0, dp_file = None, dp_has_port_id = False, dp_has_file = False, dp_log = []\<rparr>;
                if result \<noteq> DOCA_SUCCESS then
                  Some (g\<lparr>g_files := g_files g @ dp_log s @
                         (case dp_file s of None \<Rightarrow> [] | Some fd \<Rightarrow> [Close fd])\<rparr>, None)
                else do { fd \<leftarrow> dp_file s;
                          Some (g\<lparr>g_files := g_files g @ dp_log s @ [Close fd]\<rparr>,
                                Some (Port_pipes_dump (dp_port_id s) fd)) } })"

text \<open>
  \<^verbatim>\<open>create pipe_match|entry_match|...\<close>: the structure is zeroed and filled; the result of
  \<^verbatim>\<open>parse_struct\<close> is ignored. The forward parsers also reach the next pipe ids and the queues.
\<close>

definition cmd_create_struct_parsed ::
    "(nat \<Rightarrow> bool) \<Rightarrow> string \<Rightarrow> string \<Rightarrow> globals \<Rightarrow> globals option" where
  "cmd_create_struct_parsed malloc_ok flow_struct flow_struct_input g =
     (if flow_struct = ''pipe_match'' then
        do { (_, m) \<leftarrow> parse_struct parse_match_field flow_struct_input zero_match;
             Some (g\<lparr>pipe_match := m\<rparr>) }
      else if flow_struct = ''entry_match'' then
        do { (_, m) \<leftarrow> parse_struct parse_match_field flow_struct_input zero_match;
             Some (g\<lparr>entry_match := m\<rparr>) }
      else if flow_struct = ''match_mask'' then
        do { (_, m) \<leftarrow> parse_struct parse_match_field flow_struct_input zero_match;
             Some (g\<lparr>match_mask := m\<rparr>) }
      else if flow_struct = ''actions'' then
        do { (_, a) \<leftarrow> parse_struct parse_actions_field flow_struct_input zero_actions;
             Some (g\<lparr>g_actions := a\<rparr>) }
      else if flow_struct = ''monitor'' then
        do { (_, m) \<leftarrow> parse_struct parse_monitor_field flow_struct_input zero_monitor;
             Some (g\<lparr>g_monitor := m\<rparr>) }
      else if flow_struct = ''fwd'' then
        do { (_, s) \<leftarrow> parse_struct (parse_fwd_field malloc_ok) flow_struct_input
               \<lparr>fs_fwd = zero_fwd, fs_next_pipe_id = fwd_next_pipe_id g, fs_heap = g_heap g\<rparr>;
             Some (g\<lparr>g_fwd := fs_fwd s, fwd_next_pipe_id := fs_next_pipe_id s, g_heap := fs_heap s\<rparr>) }
      else if flow_struct = ''fwd_miss'' then
        do { (_, s) \<leftarrow> parse_struct (parse_fwd_miss_field malloc_ok) flow_struct_input
               \<lparr>fs_fwd = zero_fwd, fs_next_pipe_id = fwd_miss_next_pipe_id g, fs_heap = g_heap g\<rparr>;
             Some (g\<lparr>g_fwd_miss := fs_fwd s, fwd_miss_next_pipe_id := fs_next_pipe_id s, g_heap := fs_heap s\<rparr>) }
      else Some g)"

definition cmd_fw_create_struct_parsed :: "string \<Rightarrow> globals \<Rightarrow> globals option" where
  "cmd_fw_create_struct_parsed flow_struct_input g =
     do { (_, m) \<leftarrow> parse_struct parse_fw_match_field flow_struct_input zero_match;
          Some (g\<lparr>entry_match := m\<rparr>) }"

section \<open>The command sets\<close>

datatype cli_cmd =
    Cmd_quit
  | Cmd_create_struct string string
  | Cmd_create_pipe string
  | Cmd_add_entry string
  | Cmd_add_control_pipe_entry string
  | Cmd_destroy_pipe string
  | Cmd_rm_entry string
  | Cmd_flush_pipes string
  | Cmd_dump_pipe string
  | Cmd_query string

text \<open>
  \<^verbatim>\<open>main_ctx\<close> and \<^verbatim>\<open>fw_subset_ctx\<close>: the handler of each command; \<open>None\<close> inside means that the
  command is not in the set. The firewall creates only \<^verbatim>\<open>entry_match\<close>.
\<close>

definition main_ctx ::
    "'cfg pipe_cfg_api \<Rightarrow> (nat \<Rightarrow> bool) \<Rightarrow> (string \<Rightarrow> bool) \<Rightarrow> cli_cmd \<Rightarrow> 'cfg handler" where
  "main_ctx api malloc_ok fopen_ok cmd g =
     (case cmd of
        Cmd_quit \<Rightarrow> Some (g, None)
      | Cmd_create_struct flow_struct input \<Rightarrow>
          map_option (\<lambda>g. (g, None)) (cmd_create_struct_parsed malloc_ok flow_struct input g)
      | Cmd_create_pipe params \<Rightarrow> cmd_create_pipe_parsed api params g
      | Cmd_add_entry params \<Rightarrow> cmd_add_entry_parsed params g
      | Cmd_add_control_pipe_entry params \<Rightarrow> cmd_add_control_pipe_entry_parsed params g
      | Cmd_destroy_pipe params \<Rightarrow> cmd_destroy_pipe_parsed params g
      | Cmd_rm_entry params \<Rightarrow> cmd_rm_entry_parsed params g
      | Cmd_flush_pipes port_id \<Rightarrow> cmd_flush_pipes_parsed port_id g
      | Cmd_dump_pipe params \<Rightarrow> cmd_dump_pipe_parsed fopen_ok params g
      | Cmd_query params \<Rightarrow> cmd_query_parsed params g)"

definition fw_subset_ctx :: "(string \<Rightarrow> bool) \<Rightarrow> cli_cmd \<Rightarrow> 'cfg handler" where
  "fw_subset_ctx fopen_ok cmd g =
     (case cmd of
        Cmd_create_struct flow_struct input \<Rightarrow>
          (if flow_struct = ''entry_match''
           then map_option (\<lambda>g. (g, None)) (cmd_fw_create_struct_parsed input g) else Some (g, None))
      | Cmd_add_entry params \<Rightarrow> cmd_fw_add_entry_parsed params g
      | Cmd_rm_entry params \<Rightarrow> cmd_fw_rm_entry_parsed params g
      | Cmd_flush_pipes port_id \<Rightarrow> cmd_flush_pipes_parsed port_id g
      | Cmd_dump_pipe params \<Rightarrow> cmd_dump_pipe_parsed fopen_ok params g
      | _ \<Rightarrow> Some (g, None))"

text \<open>A session: any number of commands of one set after \<^verbatim>\<open>flow_parser_init\<close>.\<close>

inductive session :: "(cli_cmd \<Rightarrow> 'cfg handler) \<Rightarrow> globals \<Rightarrow> 'cfg cli_call list \<Rightarrow> bool" for ctx where
  start: "session ctx (reset_doca_flow_structs (initial_globals cb)) []"
| command: "session ctx g calls \<Longrightarrow> ctx cmd g = Some (g', call) \<Longrightarrow>
     session ctx g' (calls @ (case call of None \<Rightarrow> [] | Some c \<Rightarrow> [c]))"

text \<open>\<^verbatim>\<open>flow_parser_cleanup\<close> frees the queues.\<close>

definition flow_parser_cleanup :: "globals \<Rightarrow> globals" where
  "flow_parser_cleanup g =
     (if rss_queues (g_heap g) \<noteq> 0
      then g\<lparr>g_heap := (g_heap g)\<lparr>arrays := (arrays (g_heap g))(rss_queues (g_heap g) := None)\<rparr>\<rparr> else g)"

section \<open>The invariant of the globals\<close>

text \<open>Every stream that was opened has been closed, in order and once.\<close>

fun files_closed :: "file_event list \<Rightarrow> bool" where
  "files_closed [] = True"
| "files_closed (Open f # Close f' # es) = (f = f' \<and> files_closed es)"
| "files_closed _ = False"

definition wf_globals :: "globals \<Rightarrow> bool" where
  "wf_globals g \<longleftrightarrow> wf_match (pipe_match g) \<and> wf_match (entry_match g) \<and> wf_match (match_mask g)
     \<and> wf_actions (g_actions g) \<and> wf_heap (g_heap g) \<and> files_closed (g_files g)"

lemma files_closed_append [simp]: "files_closed es \<Longrightarrow> files_closed (es @ [Open f, Close f])"
  by (induction es rule: files_closed.induct) auto

lemma wf_zero [simp]: "wf_match zero_match" "wf_actions zero_actions"
  by (simp_all add: wf_match_def wf_actions_def zero_match_def zero_actions_def)

lemma wf_initial: "wf_globals (reset_doca_flow_structs (initial_globals cb))"
  by (simp add: wf_globals_def reset_doca_flow_structs_def initial_globals_def wf_heap_def)

text \<open>What the parameters of a dump leave: the log opens exactly the stream that is still open.\<close>

definition dump_log_ok :: "dump_params \<Rightarrow> bool" where
  "dump_log_ok s \<longleftrightarrow> (case dp_file s of None \<Rightarrow> dp_log s = [] | Some f \<Rightarrow> dp_log s = [Open f])
     \<and> dp_has_file s = (dp_file s \<noteq> None)"

lemma dump_round_ok:
  "dump_log_ok s \<Longrightarrow> dump_param fopen_ok c s = Some (Inr (c1, s1)) \<Longrightarrow> dump_log_ok s1"
  by (auto simp: dump_log_ok_def dump_param_def bind_eq_Some_conv split: if_split_asm option.splits)

lemma dump_round_fail:
  "dump_log_ok s \<Longrightarrow> dump_param fopen_ok c s = Some (Inl (e, s1)) \<Longrightarrow>
   files_closed (dp_log s1 @ (case dp_file s1 of None \<Rightarrow> [] | Some fd \<Rightarrow> [Close fd]))"
  by (auto simp: dump_log_ok_def dump_param_def bind_eq_Some_conv split: if_split_asm option.splits)

lemma files_closed_append2: "files_closed es \<Longrightarrow> files_closed fs \<Longrightarrow> files_closed (es @ fs)"
  by (induction es rule: files_closed.induct) auto

lemma parse_dump_closed:
  assumes "parse_dump_pipe_params fopen_ok params
      \<lparr>dp_port_id = 0, dp_file = None, dp_has_port_id = False, dp_has_file = False, dp_log = []\<rparr> = Some (e, s)"
  shows "files_closed (dp_log s @ (case dp_file s of None \<Rightarrow> [] | Some fd \<Rightarrow> [Close fd]))"
proof -
  let ?s0 = "\<lparr>dp_port_id = 0, dp_file = None, dp_has_port_id = False, dp_has_file = False, dp_log = []\<rparr>"
  have ok0: "dump_log_ok ?s0" by (simp add: dump_log_ok_def)
  have ok: "dump_log_ok s1" if "params_loop (dump_param fopen_ok) (params, None) ?s0 = Some (Inr s1)" for s1
  proof -
    have "dump_log_ok s1 \<and> dump_log_ok s1"
      by (rule dump_body.loop_inv [where Q = dump_log_ok and P = dump_log_ok, OF _ ok0 that]) (simp add: dump_round_ok)
    then show ?thesis by simp
  qed
  have fail: "files_closed (dp_log s1 @ (case dp_file s1 of None \<Rightarrow> [] | Some fd \<Rightarrow> [Close fd]))"
    if "params_loop (dump_param fopen_ok) (params, None) ?s0 = Some (Inl (e1, s1))" for e1 s1
    by (rule dump_body.loop_inv_err [where Q = dump_log_ok, OF _ _ ok0 that])
       (erule (1) dump_round_ok, erule (1) dump_round_fail)
  from assms obtain r where r: "params_loop (dump_param fopen_ok) (params, None) ?s0 = Some r"
    by (auto simp: parse_dump_pipe_params_def bind_eq_Some_conv)
  show ?thesis
  proof (cases r)
    case (Inl p)
    then have "p = (e, s)" using assms r by (simp add: parse_dump_pipe_params_def)
    then show ?thesis using fail r Inl by simp
  next
    case (Inr s1)
    then have "dump_log_ok s1" using ok r by simp
    then show ?thesis
      using assms r Inr
      by (auto simp: parse_dump_pipe_params_def dump_log_ok_def split: if_split_asm option.splits)
  qed
qed

text \<open>The callback that a call goes to is registered.\<close>

fun registered :: "callbacks \<Rightarrow> 'cfg cli_call \<Rightarrow> bool" where
  "registered cb (Create_pipe _ _ _ _ _ _) = create_pipe_func cb"
| "registered cb (Add_entry _ _ _ _ _ _ _ _) = add_entry_func cb"
| "registered cb (Add_fw_entry _ _) = add_fw_entry_func cb"
| "registered cb (Add_control_pipe_entry _ _ _ _ _ _ _) = add_control_pipe_entry_func cb"
| "registered cb (Destroy_pipe _) = destroy_pipe_func cb"
| "registered cb (Remove_entry _ _ _) = remove_entry_func cb"
| "registered cb (Remove_fw_entry _) = remove_fw_entry_func cb"
| "registered cb (Port_pipes_flush _) = port_pipes_flush_func cb"
| "registered cb (Query _) = query_func cb"
| "registered cb (Port_pipes_dump _ _) = port_pipes_dump_func cb"

text \<open>What every handler keeps.\<close>

definition keeps :: "globals \<Rightarrow> globals \<Rightarrow> 'cfg cli_call option \<Rightarrow> bool" where
  "keeps g g' call \<longleftrightarrow> wf_globals g' \<and> g_callbacks g' = g_callbacks g
     \<and> (\<forall>c. call = Some c \<longrightarrow> registered (g_callbacks g) c)"

lemma keeps_create_pipe:
  "wf_globals g \<Longrightarrow> cmd_create_pipe_parsed api params g = Some (g', call) \<Longrightarrow> keeps g g' call"
  by (auto simp: cmd_create_pipe_parsed_def keeps_def wf_globals_def bind_eq_Some_conv Let_def split_beta
      case_sum_eq_conv split: if_split_asm)

lemma keeps_add_entry:
  "wf_globals g \<Longrightarrow> cmd_add_entry_parsed params g = Some (g', call) \<Longrightarrow> keeps g g' call"
  "wf_globals g \<Longrightarrow> cmd_fw_add_entry_parsed params g = Some (g', call) \<Longrightarrow> keeps g g' call"
  "wf_globals g \<Longrightarrow> cmd_add_control_pipe_entry_parsed params g = Some (g', call) \<Longrightarrow> keeps g g' call"
  by (auto simp: cmd_add_entry_parsed_def cmd_fw_add_entry_parsed_def cmd_add_control_pipe_entry_parsed_def
      keeps_def bind_eq_Some_conv case_sum_eq_conv split: if_split_asm)

lemma keeps_rm_entry:
  "wf_globals g \<Longrightarrow> cmd_destroy_pipe_parsed params g = Some (g', call) \<Longrightarrow> keeps g g' call"
  "wf_globals g \<Longrightarrow> cmd_rm_entry_parsed params g = Some (g', call) \<Longrightarrow> keeps g g' call"
  "wf_globals g \<Longrightarrow> cmd_fw_rm_entry_parsed params g = Some (g', call) \<Longrightarrow> keeps g g' call"
  "wf_globals g \<Longrightarrow> cmd_flush_pipes_parsed params g = Some (g', call) \<Longrightarrow> keeps g g' call"
  "wf_globals g \<Longrightarrow> cmd_query_parsed params g = Some (g', call) \<Longrightarrow> keeps g g' call"
  by (auto simp: cmd_destroy_pipe_parsed_def cmd_rm_entry_parsed_def cmd_fw_rm_entry_parsed_def
      cmd_flush_pipes_parsed_def cmd_query_parsed_def
      keeps_def bind_eq_Some_conv case_sum_eq_conv split: if_split_asm)

lemma keeps_dump:
  "wf_globals g \<Longrightarrow> cmd_dump_pipe_parsed fopen_ok params g = Some (g', call) \<Longrightarrow> keeps g g' call"
  by (auto simp: cmd_dump_pipe_parsed_def keeps_def bind_eq_Some_conv wf_globals_def
      split: if_split_asm dest!: parse_dump_closed intro: files_closed_append2)

lemma keeps_create_struct:
  "wf_globals g \<Longrightarrow> cmd_create_struct_parsed malloc_ok f input g = Some g' \<Longrightarrow> keeps g g' None"
  "wf_globals g \<Longrightarrow> cmd_fw_create_struct_parsed input g = Some g' \<Longrightarrow> keeps g g' None"
  by (auto simp: cmd_create_struct_parsed_def cmd_fw_create_struct_parsed_def keeps_def wf_globals_def
      bind_eq_Some_conv split: if_split_asm
      dest!: match_field.parse_struct_inv [rotated] fw_match_field.parse_struct_inv [rotated]
        actions_field.parse_struct_inv [rotated] fwd_field.parse_struct_inv [rotated]
        fwd_miss_field.parse_struct_inv [rotated])

lemma main_ctx_keeps:
  "wf_globals g \<Longrightarrow> main_ctx api malloc_ok fopen_ok cmd g = Some (g', call) \<Longrightarrow> keeps g g' call"
  by (cases cmd)
     (auto simp: main_ctx_def intro: keeps_create_pipe keeps_add_entry keeps_rm_entry keeps_dump
       keeps_create_struct, auto simp: keeps_def)

lemma fw_subset_ctx_keeps:
  "wf_globals g \<Longrightarrow> fw_subset_ctx fopen_ok cmd g = Some (g', call) \<Longrightarrow> keeps g g' call"
  by (cases cmd)
     (auto simp: fw_subset_ctx_def intro: keeps_add_entry keeps_rm_entry keeps_dump
       keeps_create_struct split: if_split_asm, auto simp: keeps_def)

section \<open>Freed queues\<close>

lemma parse_rss_queues_frees:
  assumes "wf_heap h" and "rss_queues h \<noteq> 0" and "parse_rss_queues malloc_ok str n h = Some (e, h')"
  shows "arrays h' (rss_queues h) = None"
  using assms by (auto simp: parse_rss_queues_def wf_heap_def Let_def bind_eq_Some_conv split: if_split_asm)

lemma fwd_miss_rss_frees:
  assumes "wf_heap (fs_heap s)" and "rss_queues (fs_heap s) \<noteq> 0"
    and "parse_fwd_miss_field malloc_ok ''rss_queues'' v s = Some (e, s')"
  shows "arrays (fs_heap s') (rss_queues (fs_heap s)) = None"
  using assms
  by (auto simp: parse_fwd_miss_field_def bind_eq_Some_conv Let_def dest: parse_rss_queues_frees
      split: if_split_asm)

lemma fwd_miss_num:
  "parse_fwd_miss_field malloc_ok ''num_of_queues'' v s =
     Some (DOCA_SUCCESS, fs_fwd_update (num_of_queues_update (\<lambda>_. sint (num v :: u32))) s)"
  by (simp add: parse_fwd_miss_field_def stored_def)

lemma cleanup_frees: "wf_globals g \<Longrightarrow> dom (arrays (g_heap (flow_parser_cleanup g))) = {}"
  by (auto simp: wf_globals_def wf_heap_def flow_parser_cleanup_def upd_None_singleton)

section \<open>The contract of a command set\<close>

locale command_set =
  fixes ctx :: "cli_cmd \<Rightarrow> 'cfg handler"
  assumes ctx_keeps: "wf_globals g \<Longrightarrow> ctx cmd g = Some (g', call) \<Longrightarrow> keeps g g' call"
begin

lemma session_safe:
  "session ctx g calls \<Longrightarrow> wf_globals g \<and> (\<forall>c \<in> set calls. registered (g_callbacks g) c)"
proof (induction rule: session.induct)
  case (command g calls cmd g' call)
  then have "keeps g g' call" using ctx_keeps by blast
  with command show ?case by (auto simp: keeps_def split: option.splits)
qed (simp add: wf_initial)

end

interpretation main_cmds: command_set "main_ctx api malloc_ok fopen_ok" for api malloc_ok fopen_ok
  by unfold_locales (rule main_ctx_keeps)

interpretation fw_cmds: command_set "fw_subset_ctx fopen_ok" for fopen_ok
  by unfold_locales (rule fw_subset_ctx_keeps)

section \<open>Properties\<close>



text \<open>C25. Parsing the queues of \<^verbatim>\<open>fwd_miss\<close> frees the array that \<^verbatim>\<open>fwd\<close> points to: the parser keeps
  one global array for both structures, so after \<^verbatim>\<open>create fwd_miss\<close> with queues the queue pointer of
  \<^verbatim>\<open>fwd\<close> is what it was and dangles.\<close>

theorem fwd_miss_frees_fwd_queues:
  assumes "wf_heap (g_heap g)" and "rss_queues (g_heap g) \<noteq> 0"
    and "fwd_rss_queues (g_fwd g) = rss_queues (g_heap g)" and "wf_field (''rss_queues'', v)"
    and "cmd_create_struct_parsed malloc_ok ''fwd_miss''
           (fields_str [(''num_of_queues'', ''1''), (''rss_queues'', v)]) g = Some g'"
  shows "fwd_rss_queues (g_fwd g') = fwd_rss_queues (g_fwd g)
    \<and> arrays (g_heap g') (fwd_rss_queues (g_fwd g')) = None"
proof -
  let ?ps = "[(''num_of_queues'', ''1''), (''rss_queues'', v)]"
  let ?s0 = "\<lparr>fs_fwd = zero_fwd, fs_next_pipe_id = fwd_miss_next_pipe_id g, fs_heap = g_heap g\<rparr>"
  have "\<forall>p \<in> set ?ps. wf_field p"
    using assms(4) by (simp add: wf_field_def MAX_FIELD_INPUT_LEN_def)
  then have ps: "parse_struct (parse_fwd_miss_field malloc_ok) (fields_str ?ps) ?s0
      = fill_all (parse_fwd_miss_field malloc_ok) ?ps ?s0"
    by (intro parse_struct_fields_str) simp_all
  obtain e s where s: "fill_all (parse_fwd_miss_field malloc_ok) ?ps ?s0 = Some (e, s)"
      and g': "g' = g\<lparr>g_fwd_miss := fs_fwd s, fwd_miss_next_pipe_id := fs_next_pipe_id s, g_heap := fs_heap s\<rparr>"
    using assms(5) unfolding cmd_create_struct_parsed_def ps by (auto simp del: fill_all.simps simp: bind_eq_Some_conv)
  have "\<exists>s1 e1. fs_heap s1 = g_heap g \<and> parse_fwd_miss_field malloc_ok ''rss_queues'' v s1 = Some (e1, s)"
    using s by (auto simp: fwd_miss_num split: option.splits if_split_asm intro!: exI)
  then obtain s1 e1 where "fs_heap s1 = g_heap g" "parse_fwd_miss_field malloc_ok ''rss_queues'' v s1 = Some (e1, s)"
    by blast
  then have "arrays (fs_heap s) (rss_queues (g_heap g)) = None"
    using fwd_miss_rss_frees [of s1 malloc_ok v e1 s] assms(1,2) by simp
  then show ?thesis
    using assms(3) by (simp add: g')
qed

theorem fwd_miss_frees_fwd_queues_witness:
  "arrays (g_heap (the (cmd_create_struct_parsed (\<lambda>_. True) ''fwd_miss'' ''num_of_queues=1,rss_queues=3''
      ((initial_globals no_callbacks)\<lparr>g_fwd := zero_fwd\<lparr>fwd_rss_queues := 1\<rparr>,
         g_heap := \<lparr>rss_queues = 1, arrays = (\<lambda>_. None)(1 := Some [7]), allocs = 1\<rparr>\<rparr>)))) 1 = None"
proof -
  let ?g = "(initial_globals no_callbacks)\<lparr>g_fwd := zero_fwd\<lparr>fwd_rss_queues := 1\<rparr>,
         g_heap := \<lparr>rss_queues = 1, arrays = (\<lambda>_. None)(1 := Some [7]), allocs = 1\<rparr>\<rparr>"
  have "cmd_create_struct_parsed (\<lambda>_. True) ''fwd_miss'' ''num_of_queues=1,rss_queues=3'' ?g \<noteq> None"
    by code_simp
  then show ?thesis
    using fwd_miss_frees_fwd_queues [of ?g "''3''" "\<lambda>_. True"]
    by (auto simp: wf_heap_def wf_field_def MAX_FIELD_INPUT_LEN_def)
qed

text \<open>C26. \<^verbatim>\<open>create pipe port_id=N\<close> without \<^verbatim>\<open>type=\<close>, which the usage text calls optional, reads the
  uninitialised variable \<^verbatim>\<open>type\<close>: the handler has no defined result.\<close>

theorem create_pipe_without_type:
  assumes "create_pipe_func (g_callbacks g)" and "cfg_create api = Inr cfg" and "n < 2 ^ 16"
  shows "cmd_create_pipe_parsed api (''port_id='' @ dec n) g = None"
proof -
  have len: "length (dec n) \<le> 5" using assms(3) by (auto intro!: length_dec)
  have v: "strtol (dec n) 0 = (int n, Some [])"
    using strtol_dec [of "[]" n] assms(3) by (simp add: LONG_MAX_def)
  have tok: "strtok (dec n) (CHR '','') = Some (dec n)"
    using strtok_take [of "dec n" "CHR '',''" 512 "[]"] len by (auto dest: dec_chars)
  have "strncmp0 (''port_id='' @ dec n) ''port_id='' 8"
    by (simp add: strncmp0_def)
  then have body: "create_pipe_param api mon (''port_id='' @ dec n, None) s =
      Some (Inr (([], None), s\<lparr>cp_pipe_port_id := of_nat n, cp_has_port_id := True\<rparr>))" for mon and s :: "'a create_pipe"
    using len
    by (simp add: create_pipe_param_def PORT_ID_STR_LEN_def cur_add_def copy_to_ptr_def
        MAX_CMDLINE_INPUT_LEN_def min_def v tok dec_not_Nil [symmetric] del: append_Cons)
  show ?thesis
    using assms(1,2)
    by (simp add: cmd_create_pipe_parsed_def parse_create_pipe_params_def params_loop.simps body del: append_Cons)
qed

theorem create_pipe_without_type_witness:
  "cmd_create_pipe_parsed
     \<lparr>cfg_create = Inr (), cfg_set_type = \<lambda>c _. (DOCA_SUCCESS, c), cfg_set_name = \<lambda>c _. (DOCA_SUCCESS, c),
      cfg_set_is_root = \<lambda>c _. (DOCA_SUCCESS, c), cfg_set_monitor = \<lambda>c _. (DOCA_SUCCESS, c),
      cfg_set_match = \<lambda>c _ _. (DOCA_SUCCESS, c), cfg_set_actions = \<lambda>c _. (DOCA_SUCCESS, c)\<rparr>
     (''port_id='' @ dec 0)
     (initial_globals (set_pipe_create True no_callbacks)) = None"
  using create_pipe_without_type [of "initial_globals (set_pipe_create True no_callbacks)"
     "\<lparr>cfg_create = Inr (), cfg_set_type = \<lambda>c _. (DOCA_SUCCESS, c), cfg_set_name = \<lambda>c _. (DOCA_SUCCESS, c),
      cfg_set_is_root = \<lambda>c _. (DOCA_SUCCESS, c), cfg_set_monitor = \<lambda>c _. (DOCA_SUCCESS, c),
      cfg_set_match = \<lambda>c _ _. (DOCA_SUCCESS, c), cfg_set_actions = \<lambda>c _. (DOCA_SUCCESS, c)\<rparr>" "()" 0]
  by (simp add: initial_globals_def set_pipe_create_def)

end
