(* ===== verification/Pipes_Manager.thy ===== *)
theory Pipes_Manager
  imports Prelude
begin

text \<open>
  \<^verbatim>\<open>applications/common/flow_pipes_manager.c\<close>: the tables that map the ids of pipes and entries to
  DOCA Flow objects. The hash tables are those of DPDK (\<^verbatim>\<open>rte_hash\<close>); their functions are the
  parameter \<open>hash_api\<close>, and \<open>hash_laws\<close> states what its documentation promises. Objects have
  addresses; a table or a pipe information that was freed is no longer in the store, and using it
  is \<open>None\<close>.
\<close>

section \<open>Hash tables\<close>

text \<open>
  The data that the manager stores in its tables. A pointer to a pipe id is a pointer to the key
  that the pipe table keeps; it is the id it points to.
\<close>

datatype hval = Info nat | Entry nat | Pipe_key u64 | Pipes_table nat | No_data

text \<open>\<open>h_create n\<close> is the \<open>n\<close>-th creation; \<open>None\<close> is a failure (\<^verbatim>\<open>NULL\<close> or a negative result).\<close>

record 't hash_api =
  h_create :: "nat \<Rightarrow> 't option"
  h_lookup :: "'t \<Rightarrow> u64 \<Rightarrow> hval option"
  h_key_at :: "'t \<Rightarrow> u64 \<Rightarrow> bool"
  h_add :: "'t \<Rightarrow> u64 \<Rightarrow> hval \<Rightarrow> 't option"
  h_del :: "'t \<Rightarrow> u64 \<Rightarrow> 't option"
  h_keys :: "'t \<Rightarrow> u64 list"

definition hash_laws :: "'t hash_api \<Rightarrow> bool" where
  "hash_laws api \<longleftrightarrow>
     (\<forall>n t k. h_create api n = Some t \<longrightarrow> h_lookup api t k = None)
     \<and> (\<forall>t k v t'. h_add api t k v = Some t' \<longrightarrow> h_lookup api t' = (h_lookup api t)(k \<mapsto> v))
     \<and> (\<forall>t k. (h_del api t k = None) = (h_lookup api t k = None))
     \<and> (\<forall>t k t'. h_del api t k = Some t' \<longrightarrow> h_lookup api t' = (h_lookup api t)(k := None))
     \<and> (\<forall>t k. h_lookup api t k \<noteq> None \<longrightarrow> h_key_at api t k)
     \<and> (\<forall>t. set (h_keys api t) = dom (h_lookup api t))"

text \<open>\<^verbatim>\<open>rte_hash_del_key\<close> whose result is not used.\<close>

definition h_drop :: "'t hash_api \<Rightarrow> 't \<Rightarrow> u64 \<Rightarrow> 't" where
  "h_drop api t k = (case h_del api t k of None \<Rightarrow> t | Some t' \<Rightarrow> t')"

section \<open>The manager\<close>

record pipe_info =
  pi_pipe :: nat
  pi_entries_table :: nat
  pi_port_id_to_pipes_table :: nat

text \<open>\<open>pm_allocs\<close> counts the allocations and names the next address.\<close>

record 't flow_pipes_manager =
  pipe_id_to_pipe_info_table :: 't
  entry_id_to_pipe_id_table :: 't
  port_id_to_pipes_id_table :: 't
  tabs :: "nat \<Rightarrow> 't option"
  infos :: "nat \<Rightarrow> pipe_info option"
  pm_allocs :: nat

text \<open>The environment: the tables, which \<^verbatim>\<open>rte_malloc\<close> succeed, and the bytes of an object.\<close>

record 't pm_env =
  api :: "'t hash_api"
  malloc_ok :: "nat \<Rightarrow> bool"
  obj :: "nat \<Rightarrow> u8 list"

definition FNV_OFFSET :: u64 where "FNV_OFFSET = 0xcbf29ce484222325"
definition FNV_PRIME :: u64 where "FNV_PRIME = 0x100000001b3"

text \<open>The eight bytes that \<^verbatim>\<open>generateID\<close> hashes are the first ones of the object \<^verbatim>\<open>ptr\<close> points to.\<close>

definition fnv1a :: "u8 list \<Rightarrow> u64" where
  "fnv1a bs = foldl (\<lambda>id b. (ucast b XOR id) * FNV_PRIME) FNV_OFFSET bs"

text \<open>\<^verbatim>\<open>generateID\<close> does not check its allocation: a failure is a write through \<^verbatim>\<open>NULL\<close>. The result is
  the id and the address of the cell that holds it.\<close>

definition generateID :: "'t pm_env \<Rightarrow> nat \<Rightarrow> 't flow_pipes_manager \<Rightarrow> (u64 \<times> nat \<times> 't flow_pipes_manager) option" where
  "generateID env ptr m =
     (if malloc_ok env (pm_allocs m)
      then Some (fnv1a (take 8 (obj env ptr)), pm_allocs m, m\<lparr>pm_allocs := Suc (pm_allocs m)\<rparr>) else None)"

definition create_pipe_info ::
    "'t pm_env \<Rightarrow> nat \<Rightarrow> nat \<Rightarrow> 't flow_pipes_manager \<Rightarrow> nat option \<times> 't flow_pipes_manager" where
  "create_pipe_info env pipe pipes_table m =
     (let i = pm_allocs m; a = Suc i; m = m\<lparr>pm_allocs := Suc a\<rparr> in
      if \<not> malloc_ok env i then (None, m)
      else case h_create (api env) a of
        None \<Rightarrow> (None, m)
      | Some t \<Rightarrow> (Some i,
          m\<lparr>tabs := (tabs m)(a \<mapsto> t),
            infos := (infos m)(i \<mapsto> \<lparr>pi_pipe = pipe, pi_entries_table = a,
                                    pi_port_id_to_pipes_table = pipes_table\<rparr>)\<rparr>))"

definition destroy_pipe_info :: "nat \<Rightarrow> 't flow_pipes_manager \<Rightarrow> 't flow_pipes_manager option" where
  "destroy_pipe_info i m =
     do { info \<leftarrow> infos m i;
          _ \<leftarrow> tabs m (pi_entries_table info);
          Some (m\<lparr>tabs := (tabs m)(pi_entries_table info := None), infos := (infos m)(i := None)\<rparr>) }"

definition create_pipes_manager :: "'t pm_env \<Rightarrow> doca_error + 't flow_pipes_manager" where
  "create_pipes_manager env =
     (if \<not> malloc_ok env 0 then Inl DOCA_ERROR_NO_MEMORY
      else case h_create (api env) 1 of
        None \<Rightarrow> Inl DOCA_ERROR_DRIVER
      | Some t1 \<Rightarrow>
          (case h_create (api env) 2 of
             None \<Rightarrow> Inl DOCA_ERROR_DRIVER
           | Some t2 \<Rightarrow>
               (case h_create (api env) 3 of
                  None \<Rightarrow> Inl DOCA_ERROR_DRIVER
                | Some t3 \<Rightarrow>
                    Inr \<lparr>pipe_id_to_pipe_info_table = t1, entry_id_to_pipe_id_table = t2,
                         port_id_to_pipes_id_table = t3, tabs = (\<lambda>_. None), infos = (\<lambda>_. None), pm_allocs = 4\<rparr>)))"

section \<open>Creating a pipe\<close>

text \<open>The pipes table of the port: found, or created and entered. \<open>Inl\<close> is an early return.\<close>

definition port_pipes_table ::
    "'t pm_env \<Rightarrow> u16 \<Rightarrow> u64 \<Rightarrow> 't flow_pipes_manager
     \<Rightarrow> ((doca_error + nat \<times> bool) \<times> 't flow_pipes_manager) option" where
  "port_pipes_table env port_id generated_pipe_id m =
     (case h_lookup (api env) (port_id_to_pipes_id_table m) (ucast port_id) of
        None \<Rightarrow>
          let k = pm_allocs m; a = Suc k; m = m\<lparr>pm_allocs := Suc a\<rparr> in
          if \<not> malloc_ok env k then None
          else (case h_create (api env) a of
             None \<Rightarrow> Some (Inl DOCA_ERROR_NO_MEMORY, m)
           | Some t \<Rightarrow>
               (case h_add (api env) t generated_pipe_id No_data of
                  None \<Rightarrow> Some (Inl DOCA_ERROR_INVALID_VALUE, m)
                | Some t \<Rightarrow>
                    (case h_add (api env) (port_id_to_pipes_id_table m) (ucast port_id) (Pipes_table a) of
                       None \<Rightarrow> Some (Inl DOCA_ERROR_INVALID_VALUE, m)
                     | Some pt \<Rightarrow> Some (Inr (a, True),
                         m\<lparr>port_id_to_pipes_id_table := pt, tabs := (tabs m)(a \<mapsto> t)\<rparr>))))
      | Some (Pipes_table a) \<Rightarrow>
          do { t \<leftarrow> tabs m a;
               case h_add (api env) t generated_pipe_id No_data of
                 None \<Rightarrow> Some (Inl DOCA_ERROR_INVALID_VALUE, m)
               | Some t \<Rightarrow> Some (Inr (a, False), m\<lparr>tabs := (tabs m)(a \<mapsto> t)\<rparr>) }
      | Some _ \<Rightarrow> None)"

text \<open>Undoing it when a later step fails: the id leaves the pipes table, a new table is freed.\<close>

definition drop_port_pipe ::
    "'t pm_env \<Rightarrow> u64 \<Rightarrow> nat \<Rightarrow> 't flow_pipes_manager \<Rightarrow> 't flow_pipes_manager option" where
  "drop_port_pipe env generated_pipe_id a m =
     do { t \<leftarrow> tabs m a; Some (m\<lparr>tabs := (tabs m)(a \<mapsto> h_drop (api env) t generated_pipe_id)\<rparr>) }"

definition drop_new_table ::
    "'t pm_env \<Rightarrow> u16 \<Rightarrow> nat \<Rightarrow> bool \<Rightarrow> 't flow_pipes_manager \<Rightarrow> 't flow_pipes_manager" where
  "drop_new_table env port_id a is_new_table m =
     (if is_new_table
      then m\<lparr>port_id_to_pipes_id_table := h_drop (api env) (port_id_to_pipes_id_table m) (ucast port_id),
             tabs := (tabs m)(a := None)\<rparr>
      else m)"

definition pipes_manager_pipe_create ::
    "'t pm_env \<Rightarrow> nat \<Rightarrow> u16 \<Rightarrow> 't flow_pipes_manager
     \<Rightarrow> ((doca_error + u64) \<times> 't flow_pipes_manager) option" where
  "pipes_manager_pipe_create env pipe port_id m =
     do { (generated_pipe_id, _, m) \<leftarrow> generateID env pipe m;
          if h_lookup (api env) (pipe_id_to_pipe_info_table m) generated_pipe_id \<noteq> None
          then Some (Inl DOCA_ERROR_INVALID_VALUE, m)
          else do { (r, m) \<leftarrow> port_pipes_table env port_id generated_pipe_id m;
            case r of
              Inl e \<Rightarrow> Some (Inl e, m)
            | Inr (a, is_new_table) \<Rightarrow>
                (case create_pipe_info env pipe a m of
                   (None, m) \<Rightarrow>
                     do { m \<leftarrow> drop_port_pipe env generated_pipe_id a m;
                          Some (Inl DOCA_ERROR_NO_MEMORY, drop_new_table env port_id a is_new_table m) }
                 | (Some i, m) \<Rightarrow>
                     (case h_add (api env) (pipe_id_to_pipe_info_table m) generated_pipe_id (Info i) of
                        None \<Rightarrow>
                          do { m \<leftarrow> drop_port_pipe env generated_pipe_id a m;
                               m \<leftarrow> destroy_pipe_info i m;
                               Some (Inl DOCA_ERROR_INVALID_VALUE, drop_new_table env port_id a is_new_table m) }
                      | Some pt \<Rightarrow>
                          Some (Inr generated_pipe_id, m\<lparr>pipe_id_to_pipe_info_table := pt\<rparr>))) } }"

section \<open>Entries and lookups\<close>

text \<open>
  The data of a table read as what the manager keeps there.
\<close>

definition find_info :: "'t pm_env \<Rightarrow> u64 \<Rightarrow> 't flow_pipes_manager \<Rightarrow> nat option" where
  "find_info env pipe_id m =
     (case h_lookup (api env) (pipe_id_to_pipe_info_table m) pipe_id of Some (Info i) \<Rightarrow> Some i | _ \<Rightarrow> None)"

definition find_pipe_id :: "'t pm_env \<Rightarrow> u64 \<Rightarrow> 't flow_pipes_manager \<Rightarrow> u64 option" where
  "find_pipe_id env entry_id m =
     (case h_lookup (api env) (entry_id_to_pipe_id_table m) entry_id of Some (Pipe_key p) \<Rightarrow> Some p | _ \<Rightarrow> None)"

text \<open>
  The test for a known entry looks up the address of the generated id, not the id: the key is the
  pointer itself.
\<close>

definition pipes_manager_pipe_add_entry ::
    "'t pm_env \<Rightarrow> nat \<Rightarrow> u64 \<Rightarrow> 't flow_pipes_manager
     \<Rightarrow> ((doca_error + u64) \<times> 't flow_pipes_manager) option" where
  "pipes_manager_pipe_add_entry env entry pipe_id m =
     do { (generated_entry_id, cell, m) \<leftarrow> generateID env entry m;
          case find_info env pipe_id m of
            None \<Rightarrow> Some (Inl DOCA_ERROR_INVALID_VALUE, m)
          | Some i \<Rightarrow>
              if \<not> h_key_at (api env) (pipe_id_to_pipe_info_table m) pipe_id
              then Some (Inl DOCA_ERROR_NOT_FOUND, m)
              else do { info \<leftarrow> infos m i;
                entries_table \<leftarrow> tabs m (pi_entries_table info);
                if h_lookup (api env) entries_table (of_nat cell) \<noteq> None
                then Some (Inl DOCA_ERROR_INVALID_VALUE, m)
                else case h_add (api env) entries_table generated_entry_id (Entry entry) of
                  None \<Rightarrow> Some (Inl DOCA_ERROR_INVALID_VALUE, m)
                | Some t \<Rightarrow>
                    let m = m\<lparr>tabs := (tabs m)(pi_entries_table info \<mapsto> t)\<rparr> in
                    (case h_add (api env) (entry_id_to_pipe_id_table m) generated_entry_id (Pipe_key pipe_id) of
                       None \<Rightarrow>
                         Some (Inl DOCA_ERROR_INVALID_VALUE,
                           m\<lparr>tabs := (tabs m)(pi_entries_table info \<mapsto> h_drop (api env) t generated_entry_id)\<rparr>)
                     | Some et \<Rightarrow>
                         Some (Inr generated_entry_id, m\<lparr>entry_id_to_pipe_id_table := et\<rparr>)) } }"

definition pipes_manager_get_pipe ::
    "'t pm_env \<Rightarrow> u64 \<Rightarrow> 't flow_pipes_manager \<Rightarrow> (doca_error + nat) option" where
  "pipes_manager_get_pipe env pipe_id m =
     (case find_info env pipe_id m of
        None \<Rightarrow> Some (Inl DOCA_ERROR_NOT_FOUND)
      | Some i \<Rightarrow> do { info \<leftarrow> infos m i; Some (Inr (pi_pipe info)) })"

definition pipes_manager_get_entry ::
    "'t pm_env \<Rightarrow> u64 \<Rightarrow> 't flow_pipes_manager \<Rightarrow> (doca_error + nat) option" where
  "pipes_manager_get_entry env entry_id m =
     (case find_pipe_id env entry_id m of
        None \<Rightarrow> Some (Inl DOCA_ERROR_NOT_FOUND)
      | Some pipe_id \<Rightarrow>
          (case find_info env pipe_id m of
             None \<Rightarrow> Some (Inl DOCA_ERROR_NOT_FOUND)
           | Some i \<Rightarrow>
               do { info \<leftarrow> infos m i;
                    t \<leftarrow> tabs m (pi_entries_table info);
                    case h_lookup (api env) t entry_id of
                      Some (Entry e) \<Rightarrow> Some (Inr e)
                    | _ \<Rightarrow> Some (Inl DOCA_ERROR_NOT_FOUND) }))"

section \<open>Removing\<close>

definition drop_entries :: "'t pm_env \<Rightarrow> u64 list \<Rightarrow> 't flow_pipes_manager \<Rightarrow> 't flow_pipes_manager" where
  "drop_entries env ids m =
     m\<lparr>entry_id_to_pipe_id_table := fold (\<lambda>k t. h_drop (api env) t k) ids (entry_id_to_pipe_id_table m)\<rparr>"

definition pipes_manager_pipe_destroy ::
    "'t pm_env \<Rightarrow> u64 \<Rightarrow> 't flow_pipes_manager \<Rightarrow> (doca_error \<times> 't flow_pipes_manager) option" where
  "pipes_manager_pipe_destroy env pipe_id m =
     (case find_info env pipe_id m of
        None \<Rightarrow> Some (DOCA_ERROR_INVALID_VALUE, m)
      | Some i \<Rightarrow>
          if \<not> h_key_at (api env) (pipe_id_to_pipe_info_table m) pipe_id then Some (DOCA_ERROR_NOT_FOUND, m)
          else do { info \<leftarrow> infos m i;
            pipes \<leftarrow> tabs m (pi_port_id_to_pipes_table info);
            case h_del (api env) pipes pipe_id of
              None \<Rightarrow> Some (DOCA_ERROR_NOT_FOUND, m)
            | Some pipes \<Rightarrow>
                let m = m\<lparr>tabs := (tabs m)(pi_port_id_to_pipes_table info \<mapsto> pipes)\<rparr> in
                do { entries \<leftarrow> tabs m (pi_entries_table info);
                     let m = drop_entries env (h_keys (api env) entries) m;
                         m = m\<lparr>pipe_id_to_pipe_info_table :=
                                h_drop (api env) (pipe_id_to_pipe_info_table m) pipe_id\<rparr>
                     in do { m \<leftarrow> destroy_pipe_info i m; Some (DOCA_SUCCESS, m) } } })"

definition pipes_manager_pipe_rm_entry ::
    "'t pm_env \<Rightarrow> u64 \<Rightarrow> 't flow_pipes_manager \<Rightarrow> (doca_error \<times> 't flow_pipes_manager) option" where
  "pipes_manager_pipe_rm_entry env entry_id m =
     (case find_pipe_id env entry_id m of
        None \<Rightarrow> Some (DOCA_ERROR_INVALID_VALUE, m)
      | Some pipe_id \<Rightarrow>
          if \<not> h_key_at (api env) (entry_id_to_pipe_id_table m) entry_id then Some (DOCA_ERROR_NOT_FOUND, m)
          else case find_info env pipe_id m of
            None \<Rightarrow> Some (DOCA_ERROR_INVALID_VALUE, m)
          | Some i \<Rightarrow>
              (case h_del (api env) (entry_id_to_pipe_id_table m) entry_id of
                 None \<Rightarrow> Some (DOCA_ERROR_NOT_FOUND, m)
               | Some et \<Rightarrow>
                   let m = m\<lparr>entry_id_to_pipe_id_table := et\<rparr> in
                   do { info \<leftarrow> infos m i;
                        t \<leftarrow> tabs m (pi_entries_table info);
                        case h_del (api env) t entry_id of
                          None \<Rightarrow> Some (DOCA_ERROR_NOT_FOUND, m)
                        | Some t \<Rightarrow> Some (DOCA_SUCCESS, m\<lparr>tabs := (tabs m)(pi_entries_table info \<mapsto> t)\<rparr>) }))"

fun flush_pipes :: "'t pm_env \<Rightarrow> u64 list \<Rightarrow> 't flow_pipes_manager \<Rightarrow> 't flow_pipes_manager option" where
  "flush_pipes env [] m = Some m"
| "flush_pipes env (pipe_id # ids) m =
     (case find_info env pipe_id m of
        None \<Rightarrow> flush_pipes env ids m
      | Some i \<Rightarrow>
          do { info \<leftarrow> infos m i;
               entries \<leftarrow> tabs m (pi_entries_table info);
               m \<leftarrow> destroy_pipe_info i (drop_entries env (h_keys (api env) entries) m);
               flush_pipes env ids
                 (m\<lparr>pipe_id_to_pipe_info_table := h_drop (api env) (pipe_id_to_pipe_info_table m) pipe_id\<rparr>) })"

definition pipes_manager_pipes_flush ::
    "'t pm_env \<Rightarrow> u16 \<Rightarrow> 't flow_pipes_manager \<Rightarrow> (doca_error \<times> 't flow_pipes_manager) option" where
  "pipes_manager_pipes_flush env port_id m =
     (case h_lookup (api env) (port_id_to_pipes_id_table m) (ucast port_id) of
        Some (Pipes_table a) \<Rightarrow>
          if \<not> h_key_at (api env) (port_id_to_pipes_id_table m) (ucast port_id) then Some (DOCA_ERROR_NOT_FOUND, m)
          else do { pipes \<leftarrow> tabs m a;
                    m \<leftarrow> flush_pipes env (h_keys (api env) pipes) m;
                    Some (DOCA_SUCCESS,
                      m\<lparr>tabs := (tabs m)(a := None),
                        port_id_to_pipes_id_table := h_drop (api env) (port_id_to_pipes_id_table m) (ucast port_id)\<rparr>) }
      | _ \<Rightarrow> Some (DOCA_ERROR_INVALID_VALUE, m))"

section \<open>Laws of the tables\<close>

lemma hash_lawsD:
  assumes "hash_laws a"
  shows "h_create a n = Some t \<Longrightarrow> h_lookup a t k = None"
    and "h_add a t k v = Some t' \<Longrightarrow> h_lookup a t' = (h_lookup a t)(k \<mapsto> v)"
    and "h_del a t k = None \<longleftrightarrow> h_lookup a t k = None"
    and "h_del a t k = Some t' \<Longrightarrow> h_lookup a t' = (h_lookup a t)(k := None)"
    and "h_lookup a t k \<noteq> None \<Longrightarrow> h_key_at a t k"
    and "set (h_keys a t) = dom (h_lookup a t)"
  using assms unfolding hash_laws_def by blast+

lemma h_drop_lookup: "hash_laws a \<Longrightarrow> h_lookup a (h_drop a t k) = (h_lookup a t)(k := None)"
  using hash_lawsD(3,4) [of a] by (auto simp: h_drop_def fun_eq_iff split: option.split)

lemma drop_entries_lookup:
  assumes "hash_laws (api env)"
  shows "h_lookup (api env) (entry_id_to_pipe_id_table (drop_entries env ids m)) k =
    (if k \<in> set ids then None else h_lookup (api env) (entry_id_to_pipe_id_table m) k)"
proof -
  have "h_lookup (api env) (fold (\<lambda>k t. h_drop (api env) t k) ids t) k =
      (if k \<in> set ids then None else h_lookup (api env) t k)" for t
    by (induction ids arbitrary: t) (auto simp: h_drop_lookup [OF assms])
  then show ?thesis by (simp add: drop_entries_def)
qed

text \<open>Association lists satisfy the laws.\<close>

definition alist_api :: "(u64 \<times> hval) list hash_api" where
  "alist_api = \<lparr>h_create = \<lambda>_. Some [], h_lookup = map_of, h_key_at = \<lambda>t k. map_of t k \<noteq> None,
     h_add = \<lambda>t k v. Some ((k, v) # t),
     h_del = \<lambda>t k. if map_of t k = None then None else Some (filter (\<lambda>p. fst p \<noteq> k) t),
     h_keys = map fst\<rparr>"

lemma alist_api_laws: "hash_laws alist_api"
proof -
  have "map_of (filter (\<lambda>p. fst p \<noteq> k) t) = (map_of t)(k := None)" for k :: u64 and t :: "(u64 \<times> hval) list"
    by (induction t) (auto simp: fun_eq_iff)
  then show ?thesis
    by (auto simp: hash_laws_def alist_api_def dom_map_of_conv_image_fst)
qed

definition alist_env :: "(u64 \<times> hval) list pm_env" where
  "alist_env = \<lparr>api = alist_api, malloc_ok = \<lambda>_. True, obj = \<lambda>a. replicate 8 (of_nat a)\<rparr>"

definition alist_manager :: "(u64 \<times> hval) list flow_pipes_manager" where
  "alist_manager = \<lparr>pipe_id_to_pipe_info_table = [], entry_id_to_pipe_id_table = [],
     port_id_to_pipes_id_table = [], tabs = (\<lambda>_. None), infos = (\<lambda>_. None), pm_allocs = 4\<rparr>"

lemmas alist_defs = alist_env_def alist_api_def alist_manager_def

section \<open>Properties\<close>

text \<open>C12. A pipe that was created is found under the id that the manager returns, which was free
  before; the id is the FNV-1a hash of the first eight bytes of the pipe object.\<close>

theorem pipe_create_get:
  assumes "hash_laws (api env)" and "pipes_manager_pipe_create env pipe port_id m = Some (Inr pipe_id, m')"
  shows "pipes_manager_get_pipe env pipe_id m' = Some (Inr pipe)
    \<and> pipe_id = fnv1a (take 8 (obj env pipe))
    \<and> h_lookup (api env) (pipe_id_to_pipe_info_table m) pipe_id = None"
proof -
  let ?id = "fnv1a (take 8 (obj env pipe))"
  have port: "pipe_id_to_pipe_info_table m2 = pipe_id_to_pipe_info_table m1"
    if "port_pipes_table env port_id k m1 = Some (r, m2)" for k r m1 m2
    using that by (auto simp: port_pipes_table_def Let_def bind_eq_Some_conv split: option.splits hval.splits if_split_asm)
  from assms(2) obtain a is_new m2 i m3 pt where
      ids: "pipe_id = ?id" "h_lookup (api env) (pipe_id_to_pipe_info_table m) ?id = None"
    and "port_pipes_table env port_id ?id (m\<lparr>pm_allocs := Suc (pm_allocs m)\<rparr>) = Some (Inr (a, is_new), m2)"
    and info: "create_pipe_info env pipe a m2 = (Some i, m3)"
    and pt: "h_add (api env) (pipe_id_to_pipe_info_table m3) ?id (Info i) = Some pt"
    and m': "m' = m3\<lparr>pipe_id_to_pipe_info_table := pt\<rparr>"
    by (auto simp: pipes_manager_pipe_create_def generateID_def bind_eq_Some_conv case_sum_eq_conv
        case_option_eq_conv split_beta prod_eq_iff split: if_split_asm)
  have "infos m3 i \<noteq> None \<and> pi_pipe (the (infos m3 i)) = pipe"
    using info by (auto simp: create_pipe_info_def Let_def split: option.splits if_split_asm)
  then show ?thesis
    using ids hash_lawsD(2) [OF assms(1) pt]
    by (auto simp: pipes_manager_get_pipe_def find_info_def m')
qed

theorem pipe_create_get_witness:
  "\<exists>pipe_id m. pipes_manager_pipe_create alist_env 5 1 alist_manager = Some (Inr pipe_id, m)
     \<and> pipes_manager_get_pipe alist_env pipe_id m = Some (Inr 5)"
proof -
  obtain pipe_id m where c: "pipes_manager_pipe_create alist_env 5 1 alist_manager = Some (Inr pipe_id, m)"
    by (simp add: pipes_manager_pipe_create_def generateID_def port_pipes_table_def create_pipe_info_def
        alist_defs)
  show ?thesis
    using pipe_create_get [OF _ c] c alist_api_laws by (auto simp: alist_env_def)
qed

text \<open>C14. An entry that was added to a pipe is found under the id that the manager returns, and is
  no longer found after it was removed.\<close>

theorem add_entry_get_rm:
  assumes "hash_laws (api env)" and "pipes_manager_pipe_add_entry env entry pipe_id m = Some (Inr entry_id, m')"
  shows "pipes_manager_get_entry env entry_id m' = Some (Inr entry)
    \<and> (\<exists>m''. pipes_manager_pipe_rm_entry env entry_id m' = Some (DOCA_SUCCESS, m'')
         \<and> pipes_manager_get_entry env entry_id m'' = Some (Inl DOCA_ERROR_NOT_FOUND))"
proof -
  let ?id = "fnv1a (take 8 (obj env entry))"
  from assms(2) obtain i info t0 t et where id: "entry_id = ?id"
    and i: "find_info env pipe_id m = Some i" "infos m i = Some info" "tabs m (pi_entries_table info) = Some t0"
    and t: "h_add (api env) t0 ?id (Entry entry) = Some t"
    and et: "h_add (api env) (entry_id_to_pipe_id_table m) ?id (Pipe_key pipe_id) = Some et"
    and m': "m' = m\<lparr>pm_allocs := Suc (pm_allocs m), tabs := (tabs m)(pi_entries_table info \<mapsto> t),
              entry_id_to_pipe_id_table := et\<rparr>"
    by (auto simp: pipes_manager_pipe_add_entry_def generateID_def bind_eq_Some_conv case_option_eq_conv
        find_info_def Let_def split: if_split_asm)
  note l = hash_lawsD(2) [OF assms(1) t] hash_lawsD(2) [OF assms(1) et]
  have find: "find_info env pipe_id m' = Some i" "find_pipe_id env ?id m' = Some pipe_id"
    using i(1) l by (auto simp: m' find_info_def find_pipe_id_def)
  have get: "pipes_manager_get_entry env entry_id m' = Some (Inr entry)"
    using find i l by (simp add: id pipes_manager_get_entry_def) (simp add: m')
  have key: "h_key_at (api env) et ?id" using hash_lawsD(5) [OF assms(1), of et ?id] l by simp
  obtain et' where et': "h_del (api env) et ?id = Some et'"
    using hash_lawsD(3) [OF assms(1), of et ?id] l by auto
  obtain t' where t': "h_del (api env) t ?id = Some t'"
    using hash_lawsD(3) [OF assms(1), of t ?id] l by auto
  have "pipes_manager_pipe_rm_entry env entry_id m' =
      Some (DOCA_SUCCESS, m'\<lparr>entry_id_to_pipe_id_table := et', tabs := (tabs m')(pi_entries_table info \<mapsto> t')\<rparr>)"
    using find key et' t' i by (simp add: id pipes_manager_pipe_rm_entry_def) (simp add: m')
  moreover have "h_lookup (api env) et' ?id = None"
    using hash_lawsD(4) [OF assms(1) et'] by simp
  ultimately show ?thesis
    using get by (auto simp: pipes_manager_get_entry_def find_pipe_id_def id)
qed

theorem add_entry_get_rm_witness:
  "\<exists>entry_id m. pipes_manager_pipe_add_entry alist_env 9 (fnv1a (replicate 8 5))
       (snd (the (pipes_manager_pipe_create alist_env 5 1 alist_manager))) = Some (Inr entry_id, m)
     \<and> pipes_manager_get_entry alist_env entry_id m = Some (Inr 9)"
proof -
  obtain entry_id m where c: "pipes_manager_pipe_add_entry alist_env 9 (fnv1a (replicate 8 5))
       (snd (the (pipes_manager_pipe_create alist_env 5 1 alist_manager))) = Some (Inr entry_id, m)"
    by (simp add: pipes_manager_pipe_create_def generateID_def port_pipes_table_def create_pipe_info_def
        pipes_manager_pipe_add_entry_def find_info_def alist_defs)
  show ?thesis
    using add_entry_get_rm [OF _ c] c alist_api_laws by (auto simp: alist_env_def)
qed

text \<open>The test for an entry that is already known never sees it: it looks up the address of the
  new id instead of the id. An entry whose id is taken replaces the one that is stored, and the
  caller gets a success, although the code has an error for it.\<close>

theorem add_entry_replaces:
  assumes "hash_laws (api env)" and "malloc_ok env (pm_allocs m)"
    and "find_info env pipe_id m = Some i" and "infos m i = Some info"
    and "tabs m (pi_entries_table info) = Some t"
    and "h_lookup (api env) t (fnv1a (take 8 (obj env entry))) = Some (Entry old)"
    and "h_lookup (api env) t (of_nat (pm_allocs m)) = None"
    and "h_add (api env) t (fnv1a (take 8 (obj env entry))) (Entry entry) = Some t'"
    and "h_add (api env) (entry_id_to_pipe_id_table m) (fnv1a (take 8 (obj env entry))) (Pipe_key pipe_id) = Some et"
  shows "\<exists>m'. pipes_manager_pipe_add_entry env entry pipe_id m = Some (Inr (fnv1a (take 8 (obj env entry))), m')
    \<and> pipes_manager_get_entry env (fnv1a (take 8 (obj env entry))) m' = Some (Inr entry)"
proof -
  have "h_lookup (api env) (pipe_id_to_pipe_info_table m) pipe_id = Some (Info i)"
    using assms(3) by (auto simp: find_info_def split: option.splits hval.splits)
  moreover from this have "h_key_at (api env) (pipe_id_to_pipe_info_table m) pipe_id"
    using hash_lawsD(5) [OF assms(1)] by simp
  ultimately show ?thesis
    using assms(2-9) hash_lawsD(2) [OF assms(1) assms(8)] hash_lawsD(2) [OF assms(1) assms(9)]
    by (simp add: pipes_manager_pipe_add_entry_def generateID_def find_info_def pipes_manager_get_entry_def
        find_pipe_id_def)
qed

lemma fnv1a_nines: "fnv1a (replicate 8 9) \<noteq> 4"
  by code_simp

theorem add_entry_replaces_witness:
  "\<exists>m'. pipes_manager_pipe_add_entry alist_env 9 7
       (alist_manager\<lparr>pipe_id_to_pipe_info_table := [(7, Info 0)],
          infos := (\<lambda>_. None)(0 := Some \<lparr>pi_pipe = 5, pi_entries_table = 1, pi_port_id_to_pipes_table = 2\<rparr>),
          tabs := (\<lambda>_. None)(1 := Some [(fnv1a (replicate 8 9), Entry 3)])\<rparr>)
     = Some (Inr (fnv1a (replicate 8 9)), m')"
  using add_entry_replaces [of alist_env
      "alist_manager\<lparr>pipe_id_to_pipe_info_table := [(7, Info 0)],
          infos := (\<lambda>_. None)(0 := Some \<lparr>pi_pipe = 5, pi_entries_table = 1, pi_port_id_to_pipes_table = 2\<rparr>),
          tabs := (\<lambda>_. None)(1 := Some [(fnv1a (replicate 8 9), Entry 3)])\<rparr>"
      7 0 "\<lparr>pi_pipe = 5, pi_entries_table = 1, pi_port_id_to_pipes_table = 2\<rparr>"
      "[(fnv1a (replicate 8 9), Entry 3)]" 9 3] alist_api_laws fnv1a_nines
  by (auto simp: alist_defs find_info_def)

end
