(* ===== verification/Ipsec_Types.thy ===== *)
theory Ipsec_Types
  imports Flow_Types Antireplay
begin

text \<open>
  The data of the IPsec security gateway (\<^verbatim>\<open>ipsec_security_gw/ipsec_ctx.h\<close>, \<^verbatim>\<open>flow_common.h\<close>) that
  its policy channel and its packet path share: security associations, rules, modes and the
  packet metadata. A union of IPv4 and IPv6 addresses is its words; the IPv4 members are the
  first of them.
\<close>

section \<open>Modes\<close>

datatype ipsec_security_gw_mode =
  IPSEC_SECURITY_GW_TUNNEL | IPSEC_SECURITY_GW_TRANSPORT | IPSEC_SECURITY_GW_UDP_TRANSPORT

datatype ipsec_security_gw_flow_mode = IPSEC_SECURITY_GW_VNF | IPSEC_SECURITY_GW_SWITCH

datatype ipsec_security_gw_esp_offload =
  IPSEC_SECURITY_GW_ESP_OFFLOAD_BOTH | IPSEC_SECURITY_GW_ESP_OFFLOAD_ENCAP
  | IPSEC_SECURITY_GW_ESP_OFFLOAD_DECAP | IPSEC_SECURITY_GW_ESP_OFFLOAD_NONE

datatype ipsec_security_gw_fwd_syndrome =
  IPSEC_SECURITY_GW_FWD_SYNDROME_DROP | IPSEC_SECURITY_GW_FWD_SYNDROME_RSS

section \<open>Security associations and rules\<close>

datatype doca_flow_crypto_key_type = DOCA_FLOW_CRYPTO_KEY_128 | DOCA_FLOW_CRYPTO_KEY_256

datatype doca_flow_crypto_icv_len =
  DOCA_FLOW_CRYPTO_ICV_LENGTH_8 | DOCA_FLOW_CRYPTO_ICV_LENGTH_12 | DOCA_FLOW_CRYPTO_ICV_LENGTH_16

definition MAX_KEY_LEN :: nat where "MAX_KEY_LEN = 32"
definition MAX_NB_RULES :: nat where "MAX_NB_RULES = 1048576"
definition DYN_RESERVED_RULES :: nat where "DYN_RESERVED_RULES = 1024"

record ipsec_security_gw_sa_attrs =
  sa_icv_length :: doca_flow_crypto_icv_len
  sa_key_type :: doca_flow_crypto_key_type
  sa_enc_key_data :: "u8 list"
  sa_salt :: u32

text \<open>The entries of the bad syndromes are counters of the hardware; they are left out.\<close>

record decrypt_rule =
  dr_l3_type :: doca_flow_l3_type
  dr_dst_ip :: "u32 list"
  dr_esp_spi :: u32
  dr_inner_l3_type :: doca_flow_l3_type
  dr_sa_attrs :: ipsec_security_gw_sa_attrs
  dr_antireplay_state :: antireplay_state

record encrypt_rule =
  er_l3_type :: doca_flow_l3_type
  er_protocol :: doca_flow_l4_type_ext
  er_ip :: "u32 list"
  er_src_port :: u32
  er_dst_port :: u32
  er_encap_l3_type :: doca_flow_l3_type
  er_encap_dst_ip :: "u32 list"
  er_esp_spi :: u32
  er_current_sn :: u32
  er_sa_attrs :: ipsec_security_gw_sa_attrs

text \<open>What \<^verbatim>\<open>calloc\<close> leaves in an array of rules.\<close>

definition zero_sa_attrs :: ipsec_security_gw_sa_attrs where
  "zero_sa_attrs = \<lparr>sa_icv_length = DOCA_FLOW_CRYPTO_ICV_LENGTH_8, sa_key_type = DOCA_FLOW_CRYPTO_KEY_128,
     sa_enc_key_data = replicate MAX_KEY_LEN 0, sa_salt = 0\<rparr>"

definition zero_decrypt_rule :: decrypt_rule where
  "zero_decrypt_rule = \<lparr>dr_l3_type = DOCA_FLOW_L3_TYPE_NONE, dr_dst_ip = replicate 4 0, dr_esp_spi = 0,
     dr_inner_l3_type = DOCA_FLOW_L3_TYPE_NONE, dr_sa_attrs = zero_sa_attrs,
     dr_antireplay_state = \<lparr>window_size = 0, end_win_sn = 0, bitmap = 0\<rparr>\<rparr>"

definition zero_encrypt_rule :: encrypt_rule where
  "zero_encrypt_rule = \<lparr>er_l3_type = DOCA_FLOW_L3_TYPE_NONE, er_protocol = DOCA_FLOW_L4_TYPE_EXT_NONE,
     er_ip = replicate 8 0, er_src_port = 0, er_dst_port = 0, er_encap_l3_type = DOCA_FLOW_L3_TYPE_NONE,
     er_encap_dst_ip = replicate 4 0, er_esp_spi = 0, er_current_sn = 0, er_sa_attrs = zero_sa_attrs\<rparr>"

text \<open>\<^verbatim>\<open>get_icv_len_int\<close> of \<^verbatim>\<open>flow_common.c\<close>.\<close>

definition get_icv_len_int :: "doca_flow_crypto_icv_len \<Rightarrow> u32" where
  "get_icv_len_int icv_len =
     (case icv_len of
        DOCA_FLOW_CRYPTO_ICV_LENGTH_8 \<Rightarrow> 8
      | DOCA_FLOW_CRYPTO_ICV_LENGTH_12 \<Rightarrow> 12
      | DOCA_FLOW_CRYPTO_ICV_LENGTH_16 \<Rightarrow> 16)"

section \<open>Packet metadata\<close>

text \<open>
  \<^verbatim>\<open>union security_gateway_pkt_meta\<close>: bit fields from the low end of the word on. \<open>meta_field v o n\<close>
  is the \<open>n\<close> bits at offset \<open>o\<close>.
\<close>

definition meta_field :: "u32 \<Rightarrow> nat \<Rightarrow> nat \<Rightarrow> u32" where
  "meta_field v off n = take_bit n (drop_bit off v)"

definition meta_encrypt :: "u32 \<Rightarrow> bool" where "meta_encrypt v = (meta_field v 0 1 \<noteq> 0)"
definition meta_decrypt :: "u32 \<Rightarrow> bool" where "meta_decrypt v = (meta_field v 1 1 \<noteq> 0)"
definition meta_icv_size :: "u32 \<Rightarrow> u32" where "meta_icv_size v = meta_field v 2 2"
definition meta_inner_ipv6 :: "u32 \<Rightarrow> bool" where "meta_inner_ipv6 v = (meta_field v 4 1 \<noteq> 0)"
definition meta_decrypt_syndrome :: "u32 \<Rightarrow> u32" where "meta_decrypt_syndrome v = meta_field v 5 2"
definition meta_antireplay_syndrome :: "u32 \<Rightarrow> u32" where "meta_antireplay_syndrome v = meta_field v 7 2"
definition meta_rule_id :: "u32 \<Rightarrow> u32" where "meta_rule_id v = meta_field v 12 20"

end
