(* ===== verification/Ipsec_Policy.thy ===== *)
theory Ipsec_Policy
  imports Ipsec_Types Flow_Values Pack
begin

text \<open>
  The policy channel of the IPsec security gateway: policy records arrive on a local socket, each
  behind a four byte length (\<^verbatim>\<open>fill_buffer_from_socket\<close>, \<^verbatim>\<open>read_message_length\<close>,
  \<^verbatim>\<open>read_message_from_socket\<close> and \<^verbatim>\<open>unpack_policy_buffer\<close> of \<^verbatim>\<open>ipsec_security_gw.c\<close>), and become
  rules (\<^verbatim>\<open>policy.c\<close>). The wire format is the one documented in \<^verbatim>\<open>policy.h\<close>.
\<close>

section \<open>Policies\<close>

definition MAX_IP_ADDR_LEN :: nat where "MAX_IP_ADDR_LEN = 46"
definition POLICY_DIR_IN :: u8 where "POLICY_DIR_IN = 0"
definition POLICY_DIR_OUT :: u8 where "POLICY_DIR_OUT = 1"
definition POLICY_MODE_TRANSPORT :: u8 where "POLICY_MODE_TRANSPORT = 0"
definition POLICY_MODE_TUNNEL :: u8 where "POLICY_MODE_TUNNEL = 1"
definition POLICY_L3_TYPE_IPV4 :: u8 where "POLICY_L3_TYPE_IPV4 = 4"
definition POLICY_L3_TYPE_IPV6 :: u8 where "POLICY_L3_TYPE_IPV6 = 6"
definition POLICY_L4_TYPE_UDP :: u8 where "POLICY_L4_TYPE_UDP = 17"
definition POLICY_L4_TYPE_TCP :: u8 where "POLICY_L4_TYPE_TCP = 6"
definition POLICY_KEY_TYPE_128 :: u8 where "POLICY_KEY_TYPE_128 = 0"
definition POLICY_KEY_TYPE_256 :: u8 where "POLICY_KEY_TYPE_256 = 1"
definition POLICY_RECORD_MIN_SIZE :: u32 where "POLICY_RECORD_MIN_SIZE = 224"
definition POLICY_RECORD_MAX_SIZE :: u32 where "POLICY_RECORD_MAX_SIZE = 240"

record ipsec_policy =
  pol_src_port :: u16
  pol_dst_port :: u16
  pol_l3_protocol :: u8
  pol_l4_protocol :: u8
  pol_outer_l3_protocol :: u8
  pol_policy_direction :: u8
  pol_policy_mode :: u8
  pol_esn :: u8
  pol_icv_length :: u8
  pol_key_type :: u8
  pol_spi :: u32
  pol_salt :: u32
  pol_enc_key_data :: "u8 list"
  pol_src_ip_addr :: "u8 list"
  pol_dst_ip_addr :: "u8 list"
  pol_outer_src_ip :: "u8 list"
  pol_outer_dst_ip :: "u8 list"

text \<open>The policy after the \<^verbatim>\<open>memset\<close> of the receiving loop.\<close>

definition zero_policy :: ipsec_policy where
  "zero_policy = \<lparr>pol_src_port = 0, pol_dst_port = 0, pol_l3_protocol = 0, pol_l4_protocol = 0,
     pol_outer_l3_protocol = 0, pol_policy_direction = 0, pol_policy_mode = 0, pol_esn = 0,
     pol_icv_length = 0, pol_key_type = 0, pol_spi = 0, pol_salt = 0,
     pol_enc_key_data = replicate MAX_KEY_LEN 0,
     pol_src_ip_addr = replicate (Suc MAX_IP_ADDR_LEN) 0, pol_dst_ip_addr = replicate (Suc MAX_IP_ADDR_LEN) 0,
     pol_outer_src_ip = replicate (Suc MAX_IP_ADDR_LEN) 0, pol_outer_dst_ip = replicate (Suc MAX_IP_ADDR_LEN) 0\<rparr>"

text \<open>An address field: the bytes of the record, the last of them replaced by the terminator.\<close>

definition unpack_addr :: "cursor \<Rightarrow> (u8 list \<times> cursor) option" where
  "unpack_addr ptr =
     do { (a, ptr) \<leftarrow> unpack_blob (MAX_IP_ADDR_LEN + 1) ptr; Some (a[MAX_IP_ADDR_LEN := 0], ptr) }"

definition unpack_policy_buffer :: "u8 list \<Rightarrow> u32 \<Rightarrow> ipsec_policy \<Rightarrow> ipsec_policy option" where
  "unpack_policy_buffer buf nb_bytes policy =
     do { (src_port, ptr) \<leftarrow> unpack_uint16 \<lparr>mem = buf, head = 0\<rparr>;
          (dst_port, ptr) \<leftarrow> unpack_uint16 ptr;
          (l3_protocol, ptr) \<leftarrow> unpack_uint8 ptr;
          (l4_protocol, ptr) \<leftarrow> unpack_uint8 ptr;
          (outer_l3_protocol, ptr) \<leftarrow> unpack_uint8 ptr;
          (policy_direction, ptr) \<leftarrow> unpack_uint8 ptr;
          (policy_mode, ptr) \<leftarrow> unpack_uint8 ptr;
          (esn, ptr) \<leftarrow> unpack_uint8 ptr;
          (icv_length, ptr) \<leftarrow> unpack_uint8 ptr;
          (key_type, ptr) \<leftarrow> unpack_uint8 ptr;
          (spi, ptr) \<leftarrow> unpack_uint32 ptr;
          (salt, ptr) \<leftarrow> unpack_uint32 ptr;
          (src_ip_addr, ptr) \<leftarrow> unpack_addr ptr;
          (dst_ip_addr, ptr) \<leftarrow> unpack_addr ptr;
          (outer_src_ip, ptr) \<leftarrow> unpack_addr ptr;
          (outer_dst_ip, ptr) \<leftarrow> unpack_addr ptr;
          (key, ptr) \<leftarrow> unpack_blob (if nb_bytes = POLICY_RECORD_MAX_SIZE then 32 else 16) ptr;
          Some (policy\<lparr>pol_src_port := src_port, pol_dst_port := dst_port, pol_l3_protocol := l3_protocol,
            pol_l4_protocol := l4_protocol, pol_outer_l3_protocol := outer_l3_protocol,
            pol_policy_direction := policy_direction, pol_policy_mode := policy_mode, pol_esn := esn,
            pol_icv_length := icv_length, pol_key_type := key_type, pol_spi := spi, pol_salt := salt,
            pol_src_ip_addr := src_ip_addr, pol_dst_ip_addr := dst_ip_addr,
            pol_outer_src_ip := outer_src_ip, pol_outer_dst_ip := outer_dst_ip,
            pol_enc_key_data := key @ drop (length key) (pol_enc_key_data policy)\<rparr>) }"

section \<open>The socket\<close>

text \<open>
  What the connection has in store for the calls of \<^verbatim>\<open>recv\<close>, in order: bytes that have arrived, a
  call that would block, a failing call. No bytes are the end of the stream; when nothing is left
  a call would block.
\<close>

datatype recv_event = Arrived "u8 list" | Would_block | Recv_failed

datatype recv_result = Received "u8 list" | Again | Failed

fun recv :: "nat \<Rightarrow> recv_event list \<Rightarrow> recv_result \<times> recv_event list" where
  "recv n [] = (Again, [])"
| "recv n (Would_block # es) = (Again, es)"
| "recv n (Recv_failed # es) = (Failed, es)"
| "recv n (Arrived bs # es) =
     (Received (take n bs), if length bs \<le> n then es else Arrived (drop n bs) # es)"

text \<open>Bytes stored from an offset of an array on; beyond its end is undefined.\<close>

definition store_at :: "u8 list \<Rightarrow> nat \<Rightarrow> u8 list \<Rightarrow> u8 list option" where
  "store_at buf off bs =
     (if off + length bs \<le> length buf then Some (take off buf @ bs @ drop (off + length bs) buf) else None)"

function fill_loop ::
    "nat \<Rightarrow> nat \<Rightarrow> recv_event list \<Rightarrow> u8 list \<Rightarrow> (doca_error \<times> u8 list \<times> recv_event list) option" where
  "fill_loop bytes_to_read bytes_received es buf =
     (case recv (bytes_to_read - bytes_received) es of
        (Again, es) \<Rightarrow> Some (DOCA_ERROR_AGAIN, buf, es)
      | (Failed, es) \<Rightarrow> Some (DOCA_ERROR_IO_FAILED, buf, es)
      | (Received bs, es) \<Rightarrow>
          if bs = [] then Some (DOCA_ERROR_AGAIN, buf, es)
          else (case store_at buf bytes_received bs of
                  None \<Rightarrow> None
                | Some buf \<Rightarrow>
                    if bytes_received + length bs < bytes_to_read
                    then fill_loop bytes_to_read (bytes_received + length bs) es buf
                    else Some (DOCA_SUCCESS, buf, es)))"
  by pat_completeness auto
termination
  by (relation "measure (\<lambda>(n, k, _). n - k)") (auto simp: neq_Nil_conv)

declare fill_loop.simps [simp del]

definition fill_buffer_from_socket ::
    "nat \<Rightarrow> recv_event list \<Rightarrow> u8 list \<Rightarrow> (doca_error \<times> u8 list \<times> recv_event list) option" where
  "fill_buffer_from_socket bytes_to_read es buf = fill_loop bytes_to_read 0 es buf"

definition read_message_length :: "recv_event list \<Rightarrow> ((doca_error + u32) \<times> recv_event list) option" where
  "read_message_length es =
     do { (result, buf, es) \<leftarrow> fill_buffer_from_socket 4 es (replicate 8 0);
          if result \<noteq> DOCA_SUCCESS then Some (Inl result, es)
          else do { (policy_length, _) \<leftarrow> unpack_uint32 \<lparr>mem = buf, head = 0\<rparr>;
                    if policy_length \<noteq> POLICY_RECORD_MIN_SIZE \<and> policy_length \<noteq> POLICY_RECORD_MAX_SIZE
                    then Some (Inl DOCA_ERROR_IO_FAILED, es)
                    else Some (Inr policy_length, es) } }"

definition read_message_from_socket ::
    "recv_event list \<Rightarrow> ipsec_policy \<Rightarrow> (doca_error \<times> ipsec_policy \<times> recv_event list) option" where
  "read_message_from_socket es policy =
     do { (len, es) \<leftarrow> read_message_length es;
          case len of
            Inl result \<Rightarrow> Some (result, policy, es)
          | Inr policy_length \<Rightarrow>
              do { (result, buffer, es) \<leftarrow>
                     fill_buffer_from_socket (unat policy_length) es (replicate 1024 0);
                   if result \<noteq> DOCA_SUCCESS then Some (result, policy, es)
                   else do { policy \<leftarrow> unpack_policy_buffer buffer policy_length policy;
                             Some (DOCA_SUCCESS, policy, es) } } }"

section \<open>From policies to rules\<close>

definition convert_to_doca_icv :: "u8 \<Rightarrow> doca_error + doca_flow_crypto_icv_len" where
  "convert_to_doca_icv icv_length =
     (if icv_length = 8 then Inr DOCA_FLOW_CRYPTO_ICV_LENGTH_8
      else if icv_length = 12 then Inr DOCA_FLOW_CRYPTO_ICV_LENGTH_12
      else if icv_length = 16 then Inr DOCA_FLOW_CRYPTO_ICV_LENGTH_16
      else Inl DOCA_ERROR_NOT_SUPPORTED)"

definition convert_to_doca_key_type :: "u8 \<Rightarrow> doca_flow_crypto_key_type" where
  "convert_to_doca_key_type key_type =
     (if key_type = POLICY_KEY_TYPE_128 then DOCA_FLOW_CRYPTO_KEY_128 else DOCA_FLOW_CRYPTO_KEY_256)"

definition parse_sa_attrs ::
    "ipsec_policy \<Rightarrow> ipsec_security_gw_sa_attrs \<Rightarrow> doca_error \<times> ipsec_security_gw_sa_attrs" where
  "parse_sa_attrs policy sa_attrs =
     (let sa_attrs = sa_attrs\<lparr>sa_key_type := convert_to_doca_key_type (pol_key_type policy),
                              sa_enc_key_data := pol_enc_key_data policy, sa_salt := pol_salt policy\<rparr>
      in case convert_to_doca_icv (pol_icv_length policy) of
           Inl result \<Rightarrow> (result, sa_attrs)
         | Inr icv_length \<Rightarrow> (DOCA_SUCCESS, sa_attrs\<lparr>sa_icv_length := icv_length\<rparr>))"

text \<open>A character array of the policy as a C string.\<close>

definition addr_str :: "u8 list \<Rightarrow> string" where
  "addr_str a = map (\<lambda>b. char_of (unat b)) (takeWhile (\<lambda>b. b \<noteq> 0) a)"

text \<open>\<^verbatim>\<open>parse_ipv4_str\<close> into the first word or a given word of a union, \<^verbatim>\<open>parse_ipv6_str\<close> into four of them.\<close>

definition put_ipv4 :: "u8 list \<Rightarrow> nat \<Rightarrow> u32 list \<Rightarrow> doca_error \<times> u32 list" where
  "put_ipv4 a i ws = (case parse_ipv4_str (addr_str a) of
     Inl result \<Rightarrow> (result, ws) | Inr ip \<Rightarrow> (DOCA_SUCCESS, ws[i := ip]))"

definition put_ipv6 :: "u8 list \<Rightarrow> nat \<Rightarrow> u32 list \<Rightarrow> u32 list option" where
  "put_ipv6 a i ws =
     do { ip \<leftarrow> parse_ipv6_str (addr_str a); Some (take i ws @ ip @ drop (i + 4) ws) }"

text \<open>The table of IPv6 addresses (\<^verbatim>\<open>rte_hash\<close>): lookup of a key and adding one, which may fail.\<close>

record 't ip6_table_api =
  ip6_lookup :: "'t \<Rightarrow> u32 list \<Rightarrow> nat option"
  ip6_add_key :: "'t \<Rightarrow> u32 list \<Rightarrow> 't option"

definition ip6_enter :: "'t ip6_table_api \<Rightarrow> u32 list \<Rightarrow> 't \<Rightarrow> doca_error \<times> 't" where
  "ip6_enter api ip t =
     (case ip6_lookup api t ip of
        Some _ \<Rightarrow> (DOCA_SUCCESS, t)
      | None \<Rightarrow> (case ip6_add_key api t ip of
                   None \<Rightarrow> (DOCA_ERROR_DRIVER, t) | Some t \<Rightarrow> (DOCA_SUCCESS, t)))"

text \<open>The inner addresses of an encryption policy: the rule and the table.\<close>

definition encrypt_parse_inner ::
    "'t ip6_table_api \<Rightarrow> ipsec_policy \<Rightarrow> encrypt_rule \<Rightarrow> 't \<Rightarrow> (doca_error \<times> encrypt_rule \<times> 't) option" where
  "encrypt_parse_inner api policy rule t =
     (if er_l3_type rule = DOCA_FLOW_L3_TYPE_IP4 then
        let (result, ws) = put_ipv4 (pol_src_ip_addr policy) 0 (er_ip rule); rule = rule\<lparr>er_ip := ws\<rparr> in
        if result \<noteq> DOCA_SUCCESS then Some (result, rule, t)
        else let (result, ws) = put_ipv4 (pol_dst_ip_addr policy) 1 (er_ip rule)
             in Some (result, rule\<lparr>er_ip := ws\<rparr>, t)
      else
        do { ws \<leftarrow> put_ipv6 (pol_src_ip_addr policy) 0 (er_ip rule);
             let (result, t) = ip6_enter api (take 4 ws) t;
             if result \<noteq> DOCA_SUCCESS then Some (result, rule\<lparr>er_ip := ws\<rparr>, t)
             else do { ws \<leftarrow> put_ipv6 (pol_dst_ip_addr policy) 4 ws;
                       let (result, t) = ip6_enter api (take 4 (drop 4 ws)) t;
                       Some (result, rule\<lparr>er_ip := ws\<rparr>, t) } })"

definition encrypt_parse_outer :: "ipsec_policy \<Rightarrow> encrypt_rule \<Rightarrow> (doca_error \<times> encrypt_rule) option" where
  "encrypt_parse_outer policy rule =
     (if pol_policy_mode policy = POLICY_MODE_TUNNEL then
        let rule = rule\<lparr>er_encap_l3_type := (if pol_outer_l3_protocol policy = POLICY_L3_TYPE_IPV4
                          then DOCA_FLOW_L3_TYPE_IP4 else DOCA_FLOW_L3_TYPE_IP6)\<rparr>
        in if er_encap_l3_type rule = DOCA_FLOW_L3_TYPE_IP4
           then let (result, ws) = put_ipv4 (pol_outer_dst_ip policy) 0 (er_encap_dst_ip rule)
                in Some (result, rule\<lparr>er_encap_dst_ip := ws\<rparr>)
           else do { ws \<leftarrow> put_ipv6 (pol_outer_dst_ip policy) 0 (er_encap_dst_ip rule);
                     Some (DOCA_SUCCESS, rule\<lparr>er_encap_dst_ip := ws\<rparr>) }
      else Some (DOCA_SUCCESS, rule))"

definition ipsec_security_gw_policy_encrypt_parse ::
    "'t ip6_table_api \<Rightarrow> ipsec_policy \<Rightarrow> encrypt_rule \<Rightarrow> 't \<Rightarrow> (doca_error \<times> encrypt_rule \<times> 't) option" where
  "ipsec_security_gw_policy_encrypt_parse api policy rule t =
     (let rule = rule\<lparr>er_esp_spi := pol_spi policy,
            er_l3_type := (if pol_l3_protocol policy = POLICY_L3_TYPE_IPV4
                           then DOCA_FLOW_L3_TYPE_IP4 else DOCA_FLOW_L3_TYPE_IP6),
            er_protocol := (if pol_l4_protocol policy = POLICY_L4_TYPE_UDP
                            then DOCA_FLOW_L4_TYPE_EXT_UDP else DOCA_FLOW_L4_TYPE_EXT_TCP),
            er_src_port := ucast (pol_src_port policy), er_dst_port := ucast (pol_dst_port policy)\<rparr>
      in do { (result, rule, t) \<leftarrow> encrypt_parse_inner api policy rule t;
              if result \<noteq> DOCA_SUCCESS then Some (result, rule, t)
              else do { (result, rule) \<leftarrow> encrypt_parse_outer policy rule;
                        if result \<noteq> DOCA_SUCCESS then Some (result, rule, t)
                        else let (result, sa) = parse_sa_attrs policy (er_sa_attrs rule)
                             in Some (result, rule\<lparr>er_sa_attrs := sa\<rparr>, t) } })"

definition ipsec_security_gw_policy_decrypt_parse ::
    "ipsec_policy \<Rightarrow> ipsec_security_gw_mode \<Rightarrow> decrypt_rule \<Rightarrow> (doca_error \<times> decrypt_rule) option" where
  "ipsec_security_gw_policy_decrypt_parse policy mode rule =
     (let outer_l3_type = (if pol_outer_l3_protocol policy = POLICY_L3_TYPE_IPV4
                           then DOCA_FLOW_L3_TYPE_IP4 else DOCA_FLOW_L3_TYPE_IP6);
          inner_l3_type = (if pol_l3_protocol policy = POLICY_L3_TYPE_IPV4
                           then DOCA_FLOW_L3_TYPE_IP4 else DOCA_FLOW_L3_TYPE_IP6);
          rule = rule\<lparr>dr_inner_l3_type := inner_l3_type\<rparr>;
          (rule, dst_ip) =
            (if mode = IPSEC_SECURITY_GW_TUNNEL
             then (rule\<lparr>dr_l3_type := outer_l3_type\<rparr>, pol_outer_dst_ip policy)
             else (rule\<lparr>dr_l3_type := inner_l3_type\<rparr>, pol_dst_ip_addr policy))
      in do { (result, ws) \<leftarrow>
                (if dr_l3_type rule = DOCA_FLOW_L3_TYPE_IP4 then Some (put_ipv4 dst_ip 0 (dr_dst_ip rule))
                 else do { ws \<leftarrow> put_ipv6 dst_ip 0 (dr_dst_ip rule); Some (DOCA_SUCCESS, ws) });
              let rule = rule\<lparr>dr_dst_ip := ws\<rparr>;
              if result \<noteq> DOCA_SUCCESS then Some (result, rule)
              else let rule = rule\<lparr>dr_esp_spi := pol_spi policy\<rparr>;
                       (result, sa) = parse_sa_attrs policy (dr_sa_attrs rule)
                   in Some (result, rule\<lparr>dr_sa_attrs := sa\<rparr>) })"

section \<open>Well-formed policies and their wire format\<close>

text \<open>The record of \<^verbatim>\<open>policy.h\<close>: every number in network order, then the addresses and the key.\<close>

definition policy_wire :: "ipsec_policy \<Rightarrow> u8 list \<Rightarrow> u8 list" where
  "policy_wire p key =
     enc16 (pol_src_port p) @ enc16 (pol_dst_port p) @ [pol_l3_protocol p] @ [pol_l4_protocol p]
     @ [pol_outer_l3_protocol p] @ [pol_policy_direction p] @ [pol_policy_mode p] @ [pol_esn p]
     @ [pol_icv_length p] @ [pol_key_type p] @ enc32 (pol_spi p) @ enc32 (pol_salt p)
     @ pol_src_ip_addr p @ pol_dst_ip_addr p @ pol_outer_src_ip p @ pol_outer_dst_ip p @ key"

text \<open>An address is a string in an array of 47 bytes.\<close>

definition wf_addr :: "u8 list \<Rightarrow> bool" where
  "wf_addr a \<longleftrightarrow> length a = Suc MAX_IP_ADDR_LEN \<and> a ! MAX_IP_ADDR_LEN = 0"

definition wf_policy :: "ipsec_policy \<Rightarrow> u8 list \<Rightarrow> bool" where
  "wf_policy p key \<longleftrightarrow> wf_addr (pol_src_ip_addr p) \<and> wf_addr (pol_dst_ip_addr p)
     \<and> wf_addr (pol_outer_src_ip p) \<and> wf_addr (pol_outer_dst_ip p)
     \<and> (length key = 16 \<or> length key = 32)
     \<and> pol_enc_key_data p = key @ replicate (MAX_KEY_LEN - length key) 0"

definition message :: "ipsec_policy \<Rightarrow> u8 list \<Rightarrow> u8 list" where
  "message p key = enc32 (of_nat (208 + length key)) @ policy_wire p key"

lemma unpack_addr_wire:
  assumes "wf_addr a" and "ahead c = a @ r"
  shows "unpack_addr c = Some (a, advance 47 c)"
proof -
  have "unpack_blob 47 c = Some (a, advance (length a) c)"
    using cblob.unpack_enc [of a 47 c r] assms by (simp add: wf_addr_def MAX_IP_ADDR_LEN_def)
  then show ?thesis
    using assms by (simp add: unpack_addr_def wf_addr_def MAX_IP_ADDR_LEN_def list_update_same_conv)
qed

text \<open>Reading the next field of a record and what is ahead of the cursor after it.\<close>

lemma field_steps:
  "ahead c = enc16 v16 @ r \<Longrightarrow> unpack_uint16 c = Some (v16, advance 2 c) \<and> ahead (advance 2 c) = r"
  "ahead c = enc32 v32 @ r \<Longrightarrow> unpack_uint32 c = Some (v32, advance 4 c) \<and> ahead (advance 4 c) = r"
  "ahead c = v8 # r \<Longrightarrow> unpack_uint8 c = Some (v8, advance 1 c) \<and> ahead (advance 1 c) = r"
  "wf_addr a \<Longrightarrow> ahead c = a @ r \<Longrightarrow> unpack_addr c = Some (a, advance 47 c) \<and> ahead (advance 47 c) = r"
  "length b = n \<Longrightarrow> ahead c = b @ r \<Longrightarrow> unpack_blob n c = Some (b, advance n c)"
  using c16.unpack_then [where v = v16 and c = c and r = r] c32.unpack_then [where v = v32 and c = c and r = r]
    c8.unpack_then [where v = v8 and c = c and r = r] cblob.unpack_then [where v = b and c = c and r = r and n = n]
    unpack_addr_wire [of a c r]
  by (simp_all add: wf_addr_def MAX_IP_ADDR_LEN_def)

lemma unpack_policy_wire:
  assumes wf: "wf_policy p key" and buf: "buf = policy_wire p key @ r"
  shows "unpack_policy_buffer buf (of_nat (208 + length key)) policy
    = Some (p\<lparr>pol_enc_key_data := key @ drop (length key) (pol_enc_key_data policy)\<rparr>)"
proof -
  have wfs: "wf_addr (pol_src_ip_addr p)" "wf_addr (pol_dst_ip_addr p)" "wf_addr (pol_outer_src_ip p)"
      "wf_addr (pol_outer_dst_ip p)"
    using wf by (simp_all add: wf_policy_def)
  have "ahead \<lparr>mem = buf, head = 0\<rparr> = policy_wire p key @ r" by (simp add: buf ahead_def)
  note a = this [unfolded policy_wire_def append_assoc]
  note s = field_steps(1) [OF a] note t = s [THEN conjunct1]
  note s = field_steps(1) [OF s [THEN conjunct2]] note t = t s [THEN conjunct1]
  note s = field_steps(3) [OF s [THEN conjunct2, unfolded append_Cons append_Nil]] note t = t s [THEN conjunct1]
  note s = field_steps(3) [OF s [THEN conjunct2, unfolded append_Cons append_Nil]] note t = t s [THEN conjunct1]
  note s = field_steps(3) [OF s [THEN conjunct2, unfolded append_Cons append_Nil]] note t = t s [THEN conjunct1]
  note s = field_steps(3) [OF s [THEN conjunct2, unfolded append_Cons append_Nil]] note t = t s [THEN conjunct1]
  note s = field_steps(3) [OF s [THEN conjunct2, unfolded append_Cons append_Nil]] note t = t s [THEN conjunct1]
  note s = field_steps(3) [OF s [THEN conjunct2, unfolded append_Cons append_Nil]] note t = t s [THEN conjunct1]
  note s = field_steps(3) [OF s [THEN conjunct2, unfolded append_Cons append_Nil]] note t = t s [THEN conjunct1]
  note s = field_steps(3) [OF s [THEN conjunct2, unfolded append_Cons append_Nil]] note t = t s [THEN conjunct1]
  note s = field_steps(2) [OF s [THEN conjunct2]] note t = t s [THEN conjunct1]
  note s = field_steps(2) [OF s [THEN conjunct2]] note t = t s [THEN conjunct1]
  note s = field_steps(4) [OF wfs(1) s [THEN conjunct2]] note t = t s [THEN conjunct1]
  note s = field_steps(4) [OF wfs(2) s [THEN conjunct2]] note t = t s [THEN conjunct1]
  note s = field_steps(4) [OF wfs(3) s [THEN conjunct2]] note t = t s [THEN conjunct1]
  note s = field_steps(4) [OF wfs(4) s [THEN conjunct2]] note t = t s [THEN conjunct1]
  note k = field_steps(5) [OF refl s [THEN conjunct2]]
  have key: "(if of_nat (208 + length key) = POLICY_RECORD_MAX_SIZE then 32 else 16) = length key"
    using wf by (auto simp: wf_policy_def POLICY_RECORD_MAX_SIZE_def)
  show ?thesis
    unfolding unpack_policy_buffer_def key
    by (simp add: t k del: advance_advance ahead_advance append.simps append_assoc One_nat_def)
qed

section \<open>Reading from the socket\<close>

text \<open>However the bytes are cut into pieces, the loop stores exactly the ones it wants.\<close>

lemma fill_loop_stream:
  assumes "k < n" and "n \<le> length buf" and "n - k \<le> length (concat cs)" and "[] \<notin> set cs"
  shows "\<exists>cs'. fill_loop n k (map Arrived cs @ es) buf
      = Some (DOCA_SUCCESS, take k buf @ take (n - k) (concat cs) @ drop n buf, map Arrived cs' @ es)
    \<and> concat cs' = drop (n - k) (concat cs) \<and> [] \<notin> set cs'"
  using assms
proof (induction cs arbitrary: k buf)
  case Nil
  then show ?case by simp
next
  case (Cons c cs)
  show ?case
  proof (cases "length c < n - k")
    case True
    let ?buf = "take k buf @ c @ drop (k + length c) buf"
    have k: "k + length c < n" using True by simp
    have "\<exists>cs'. fill_loop n (k + length c) (map Arrived cs @ es) ?buf
        = Some (DOCA_SUCCESS, take (k + length c) ?buf @ take (n - (k + length c)) (concat cs) @ drop n ?buf,
            map Arrived cs' @ es)
        \<and> concat cs' = drop (n - (k + length c)) (concat cs) \<and> [] \<notin> set cs'"
      using Cons.prems k by (intro Cons.IH) auto
    moreover have "take (k + length c) ?buf = take k buf @ c" "drop n ?buf = drop n buf"
      using Cons.prems k by auto
    ultimately show ?thesis
      using Cons.prems True by (subst fill_loop.simps) (auto simp: store_at_def)
  next
    case False
    then have l: "n - k \<le> length c" by simp
    let ?cs' = "if length c \<le> n - k then cs else drop (n - k) c # cs"
    have "fill_loop n k (map Arrived (c # cs) @ es) buf
        = Some (DOCA_SUCCESS, take k buf @ take (n - k) c @ drop n buf, map Arrived ?cs' @ es)"
      using Cons.prems l by (subst fill_loop.simps) (auto simp: store_at_def min_def)
    with Cons.prems l show ?thesis
      by (intro exI [of _ ?cs']) auto
  qed
qed

lemma fill_buffer_stream:
  assumes "0 < n" "n \<le> length buf" "concat cs = bs @ r" "length bs = n" "[] \<notin> set cs"
  shows "\<exists>cs'. fill_buffer_from_socket n (map Arrived cs @ es) buf
      = Some (DOCA_SUCCESS, bs @ drop n buf, map Arrived cs' @ es) \<and> concat cs' = r \<and> [] \<notin> set cs'"
  using fill_loop_stream [of 0 n buf cs es] assms by (auto simp: fill_buffer_from_socket_def)

lemma read_message_length_stream:
  assumes "concat cs = enc32 len @ r" and "[] \<notin> set cs"
  shows "\<exists>cs'. read_message_length (map Arrived cs @ es)
      = Some (if len = POLICY_RECORD_MIN_SIZE \<or> len = POLICY_RECORD_MAX_SIZE then Inr len
              else Inl DOCA_ERROR_IO_FAILED, map Arrived cs' @ es)
    \<and> concat cs' = r \<and> [] \<notin> set cs'"
proof -
  obtain cs' where "fill_buffer_from_socket 4 (map Arrived cs @ es) (replicate 8 0)
      = Some (DOCA_SUCCESS, enc32 len @ drop 4 (replicate 8 0), map Arrived cs' @ es)"
      "concat cs' = r" "[] \<notin> set cs'"
    using fill_buffer_stream [of 4 "replicate 8 0" cs "enc32 len" r es] assms by auto
  moreover have "unpack_uint32 \<lparr>mem = enc32 len @ b, head = 0\<rparr> = Some (len, advance 4 \<lparr>mem = enc32 len @ b, head = 0\<rparr>)" for b
    using field_steps(2) [of "\<lparr>mem = enc32 len @ b, head = 0\<rparr>" len b] by (simp add: ahead_def)
  ultimately show ?thesis
    by (intro exI [of _ cs']) (simp add: read_message_length_def)
qed

lemma len_policy_wire: "wf_policy p key \<Longrightarrow> length (policy_wire p key) = 208 + length key"
  by (auto simp: wf_policy_def wf_addr_def policy_wire_def MAX_IP_ADDR_LEN_def)

lemma read_message_stream:
  assumes wf: "wf_policy p key" and cs: "concat cs = message p key @ r" "[] \<notin> set cs"
  shows "\<exists>cs'. read_message_from_socket (map Arrived cs @ es) zero_policy
      = Some (DOCA_SUCCESS, p, map Arrived cs' @ es) \<and> concat cs' = r \<and> [] \<notin> set cs'"
proof -
  let ?len = "of_nat (208 + length key) :: u32"
  have len: "?len = POLICY_RECORD_MIN_SIZE \<or> ?len = POLICY_RECORD_MAX_SIZE" "unat ?len = 208 + length key"
    using wf by (auto simp: wf_policy_def POLICY_RECORD_MIN_SIZE_def POLICY_RECORD_MAX_SIZE_def)
  obtain cs1 where 1: "read_message_length (map Arrived cs @ es) = Some (Inr ?len, map Arrived cs1 @ es)"
      "concat cs1 = policy_wire p key @ r" "[] \<notin> set cs1"
    using read_message_length_stream [of cs ?len "policy_wire p key @ r" es] cs len(1)
    by (auto simp: message_def)
  have fits: "208 + length key \<le> length (replicate 1024 (0 :: u8))"
    using wf by (auto simp: wf_policy_def)
  obtain cs2 where 2: "fill_buffer_from_socket (208 + length key) (map Arrived cs1 @ es) (replicate 1024 0)
      = Some (DOCA_SUCCESS, policy_wire p key @ drop (208 + length key) (replicate 1024 0), map Arrived cs2 @ es)"
      "concat cs2 = r" "[] \<notin> set cs2"
    using fill_buffer_stream [OF _ fits 1(2) len_policy_wire [OF wf] 1(3), of es] by auto
  have "p\<lparr>pol_enc_key_data := key @ drop (length key) (pol_enc_key_data zero_policy)\<rparr> = p"
    using wf by (auto simp: wf_policy_def zero_policy_def MAX_KEY_LEN_def)
  then show ?thesis
    using 1 2 unpack_policy_wire [OF wf refl, of "drop (208 + length key) (replicate 1024 0)" zero_policy]
    by (intro exI [of _ cs2]) (simp add: read_message_from_socket_def len(2) del: of_nat_add)
qed

lemma ports_as_length:
  assumes "(sp :: u16) \<noteq> 0"
  shows "\<exists>v. enc16 sp @ enc16 dp @ r = enc32 v @ r \<and> v \<noteq> POLICY_RECORD_MIN_SIZE \<and> v \<noteq> POLICY_RECORD_MAX_SIZE"
proof -
  let ?v = "push_bit 16 (ucast sp) OR ucast dp :: u32"
  have no: "\<not> bit dp (16 + n)" "\<not> bit dp (24 + n)" for n
    by (auto dest!: bit_imp_le_length)
  have lo: "bit sp n \<Longrightarrow> n < 16" for n
    by (auto dest!: bit_imp_le_length)
  have "GET_BYTE ?v 3 = GET_BYTE sp 1" "GET_BYTE ?v 2 = GET_BYTE sp 0" "GET_BYTE ?v 1 = GET_BYTE dp 1"
      "GET_BYTE ?v 0 = GET_BYTE dp 0"
    by (auto intro!: bit_word_eqI simp: bit_GET_BYTE bit_simps no)
  then have e: "enc32 ?v = enc16 sp @ enc16 dp" by (simp add: enc32_def enc16_def)
  have "drop_bit 16 ?v = ucast sp"
    by (auto intro!: bit_word_eqI simp: bit_simps no dest: lo)
  moreover have "(ucast sp :: u32) \<noteq> 0"
  proof
    assume z: "(ucast sp :: u32) = 0"
    have "bit sp n = bit (ucast sp :: u32) n" if "n < 16" for n
      using that by (simp add: bit_simps)
    then have "sp = 0" by (intro bit_word_eqI) (simp add: z)
    with assms show False by simp
  qed
  ultimately have hi: "drop_bit 16 ?v \<noteq> 0" by metis
  have "drop_bit 16 (224 :: u32) = 0" "drop_bit 16 (240 :: u32) = 0" by simp_all
  with hi have "?v \<noteq> 224" "?v \<noteq> 240" by metis+
  with e show ?thesis
    by (auto simp: POLICY_RECORD_MIN_SIZE_def POLICY_RECORD_MAX_SIZE_def intro!: exI [of _ ?v])
qed

section \<open>Rules of IPv4 policies\<close>

text \<open>The array that holds an address in dotted notation, padded with terminators.\<close>

definition addr_bytes :: "string \<Rightarrow> u8 list" where
  "addr_bytes s = map (\<lambda>c. of_nat (of_char c)) s @ replicate (Suc MAX_IP_ADDR_LEN - length s) 0"

lemma char_of_byte: "char_of (unat (of_nat (of_char c) :: u8)) = c"
proof -
  have "(of_char c :: nat) mod 256 = of_char c" by simp
  then have "unat (of_nat (of_char c) :: u8) = of_char c"
    by (simp add: unat_of_nat)
  then show ?thesis by simp
qed

lemma addr_str_bytes: "nul \<notin> set s \<Longrightarrow> length s \<le> MAX_IP_ADDR_LEN \<Longrightarrow> addr_str (addr_bytes s) = s"
proof -
  assume s: "nul \<notin> set s" "length s \<le> MAX_IP_ADDR_LEN"
  let ?b = "\<lambda>c. of_nat (of_char c) :: u8"
  have nz: "?b c \<noteq> 0" if "c \<in> set s" for c
  proof
    assume "?b c = 0"
    then have "c = char_of (0 :: nat)" using char_of_byte [of c] by simp
    with s that show False by (simp add: nul_def char_of_def)
  qed
  have "takeWhile (\<lambda>b. b \<noteq> 0) (map ?b s @ replicate (Suc MAX_IP_ADDR_LEN - length s) 0) = map ?b s"
    using nz s(2) by (subst takeWhile_append2) (auto simp: Suc_diff_le)
  then show ?thesis by (simp add: addr_str_def addr_bytes_def char_of_byte map_idI comp_def)
qed

lemma dec_length: "n < 256 \<Longrightarrow> length (dec n) \<le> 3"
proof -
  assume "n < 256"
  then have "n < 10 \<or> n div 10 < 10 \<or> n div 10 div 10 < 10" by auto
  then show ?thesis
    by (auto simp: dec.simps [of n] dec.simps [of "n div 10"] dec.simps [of "n div 10 div 10"])
qed

lemma addr_str_dotted:
  assumes "a < 256" "b < 256" "c < 256" "d < 256"
  shows "addr_str (addr_bytes (dotted a b c d)) = dotted a b c d"
proof (rule addr_str_bytes)
  show "nul \<notin> set (dotted a b c d)"
    by (auto simp: dotted_def nul_def dest: dec_chars)
  show "length (dotted a b c d) \<le> MAX_IP_ADDR_LEN"
    using dec_length [OF assms(1)] dec_length [OF assms(2)] dec_length [OF assms(3)] dec_length [OF assms(4)]
    by (simp add: dotted_def MAX_IP_ADDR_LEN_def)
qed

lemma put_ipv4_dotted:
  assumes "a < 256" "b < 256" "c < 256" "d < 256"
  shows "\<exists>w. put_ipv4 (addr_bytes (dotted a b c d)) i ws = (DOCA_SUCCESS, ws[i := w])
    \<and> mem_bytes32 w = [of_nat a, of_nat b, of_nat c, of_nat d]"
  using parse_ipv4_dotted [OF assms] by (auto simp: put_ipv4_def addr_str_dotted [OF assms])

lemma wf_addr_dotted:
  assumes "a < 256" "b < 256" "c < 256" "d < 256"
  shows "wf_addr (addr_bytes (dotted a b c d))"
proof -
  have "length (dotted a b c d) \<le> 15"
    using dec_length [OF assms(1)] dec_length [OF assms(2)] dec_length [OF assms(3)] dec_length [OF assms(4)]
    by (simp add: dotted_def)
  then show ?thesis
    by (simp add: wf_addr_def addr_bytes_def MAX_IP_ADDR_LEN_def nth_append)
qed

section \<open>Properties\<close>

text \<open>C11. A policy message is read back exactly, however the socket cuts it into pieces: the four
  byte length and the record of \<^verbatim>\<open>policy.h\<close>, for a 16 or a 32 byte key, give the policy with all its
  fields, and exactly the bytes behind the message are left for the next read.\<close>

theorem policy_message_roundtrip:
  assumes "wf_policy p key" and "concat cs = message p key @ r" and "[] \<notin> set cs"
  shows "\<exists>cs'. read_message_from_socket (map Arrived cs @ es) zero_policy
      = Some (DOCA_SUCCESS, p, map Arrived cs' @ es) \<and> concat cs' = r"
  using read_message_stream [OF assms] by auto

definition sample_policy :: ipsec_policy where
  "sample_policy = zero_policy\<lparr>pol_src_port := 1234, pol_l3_protocol := 4, pol_icv_length := 16,
     pol_spi := 0x0A0B0C0D, pol_key_type := 1, pol_enc_key_data := map of_nat [0..<32],
     pol_dst_ip_addr := addr_bytes (dotted 10 0 0 1)\<rparr>"

lemma wf_sample_policy: "wf_policy sample_policy (map of_nat [0..<32])"
  using wf_addr_dotted [of 10 0 0 1]
  by (simp add: wf_policy_def sample_policy_def zero_policy_def wf_addr_def MAX_KEY_LEN_def MAX_IP_ADDR_LEN_def
      del: replicate.simps upt_rec_numeral)

theorem policy_message_roundtrip_witness:
  "\<exists>cs'. read_message_from_socket
       (map Arrived [take 3 (message sample_policy (map of_nat [0..<32])),
                     drop 3 (message sample_policy (map of_nat [0..<32])) @ [7]]) zero_policy
     = Some (DOCA_SUCCESS, sample_policy, map Arrived cs') \<and> concat cs' = [7]"
proof -
  have "take 3 (message sample_policy (map of_nat [0..<32])) \<noteq> []"
    by (simp add: message_def enc32_def del: upt_rec_numeral)
  then show ?thesis
    using policy_message_roundtrip [OF wf_sample_policy, of
        "[take 3 (message sample_policy (map of_nat [0..<32])),
          drop 3 (message sample_policy (map of_nat [0..<32])) @ [7]]" "[7]" "[]"]
    by (simp del: upt_rec_numeral)
qed





end
