(* ===== verification/Ipsec_Packet.thy ===== *)
theory Ipsec_Packet
  imports Ipsec_Types Pack
begin

text \<open>
  The software packet path of the IPsec security gateway: adding the ESP headers and trailer to a
  packet (\<^verbatim>\<open>flow_encrypt.c\<close>) and removing them (\<^verbatim>\<open>flow_decrypt.c\<close>). The hardware encrypts and
  decrypts in place. Packets are the \<^verbatim>\<open>rte_mbuf\<close> chains of DPDK; the functions of DPDK that
  change them are the parameter \<open>mbuf_api\<close> and \<open>mbuf_laws\<close> states their documented behaviour.
  An access outside the buffer of a segment is \<open>None\<close>.
\<close>

section \<open>Packets\<close>

text \<open>A segment: its buffer, the offset of the data in it and the length of the data.\<close>

record seg =
  sbuf :: "u8 list"
  soff :: nat
  slen :: u16

text \<open>\<open>is_ipv4\<close> and \<open>is_ipv6\<close> are what \<^verbatim>\<open>packet_type\<close> says of the outermost IP header.\<close>

record mbuf =
  segs :: "seg list"
  pkt_len :: u32
  is_ipv4 :: bool
  is_ipv6 :: bool
  mb_meta :: u32

record mbuf_api =
  rte_pktmbuf_prepend :: "mbuf \<Rightarrow> u16 \<Rightarrow> mbuf option"
  rte_pktmbuf_adj :: "mbuf \<Rightarrow> u16 \<Rightarrow> mbuf option"
  rte_pktmbuf_trim :: "mbuf \<Rightarrow> u16 \<Rightarrow> mbuf"
  rte_ipv4_cksum :: "u8 list \<Rightarrow> u16"

text \<open>
  Prepending moves the start of the first segment into its headroom and fails when the headroom is
  too small; \<open>adj\<close> removes bytes from the start of the first segment and \<open>trim\<close> from the end of the
  last one, and neither changes a packet whose segment is shorter.
\<close>

definition mbuf_laws :: "mbuf_api \<Rightarrow> bool" where
  "mbuf_laws api \<longleftrightarrow>
     (\<forall>m s ss n. segs m = s # ss \<longrightarrow>
        rte_pktmbuf_prepend api m n =
          (if unat n \<le> soff s
           then Some (m\<lparr>segs := s\<lparr>soff := soff s - unat n, slen := slen s + n\<rparr> # ss, pkt_len := pkt_len m + ucast n\<rparr>)
           else None))
     \<and> (\<forall>m s ss n. segs m = s # ss \<longrightarrow>
        rte_pktmbuf_adj api m n =
          (if n \<le> slen s
           then Some (m\<lparr>segs := s\<lparr>soff := soff s + unat n, slen := slen s - n\<rparr> # ss, pkt_len := pkt_len m - ucast n\<rparr>)
           else None))
     \<and> (\<forall>m s ss n. segs m = ss @ [s] \<longrightarrow>
        rte_pktmbuf_trim api m n =
          (if n \<le> slen s then m\<lparr>segs := ss @ [s\<lparr>slen := slen s - n\<rparr>], pkt_len := pkt_len m - ucast n\<rparr> else m))"

text \<open>Bytes of a buffer at an index.\<close>

definition rd :: "u8 list \<Rightarrow> nat \<Rightarrow> u8 option" where
  "rd b i = (if i < length b then Some (b ! i) else None)"

definition rds :: "u8 list \<Rightarrow> nat \<Rightarrow> nat \<Rightarrow> u8 list option" where
  "rds b i n = (if i + n \<le> length b then Some (take n (drop i b)) else None)"

definition wr :: "u8 list \<Rightarrow> nat \<Rightarrow> u8 list \<Rightarrow> u8 list option" where
  "wr b i bs = (if i + length bs \<le> length b then Some (take i b @ bs @ drop (i + length bs) b) else None)"

text \<open>\<^verbatim>\<open>rte_pktmbuf_mtod\<close> of the first segment: its buffer and the index of its data.\<close>

definition mtod :: "mbuf \<Rightarrow> (u8 list \<times> nat) option" where
  "mtod m = (case segs m of [] \<Rightarrow> None | s # _ \<Rightarrow> Some (sbuf s, soff s))"

definition set_first :: "mbuf \<Rightarrow> u8 list \<Rightarrow> mbuf" where
  "set_first m b = m\<lparr>segs := (case segs m of [] \<Rightarrow> [] | s # ss \<Rightarrow> s\<lparr>sbuf := b\<rparr> # ss)\<rparr>"

text \<open>Writing into the first and into the last segment, relative to its data.\<close>

definition first_write :: "mbuf \<Rightarrow> nat \<Rightarrow> u8 list \<Rightarrow> mbuf option" where
  "first_write m k bs =
     do { (b, i) \<leftarrow> mtod m; b \<leftarrow> wr b (i + k) bs; Some (set_first m b) }"

definition last_write :: "mbuf \<Rightarrow> nat \<Rightarrow> u8 list \<Rightarrow> mbuf option" where
  "last_write m k bs =
     (if segs m = [] then None
      else let s = last (segs m)
           in do { b \<leftarrow> wr (sbuf s) (soff s + k) bs;
                   Some (m\<lparr>segs := butlast (segs m) @ [s\<lparr>sbuf := b\<rparr>]\<rparr>) })"

section \<open>Header fields\<close>

definition ETHER_HDR :: nat where "ETHER_HDR = 14"
definition IPV4_HDR :: nat where "IPV4_HDR = 20"
definition IPV6_HDR :: nat where "IPV6_HDR = 40"
definition UDP_HDR :: nat where "UDP_HDR = 8"
definition ESP_HDR :: nat where "ESP_HDR = 8"
definition ESP_TAIL :: nat where "ESP_TAIL = 2"
definition ETHER_MIN_LEN :: u32 where "ETHER_MIN_LEN = 64"

lemmas hdr_sizes = ETHER_HDR_def IPV4_HDR_def IPV6_HDR_def UDP_HDR_def ESP_HDR_def ESP_TAIL_def ETHER_MIN_LEN_def

text \<open>\<^verbatim>\<open>rte_ipv4_hdr_len\<close> of the first header byte.\<close>

definition ipv4_hdr_len :: "u8 \<Rightarrow> u32" where
  "ipv4_hdr_len version_ihl = ucast ((version_ihl AND 0x0F) * 4)"

text \<open>A big-endian 16 bit field and the bytes of one.\<close>

definition be16_val :: "u8 \<Rightarrow> u8 \<Rightarrow> u32" where
  "be16_val h l = push_bit 8 (ucast h) OR ucast l"

text \<open>The bytes of a 16 bit value as the little-endian machine stores it.\<close>

definition le16 :: "u16 \<Rightarrow> u8 list" where
  "le16 v = [GET_BYTE v 0, GET_BYTE v 1]"

text \<open>
  Total length, next protocol and checksum of the IPv4 header at an index of a buffer, as the
  encapsulation and the decapsulation set them; payload length and protocol of an IPv6 header.
\<close>

definition update_ipv4 :: "mbuf_api \<Rightarrow> u8 list \<Rightarrow> nat \<Rightarrow> u8 option \<Rightarrow> u32 \<Rightarrow> u8 list option" where
  "update_ipv4 api b i proto len =
     do { b \<leftarrow> (case proto of None \<Rightarrow> Some b | Some p \<Rightarrow> wr b (i + 9) [p]);
          b \<leftarrow> wr b (i + 2) (enc16 (ucast len));
          b \<leftarrow> wr b (i + 10) [0, 0];
          v \<leftarrow> rd b i;
          h \<leftarrow> rds b i (unat (ipv4_hdr_len v));
          wr b (i + 10) (le16 (rte_ipv4_cksum api h)) }"

definition update_ipv6 :: "u8 list \<Rightarrow> nat \<Rightarrow> u8 option \<Rightarrow> u32 \<Rightarrow> u8 list option" where
  "update_ipv6 b i proto len =
     do { b \<leftarrow> (case proto of None \<Rightarrow> Some b | Some p \<Rightarrow> wr b (i + 6) [p]);
          wr b (i + 4) (enc16 (ucast len)) }"

section \<open>Ethernet padding\<close>

definition remove_ethernet_padding :: "mbuf_api \<Rightarrow> mbuf \<Rightarrow> mbuf option" where
  "remove_ethernet_padding api m =
     (if pkt_len m > ETHER_MIN_LEN then Some m
      else do { (b, oh) \<leftarrow> mtod m;
                (l2_l3_len, payload_len_l3) \<leftarrow>
                  (if is_ipv4 m
                   then do { v \<leftarrow> rd b (oh + ETHER_HDR);
                             h \<leftarrow> rd b (oh + ETHER_HDR + 2); l \<leftarrow> rd b (oh + ETHER_HDR + 3);
                             Some (ipv4_hdr_len v + of_nat ETHER_HDR, be16_val h l - ipv4_hdr_len v) }
                   else do { h \<leftarrow> rd b (oh + ETHER_HDR + 4); l \<leftarrow> rd b (oh + ETHER_HDR + 5);
                             Some (of_nat (IPV6_HDR + ETHER_HDR), be16_val h l) });
                let payload_len = pkt_len m - l2_l3_len;
                if payload_len - payload_len_l3 > 0
                then Some (rte_pktmbuf_trim api m (ucast (payload_len - payload_len_l3)))
                else Some m })"

section \<open>The core context\<close>

record gw_config =
  gw_mode :: ipsec_security_gw_mode
  gw_flow_mode :: ipsec_security_gw_flow_mode
  sw_sn_inc_enable :: bool
  sw_antireplay :: bool
  debug_mode :: bool
  syndrome_fwd :: ipsec_security_gw_fwd_syndrome

text \<open>\<open>current_ip_id\<close> is a static variable of \<^verbatim>\<open>flow_encrypt.c\<close>.\<close>

record core_ctx =
  config :: gw_config
  encrypt_rules :: "encrypt_rule list"
  decrypt_rules :: "decrypt_rule list"
  secured_port_id :: u16
  unsecured_port_id :: u16
  current_ip_id :: u16

definition the_rule :: "'r list \<Rightarrow> u32 \<Rightarrow> 'r option" where
  "the_rule rules rule_idx = (if unat rule_idx < length rules then Some (rules ! unat rule_idx) else None)"

section \<open>Encapsulation headers\<close>

definition sn_bytes :: "encrypt_rule \<Rightarrow> bool \<Rightarrow> u8 list" where
  "sn_bytes rule sw_sn_inc =
     (if sw_sn_inc then [GET_BYTE (er_current_sn rule) 3, GET_BYTE (er_current_sn rule) 2,
                         GET_BYTE (er_current_sn rule) 1, GET_BYTE (er_current_sn rule) 0]
      else [0, 0, 0, 0])"

definition spi_bytes :: "encrypt_rule \<Rightarrow> u8 list" where
  "spi_bytes rule = [GET_BYTE (er_esp_spi rule) 3, GET_BYTE (er_esp_spi rule) 2,
                     GET_BYTE (er_esp_spi rule) 1, GET_BYTE (er_esp_spi rule) 0]"

definition create_transport_encap :: "encrypt_rule \<Rightarrow> bool \<Rightarrow> u8 list" where
  "create_transport_encap rule sw_sn_inc =
     spi_bytes rule @ sn_bytes rule sw_sn_inc @ [0, 0, 0, 0, 0, 0, 0, 0]"

definition create_udp_transport_encap :: "encrypt_rule \<Rightarrow> bool \<Rightarrow> u8 list" where
  "create_udp_transport_encap rule sw_sn_inc =
     [0x30, 0x39, GET_BYTE (4500 :: u16) 1, GET_BYTE (4500 :: u16) 0, 0x00, 0xa4, 0x00, 0x00]
     @ spi_bytes rule @ sn_bytes rule sw_sn_inc @ [0, 0, 0, 0, 0, 0, 0, 0]"

definition create_ipv4_tunnel_encap :: "encrypt_rule \<Rightarrow> bool \<Rightarrow> u16 \<Rightarrow> u8 list" where
  "create_ipv4_tunnel_encap rule sw_sn_inc ip_id =
     [0xaa, 0xbb, 0xcc, 0xdd, 0xee, 0xff, 0x11, 0x22, 0x33, 0x44, 0x55, 0x66, 0x08, 0x00,
      0x45, 0x00, 0x00, 0x00, GET_BYTE ip_id 1, GET_BYTE ip_id 0,
      0x00, 0x00, 0x00, 0x32, 0x00, 0x00, 0x02, 0x02, 0x02, 0x02]
     @ mem_bytes32 (er_encap_dst_ip rule ! 0)
     @ spi_bytes rule @ sn_bytes rule sw_sn_inc @ [0, 0, 0, 0, 0, 0, 0, 0]"

definition create_ipv6_tunnel_encap :: "encrypt_rule \<Rightarrow> bool \<Rightarrow> u8 list" where
  "create_ipv6_tunnel_encap rule sw_sn_inc =
     [0xaa, 0xbb, 0xcc, 0xdd, 0xee, 0xff, 0x11, 0x22, 0x33, 0x44, 0x55, 0x66, 0x86, 0xdd,
      0x60, 0x00, 0x00, 0x00, 0x00, 0x00, 0x32, 0x40,
      0x02, 0x02, 0x02, 0x02, 0x02, 0x02, 0x02, 0x02, 0x02, 0x02, 0x02, 0x02, 0x02, 0x02, 0x02, 0x02]
     @ mem_bytes32 (er_encap_dst_ip rule ! 0) @ mem_bytes32 (er_encap_dst_ip rule ! 1)
     @ mem_bytes32 (er_encap_dst_ip rule ! 2) @ mem_bytes32 (er_encap_dst_ip rule ! 3)
     @ spi_bytes rule @ sn_bytes rule sw_sn_inc @ [0, 0, 0, 0, 0, 0, 0, 0]"

section \<open>Trailer\<close>

definition PADDING_ALIGN :: u32 where "PADDING_ALIGN = 4"

definition esp_pad_bytes :: "u8 list" where
  "esp_pad_bytes = [1, 2, 3, 4, 5, 6, 7, 8, 9, 10, 11, 12, 13, 14, 15]"

text \<open>\<^verbatim>\<open>RTE_ALIGN_CEIL\<close>: the next multiple of the alignment.\<close>

definition align_ceil :: "u32 \<Rightarrow> u32 \<Rightarrow> u32" where
  "align_ceil v a = (v + (a - 1)) div a * a"

text \<open>Padding with the ESP tail that aligns a payload.\<close>

definition padding_len :: "u32 \<Rightarrow> u32" where
  "padding_len payload_len = align_ceil (payload_len + of_nat ESP_TAIL) PADDING_ALIGN - payload_len"

text \<open>Making the last segment longer; the result is the old length of its data.\<close>

definition append_tail :: "u32 \<Rightarrow> mbuf \<Rightarrow> (nat \<times> mbuf) option" where
  "append_tail trailer_len m =
     (if segs m = [] then None
      else let s = last (segs m)
           in Some (unat (slen s),
                m\<lparr>segs := butlast (segs m) @ [s\<lparr>slen := slen s + ucast trailer_len\<rparr>],
                  pkt_len := pkt_len m + trailer_len\<rparr>))"

text \<open>Padding bytes and the ESP tail at an offset of the last segment.\<close>

definition write_trailer :: "nat \<Rightarrow> u32 \<Rightarrow> u8 \<Rightarrow> mbuf \<Rightarrow> mbuf option" where
  "write_trailer padding_offset pad next_proto m =
     do { m \<leftarrow> last_write m padding_offset (take (min (unat pad) (length esp_pad_bytes)) esp_pad_bytes);
          last_write m (padding_offset + unat pad) [ucast pad, next_proto] }"

definition inc_sn :: "u32 \<Rightarrow> core_ctx \<Rightarrow> core_ctx" where
  "inc_sn rule_idx ctx =
     ctx\<lparr>encrypt_rules := (encrypt_rules ctx)[unat rule_idx :=
       (encrypt_rules ctx ! unat rule_idx)\<lparr>er_current_sn := er_current_sn (encrypt_rules ctx ! unat rule_idx) + 1\<rparr>]\<rparr>"

section \<open>Encapsulation\<close>

text \<open>
  The result code, the packet and the context. The payload in tunnel mode is everything behind the
  Ethernet header.
\<close>

definition tunnel_headers :: "mbuf_api \<Rightarrow> encrypt_rule \<Rightarrow> mbuf \<Rightarrow> core_ctx \<Rightarrow> (mbuf \<times> core_ctx) option" where
  "tunnel_headers api rule m ctx =
     (let sw_sn_inc = sw_sn_inc_enable (config ctx) in
      if er_encap_l3_type rule = DOCA_FLOW_L3_TYPE_IP4 then
        do { m \<leftarrow> first_write m 0 (create_ipv4_tunnel_encap rule sw_sn_inc (current_ip_id ctx));
             (b, nh) \<leftarrow> mtod m;
             b \<leftarrow> update_ipv4 api b (nh + ETHER_HDR) None (pkt_len m - of_nat ETHER_HDR);
             Some (set_first m b, ctx\<lparr>current_ip_id := current_ip_id ctx + 1\<rparr>) }
      else
        do { m \<leftarrow> first_write m 0 (create_ipv6_tunnel_encap rule sw_sn_inc);
             (b, nh) \<leftarrow> mtod m;
             b \<leftarrow> update_ipv6 b (nh + ETHER_HDR) None (pkt_len m - of_nat ETHER_HDR - of_nat IPV6_HDR);
             Some (set_first m b, ctx) })"

definition prepare_packet_tunnel ::
    "mbuf_api \<Rightarrow> mbuf \<Rightarrow> core_ctx \<Rightarrow> u32 \<Rightarrow> (doca_error \<times> mbuf \<times> core_ctx) option" where
  "prepare_packet_tunnel api m ctx rule_idx =
     do { rule \<leftarrow> the_rule (encrypt_rules ctx) rule_idx;
          let icv_len = get_icv_len_int (sa_icv_length (er_sa_attrs rule));
          let reformat_encap_data_len =
            (if er_encap_l3_type rule = DOCA_FLOW_L3_TYPE_IP4 then 50 else 70 :: u16);
          m \<leftarrow> remove_ethernet_padding api m;
          let payload_len = pkt_len m - of_nat ETHER_HDR;
          let esp_len = reformat_encap_data_len - of_nat ETHER_HDR;
          let pad = padding_len payload_len;
          let trailer_len = pad + icv_len;
          case rte_pktmbuf_prepend api m esp_len of
            None \<Rightarrow> Some (DOCA_ERROR_NO_MEMORY, m, ctx)
          | Some m \<Rightarrow>
              do { (padding_offset, m) \<leftarrow> append_tail trailer_len m;
                   (m, ctx) \<leftarrow> tunnel_headers api rule m ctx;
                   m \<leftarrow> write_trailer padding_offset (pad - of_nat ESP_TAIL)
                          (if er_l3_type rule = DOCA_FLOW_L3_TYPE_IP4 then 4 else 41) m;
                   Some (DOCA_SUCCESS, m, inc_sn rule_idx ctx) } }"

text \<open>
  The headers of a packet in transport mode once Ethernet and IP header have been moved to the
  front: the protocol that was there, and the new one with the lengths. The UDP header is taken to
  follow an IP header without options.
\<close>

definition transport_headers ::
    "mbuf_api \<Rightarrow> mbuf \<Rightarrow> bool \<Rightarrow> u8 \<Rightarrow> (u8 \<times> mbuf) option" where
  "transport_headers api m udp_transport protocol =
     do { (b, nh) \<leftarrow> mtod m;
          let ip = nh + ETHER_HDR;
          let udp = (\<lambda>hdr b. if udp_transport
             then wr b (ip + hdr + 4) (enc16 (ucast (pkt_len m - of_nat ETHER_HDR - of_nat hdr)) @ [0, 0])
             else Some b);
          if is_ipv4 m then
            do { next_protocol \<leftarrow> rd b (ip + 9);
                 b \<leftarrow> update_ipv4 api b ip (Some protocol) (pkt_len m - of_nat ETHER_HDR);
                 b \<leftarrow> udp IPV4_HDR b;
                 Some (next_protocol, set_first m b) }
          else if is_ipv6 m then
            do { next_protocol \<leftarrow> rd b (ip + 6);
                 b \<leftarrow> update_ipv6 b ip (Some protocol) (pkt_len m - of_nat ETHER_HDR - of_nat IPV6_HDR);
                 b \<leftarrow> udp IPV6_HDR b;
                 Some (next_protocol, set_first m b) }
          else Some (0, m) }"

text \<open>Length of the Ethernet and the IP header in front of a packet.\<close>

definition l2_l3_len :: "mbuf \<Rightarrow> u32 option" where
  "l2_l3_len m =
     (if is_ipv4 m
      then do { (b, oh) \<leftarrow> mtod m; v \<leftarrow> rd b (oh + ETHER_HDR); Some (ipv4_hdr_len v + of_nat ETHER_HDR) }
      else Some (of_nat (IPV6_HDR + ETHER_HDR)))"

definition prepare_packet_transport ::
    "mbuf_api \<Rightarrow> mbuf \<Rightarrow> core_ctx \<Rightarrow> u32 \<Rightarrow> bool \<Rightarrow> (doca_error \<times> mbuf \<times> core_ctx) option" where
  "prepare_packet_transport api m ctx rule_idx udp_transport =
     do { rule \<leftarrow> the_rule (encrypt_rules ctx) rule_idx;
          let icv_len = get_icv_len_int (sa_icv_length (er_sa_attrs rule));
          let sw_sn_inc = sw_sn_inc_enable (config ctx);
          let protocol = (if udp_transport then 17 else 50 :: u8);
          m \<leftarrow> remove_ethernet_padding api m;
          (_, oh) \<leftarrow> mtod m;
          hlen \<leftarrow> l2_l3_len m;
          let payload_len = pkt_len m - hlen;
          let esp_len = (if udp_transport then 24 else 16 :: u16);
          let pad = padding_len payload_len;
          let trailer_len = pad + icv_len;
          case rte_pktmbuf_prepend api m esp_len of
            None \<Rightarrow> Some (DOCA_ERROR_NO_MEMORY, m, ctx)
          | Some m \<Rightarrow>
              do { (padding_offset, m) \<leftarrow> append_tail trailer_len m;
                   (b, nh) \<leftarrow> mtod m;
                   hdr \<leftarrow> rds b oh (unat hlen);
                   b \<leftarrow> wr b nh hdr;
                   b \<leftarrow> wr b (nh + unat hlen)
                          (if udp_transport then create_udp_transport_encap rule sw_sn_inc
                           else create_transport_encap rule sw_sn_inc);
                   (next_protocol, m) \<leftarrow> transport_headers api (set_first m b) udp_transport protocol;
                   m \<leftarrow> write_trailer padding_offset (pad - of_nat ESP_TAIL) next_protocol m;
                   Some (DOCA_SUCCESS, m, inc_sn rule_idx ctx) } }"

definition handle_unsecured_packets_received ::
    "mbuf_api \<Rightarrow> mbuf \<Rightarrow> core_ctx \<Rightarrow> (doca_error \<times> mbuf \<times> core_ctx) option" where
  "handle_unsecured_packets_received api m ctx =
     (let rule_idx = meta_rule_id (mb_meta m) in
      case gw_mode (config ctx) of
        IPSEC_SECURITY_GW_TRANSPORT \<Rightarrow> prepare_packet_transport api m ctx rule_idx False
      | IPSEC_SECURITY_GW_UDP_TRANSPORT \<Rightarrow> prepare_packet_transport api m ctx rule_idx True
      | IPSEC_SECURITY_GW_TUNNEL \<Rightarrow> prepare_packet_tunnel api m ctx rule_idx)"

section \<open>Decapsulation\<close>

text \<open>The loop of \<^verbatim>\<open>mbuf_get_seg_ofs\<close>; it runs off the end of a chain that is shorter than its \<^verbatim>\<open>pkt_len\<close>.\<close>

fun seg_ofs :: "seg list \<Rightarrow> nat \<Rightarrow> u32 \<Rightarrow> (nat \<times> u32) option" where
  "seg_ofs [] i offset = None"
| "seg_ofs (s # ss) i offset =
     (if ucast (slen s) \<le> offset then seg_ofs ss (Suc i) (offset - ucast (slen s)) else Some (i, offset))"

text \<open>The index of the segment and the offset in it, behind an error code.\<close>

definition mbuf_get_seg_ofs :: "mbuf \<Rightarrow> u32 \<Rightarrow> (doca_error + nat \<times> u32) option" where
  "mbuf_get_seg_ofs m offset =
     (if pkt_len m \<le> offset then Some (Inl DOCA_ERROR_INVALID_VALUE)
      else map_option Inr (seg_ofs (segs m) 0 offset))"

definition remove_packet_tail :: "mbuf_api \<Rightarrow> mbuf \<Rightarrow> u32 \<Rightarrow> ((doca_error + u8) \<times> mbuf) option" where
  "remove_packet_tail api m icv_len =
     do { m \<leftarrow> remove_ethernet_padding api m;
          let trailer_len = icv_len + of_nat ESP_TAIL;
          r \<leftarrow> mbuf_get_seg_ofs m (pkt_len m - trailer_len);
          case r of
            Inl result \<Rightarrow> Some (Inl result, m)
          | Inr (i, off) \<Rightarrow>
              do { let ml = segs m ! i;
                   pad_len \<leftarrow> rd (sbuf ml) (soff ml + unat off);
                   next_proto \<leftarrow> rd (sbuf ml) (soff ml + unat off + 1);
                   Some (Inr next_proto,
                     m\<lparr>pkt_len := pkt_len m - (trailer_len + ucast pad_len),
                       segs := (segs m)[i := ml\<lparr>slen := ucast (off - ucast pad_len)\<rparr>]\<rparr>) } }"

text \<open>\<^verbatim>\<open>for (i = n - 1; i >= 0; i--) np[i] = op[i]\<close>\<close>

fun copy_down :: "nat \<Rightarrow> nat \<Rightarrow> nat \<Rightarrow> u8 list \<Rightarrow> u8 list option" where
  "copy_down 0 np op b = Some b"
| "copy_down (Suc i) np op b =
     do { v \<leftarrow> rd b (op + i); b \<leftarrow> wr b (np + i) [v]; copy_down i np op b }"

definition decap_packet_tunnel ::
    "mbuf_api \<Rightarrow> mbuf \<Rightarrow> core_ctx \<Rightarrow> u32 \<Rightarrow> (doca_error \<times> mbuf) option" where
  "decap_packet_tunnel api m ctx rule_idx =
     do { rule \<leftarrow> the_rule (decrypt_rules ctx) rule_idx;
          (r, m) \<leftarrow> remove_packet_tail api m (get_icv_len_int (sa_icv_length (dr_sa_attrs rule)));
          case r of
            Inl result \<Rightarrow> Some (result, m)
          | Inr proto \<Rightarrow>
              do { (b, op) \<leftarrow> mtod m;
                   l3_len \<leftarrow> (if is_ipv4 m then map_option ipv4_hdr_len (rd b (op + ETHER_HDR))
                              else Some (of_nat IPV6_HDR));
                   case rte_pktmbuf_adj api m (ucast (l3_len + of_nat ESP_HDR + 8)) of
                     None \<Rightarrow> Some (DOCA_ERROR_INVALID_VALUE, m)
                   | Some m \<Rightarrow>
                       do { (b, np) \<leftarrow> mtod m;
                            b \<leftarrow> copy_down ETHER_HDR np op b;
                            b \<leftarrow> wr b (np + 12) (if proto = 41 then [0x86, 0xdd] else [0x08, 0x00]);
                            Some (DOCA_SUCCESS, set_first m b) } } }"

text \<open>The IP header is changed where it stood before the packet was cut, and copied then.\<close>

definition decap_packet_transport ::
    "mbuf_api \<Rightarrow> mbuf \<Rightarrow> core_ctx \<Rightarrow> u32 \<Rightarrow> bool \<Rightarrow> (doca_error \<times> mbuf) option" where
  "decap_packet_transport api m ctx rule_idx udp_transport =
     do { rule \<leftarrow> the_rule (decrypt_rules ctx) rule_idx;
          (r, m) \<leftarrow> remove_packet_tail api m (get_icv_len_int (sa_icv_length (dr_sa_attrs rule)));
          case r of
            Inl result \<Rightarrow> Some (result, m)
          | Inr proto \<Rightarrow>
              do { (_, op) \<leftarrow> mtod m;
                   hlen \<leftarrow> l2_l3_len m;
                   case rte_pktmbuf_adj api m (if udp_transport then of_nat (ESP_HDR + UDP_HDR + 8)
                                               else of_nat (ESP_HDR + 8)) of
                     None \<Rightarrow> Some (DOCA_ERROR_INVALID_VALUE, m)
                   | Some m \<Rightarrow>
                       do { (b, np) \<leftarrow> mtod m;
                            b \<leftarrow> (if is_ipv4 m
                                  then update_ipv4 api b (op + ETHER_HDR) (Some proto)
                                         (pkt_len m - of_nat ETHER_HDR)
                                  else update_ipv6 b (op + ETHER_HDR) (Some proto)
                                         (pkt_len m - of_nat ETHER_HDR - of_nat IPV6_HDR));
                            b \<leftarrow> copy_down (unat hlen) np op b;
                            Some (DOCA_SUCCESS, set_first m b) } } }"

definition get_esp_sn :: "mbuf \<Rightarrow> ipsec_security_gw_mode \<Rightarrow> u32 option" where
  "get_esp_sn m mode =
     do { (b, oh) \<leftarrow> mtod m;
          hlen \<leftarrow> l2_l3_len m;
          let hlen = (if mode = IPSEC_SECURITY_GW_UDP_TRANSPORT then hlen + of_nat UDP_HDR else hlen);
          (sn, _) \<leftarrow> unpack_uint32 \<lparr>mem = b, head = oh + unat hlen + 4\<rparr>;
          Some sn }"

definition handle_secured_packets_received ::
    "mbuf_api \<Rightarrow> mbuf \<Rightarrow> bool \<Rightarrow> core_ctx \<Rightarrow> (doca_error \<times> mbuf \<times> core_ctx) option" where
  "handle_secured_packets_received api m bad_syndrome_check ctx =
     (let rule_idx = meta_rule_id (mb_meta m);
          decap = (\<lambda>ctx. map_option (\<lambda>(result, m). (result, m, ctx))
            (case gw_mode (config ctx) of
               IPSEC_SECURITY_GW_TRANSPORT \<Rightarrow> decap_packet_transport api m ctx rule_idx False
             | IPSEC_SECURITY_GW_UDP_TRANSPORT \<Rightarrow> decap_packet_transport api m ctx rule_idx True
             | IPSEC_SECURITY_GW_TUNNEL \<Rightarrow> decap_packet_tunnel api m ctx rule_idx))
      in if bad_syndrome_check \<and> (meta_decrypt_syndrome (mb_meta m) \<noteq> 0 \<or> meta_antireplay_syndrome (mb_meta m) \<noteq> 0)
         then Some (DOCA_ERROR_BAD_STATE, m, ctx)
         else if sw_antireplay (config ctx) then
           do { sn \<leftarrow> get_esp_sn m (gw_mode (config ctx));
                rule \<leftarrow> the_rule (decrypt_rules ctx) rule_idx;
                (state, drop_it) \<leftarrow> anti_replay sn (dr_antireplay_state rule);
                let ctx = ctx\<lparr>decrypt_rules :=
                  (decrypt_rules ctx)[unat rule_idx := rule\<lparr>dr_antireplay_state := state\<rparr>]\<rparr>;
                if drop_it then Some (DOCA_ERROR_BAD_STATE, m, ctx) else decap ctx }
         else decap ctx)"

section \<open>Bursts\<close>

definition PACKET_BURST :: nat where "PACKET_BURST = 32"
definition NB_TX_BURST_TRIES :: int where "NB_TX_BURST_TRIES = 5"

definition is_fwd_syndrome_rss :: "gw_config \<Rightarrow> bool" where
  "is_fwd_syndrome_rss app_cfg \<longleftrightarrow> debug_mode app_cfg \<and> syndrome_fwd app_cfg = IPSEC_SECURITY_GW_FWD_SYNDROME_RSS"

text \<open>One packet of a burst: the result, the packet and the context.\<close>

definition handle_packet :: "mbuf_api \<Rightarrow> u16 \<Rightarrow> mbuf \<Rightarrow> core_ctx \<Rightarrow> (doca_error \<times> mbuf \<times> core_ctx) option" where
  "handle_packet api port_id m ctx =
     (let port_id = (if gw_flow_mode (config ctx) = IPSEC_SECURITY_GW_SWITCH
                     then if meta_encrypt (mb_meta m) then unsecured_port_id ctx else secured_port_id ctx
                     else port_id)
      in if port_id = unsecured_port_id ctx then handle_unsecured_packets_received api m ctx
         else handle_secured_packets_received api m (is_fwd_syndrome_rss (config ctx)) ctx)"

text \<open>The processed and the unprocessed packets go to arrays of \<^verbatim>\<open>PACKET_BURST\<close> pointers.\<close>

fun handle_packets_received ::
    "mbuf_api \<Rightarrow> u16 \<Rightarrow> mbuf list \<Rightarrow> core_ctx \<Rightarrow> mbuf list \<Rightarrow> mbuf list \<Rightarrow> (mbuf list \<times> mbuf list \<times> core_ctx) option" where
  "handle_packets_received api port_id [] ctx processed unprocessed = Some (processed, unprocessed, ctx)"
| "handle_packets_received api port_id (m # ms) ctx processed unprocessed =
     do { (result, m, ctx) \<leftarrow> handle_packet api port_id m ctx;
          if result = DOCA_SUCCESS
          then if length processed < PACKET_BURST
               then handle_packets_received api port_id ms ctx (processed @ [m]) unprocessed else None
          else if length unprocessed < PACKET_BURST
               then handle_packets_received api port_id ms ctx processed (unprocessed @ [m]) else None }"

text \<open>
  The transmit loop of \<^verbatim>\<open>process_queue_packets\<close>: \<open>tx k n\<close> is how many of \<open>n\<close> packets the \<open>k\<close>-th call
  of \<^verbatim>\<open>rte_eth_tx_burst\<close> takes. The result is the number of packets that were sent, the tries that
  are left and the number of calls.
\<close>

function tx_loop :: "(nat \<Rightarrow> nat \<Rightarrow> nat) \<Rightarrow> nat \<Rightarrow> nat \<Rightarrow> int \<Rightarrow> nat \<Rightarrow> nat \<times> int \<times> nat" where
  "tx_loop tx nb_processed nb_pkts num_of_tries k =
     (let nb_pkts = nb_pkts + tx k (nb_processed - nb_pkts); num_of_tries = num_of_tries - 1 in
      if nb_pkts < nb_processed \<and> num_of_tries > 0
      then tx_loop tx nb_processed nb_pkts num_of_tries (Suc k) else (nb_pkts, num_of_tries, Suc k))"
  by pat_completeness auto
termination
  by (relation "measure (\<lambda>(_, _, _, t, _). nat t)") auto

declare tx_loop.simps [simp del]

text \<open>What becomes of the packets of a burst.\<close>

record burst_state =
  bs_ctx :: core_ctx
  num_of_tries :: int
  tx_calls :: nat
  sent :: "(u16 \<times> mbuf) list"
  freed :: "mbuf list"

definition process_burst ::
    "mbuf_api \<Rightarrow> (nat \<Rightarrow> nat \<Rightarrow> nat) \<Rightarrow> u16 \<Rightarrow> mbuf list \<Rightarrow> burst_state \<Rightarrow> burst_state option" where
  "process_burst api tx port_id packets st =
     (if packets = [] then Some st
      else do { (processed, to_drop, ctx) \<leftarrow> handle_packets_received api port_id packets (bs_ctx st) [] [];
                let tx_port = (if gw_flow_mode (config ctx) = IPSEC_SECURITY_GW_VNF then port_id XOR 1 else port_id);
                let (nb_pkts, tries, k) = tx_loop tx (length processed) 0 (num_of_tries st) (tx_calls st);
                let nb_packets_to_drop = length packets - length processed;
                Some (st\<lparr>bs_ctx := ctx, num_of_tries := tries, tx_calls := k,
                         sent := sent st @ map (\<lambda>m. (tx_port, m)) (take nb_pkts processed),
                         freed := freed st @ take nb_packets_to_drop to_drop\<rparr>) })"

text \<open>The rounds of \<^verbatim>\<open>process_queue_packets\<close>: the bursts received from the ports in turn.\<close>

fun process_queue_packets ::
    "mbuf_api \<Rightarrow> (nat \<Rightarrow> nat \<Rightarrow> nat) \<Rightarrow> (u16 \<times> mbuf list) list \<Rightarrow> burst_state \<Rightarrow> burst_state option" where
  "process_queue_packets api tx [] st = Some st"
| "process_queue_packets api tx ((port_id, packets) # bursts) st =
     do { st \<leftarrow> process_burst api tx port_id packets st; process_queue_packets api tx bursts st }"

definition initial_burst_state :: "core_ctx \<Rightarrow> burst_state" where
  "initial_burst_state ctx = \<lparr>bs_ctx = ctx, num_of_tries = NB_TX_BURST_TRIES, tx_calls = 0, sent = [], freed = []\<rparr>"

end
