(* ===== verification/Ipsec_Roundtrip.thy ===== *)
theory Ipsec_Roundtrip
  imports Ipsec_Packet
begin

text \<open>
  What the packet path of the IPsec gateway does to packets of one segment: the bytes of an
  encapsulated packet, the bytes that decapsulation leaves, and that the one undoes the other in
  tunnel, transport and UDP transport mode.
\<close>

section \<open>Numbers\<close>

lemma ucast_of_nat_down: "(ucast (of_nat n :: u32) :: u16) = of_nat n"
  by (simp add: unsigned_of_nat word_of_nat_eq_iff min_def)

lemma ucast_of_nat_up: "n < 2 ^ 16 \<Longrightarrow> (ucast (of_nat n :: u16) :: u32) = of_nat n"
  by (simp add: unsigned_of_nat take_bit_nat_eq_self)

lemma unat_ucast8: "unat (ucast (w :: u8) :: u32) = unat w"
  using unat_bound [of w] by (simp add: unsigned_ucast_eq take_bit_nat_eq_self)

lemma of_nat_diff32: "b \<le> a \<Longrightarrow> (of_nat a - of_nat b :: u32) = of_nat (a - b)"
  by (simp add: of_nat_diff)

lemma unat_of_nat32: "n < 2 ^ 32 \<Longrightarrow> unat (of_nat n :: u32) = n"
  by (simp add: unat_of_nat)

lemma unat_of_nat16: "n < 2 ^ 16 \<Longrightarrow> unat (of_nat n :: u16) = n"
  by (simp add: unat_of_nat)

text \<open>The padding, tail included: between two and five bytes.\<close>

definition padn :: "nat \<Rightarrow> nat" where
  "padn n = (n + 5) div 4 * 4 - n"

lemma padn_bounds: "2 \<le> padn n" "padn n \<le> 5"
proof -
  show "2 \<le> padn n" unfolding padn_def by presburger
  show "padn n \<le> 5" unfolding padn_def by presburger
qed

lemma padding_len_nat: "n < 2 ^ 16 \<Longrightarrow> padding_len (of_nat n) = of_nat (padn n)"
proof -
  assume n: "n < 2 ^ 16"
  have "(of_nat (n + 5) :: u32) div 4 = of_nat ((n + 5) div 4)"
    using n by (simp add: word_unat_eq_iff unat_div unat_of_nat del: of_nat_add)
  then have "align_ceil (of_nat n + 2) 4 = of_nat ((n + 5) div 4) * 4"
    by (simp add: align_ceil_def add.assoc)
  also have "\<dots> = of_nat ((n + 5) div 4 * 4)" by simp
  finally have a: "align_ceil (of_nat n + 2) 4 = (of_nat ((n + 5) div 4 * 4) :: u32)" .
  have "n \<le> (n + 5) div 4 * 4" by presburger
  then show ?thesis
    unfolding padding_len_def PADDING_ALIGN_def ESP_TAIL_def padn_def of_nat_diff32 [symmetric, OF \<open>n \<le> (n + 5) div 4 * 4\<close>]
    using a by simp
qed

section \<open>Splicing\<close>

definition patch :: "'a list \<Rightarrow> nat \<Rightarrow> 'a list \<Rightarrow> 'a list" where
  "patch l k bs = take k l @ bs @ drop (k + length bs) l"

lemma length_patch [simp]: "k + length bs \<le> length l \<Longrightarrow> length (patch l k bs) = length l"
  by (simp add: patch_def)

lemma wr_patch: "wr b i bs = (if i + length bs \<le> length b then Some (patch b i bs) else None)"
  by (simp add: wr_def patch_def)

lemma wr_mid:
  "k + length bs \<le> length l \<Longrightarrow> wr (a @ l @ c) (length a + k) bs = Some (a @ patch l k bs @ c)"
  by (simp add: wr_def patch_def)

lemma wr_here: "length bs = length l \<Longrightarrow> wr (a @ l @ c) (length a) bs = Some (a @ bs @ c)"
  using wr_mid [of 0 bs l a c] by (simp add: patch_def)

lemma rd_mid: "k < length l \<Longrightarrow> rd (a @ l @ c) (length a + k) = Some (l ! k)"
  by (simp add: rd_def nth_append)

lemma rds_here: "n = length l \<Longrightarrow> rds (a @ l @ c) (length a) n = Some l"
  by (simp add: rds_def)

lemma copy_down_eq:
  "op \<le> np \<Longrightarrow> np + n \<le> length b \<Longrightarrow> copy_down n np op b = Some (patch b np (take n (drop op b)))"
proof (induction n arbitrary: b)
  case 0
  then show ?case by (simp add: patch_def)
next
  case (Suc n)
  let ?v = "b ! (op + n)" and ?b = "b[np + n := b ! (op + n)]"
  have w: "wr b (np + n) [?v] = Some ?b"
    using Suc.prems by (simp add: wr_def upd_conv_take_nth_drop)
  have "take n (drop op ?b) = take n (drop op b)"
    using Suc.prems by (auto intro!: nth_equalityI)
  moreover have "patch ?b np (take n (drop op b)) = patch b np (take (Suc n) (drop op b))"
    using Suc.prems
    by (auto simp: patch_def nth_append nth_list_update intro!: nth_equalityI) (metis less_antisym)
  ultimately show ?case
    using Suc w by (simp add: rd_def)
qed

section \<open>Headers\<close>

text \<open>The IPv4 header after its protocol, length and checksum have been set.\<close>

definition upd_hdr :: "mbuf_api \<Rightarrow> u8 option \<Rightarrow> u32 \<Rightarrow> u8 list \<Rightarrow> u8 list" where
  "upd_hdr api proto len h =
     (let h = (case proto of None \<Rightarrow> h | Some p \<Rightarrow> patch h 9 [p]);
          h = patch (patch h 2 (enc16 (ucast len))) 10 [0, 0]
      in patch h 10 (le16 (rte_ipv4_cksum api h)))"

definition upd_hdr6 :: "u8 option \<Rightarrow> u32 \<Rightarrow> u8 list \<Rightarrow> u8 list" where
  "upd_hdr6 proto len h =
     patch (case proto of None \<Rightarrow> h | Some p \<Rightarrow> patch h 6 [p]) 4 (enc16 (ucast len))"

lemma length_le16 [simp]: "length (le16 v) = 2"
  by (simp add: le16_def)

lemma nth_patch: "k + length bs \<le> length l \<Longrightarrow> i < length l \<Longrightarrow>
   patch l k bs ! i = (if k \<le> i \<and> i < k + length bs then bs ! (i - k) else l ! i)"
  by (auto simp: patch_def nth_append)

lemma nth0_patch: "0 < k \<Longrightarrow> k + length bs \<le> length l \<Longrightarrow> patch l k bs ! 0 = l ! 0"
  by (cases l) (auto simp: patch_def nth_append)

lemma length_upd_hdr [simp]: "20 \<le> length h \<Longrightarrow> length (upd_hdr api proto len h) = length h"
  by (simp add: upd_hdr_def Let_def split: option.split)

lemma length_upd_hdr6 [simp]: "40 \<le> length h \<Longrightarrow> length (upd_hdr6 proto len h) = length h"
  by (simp add: upd_hdr6_def split: option.split)

lemma hd_upd_hdr: "20 \<le> length h \<Longrightarrow> upd_hdr api proto len h ! 0 = h ! 0"
  by (simp add: upd_hdr_def Let_def nth0_patch split: option.split)

lemma update_ipv4_eq:
  assumes "20 \<le> length h" and "unat (ipv4_hdr_len (h ! 0)) = length h"
  shows "update_ipv4 api (a @ h @ c) (length a) proto len = Some (a @ upd_hdr api proto len h @ c)"
proof -
  let ?h1 = "case proto of None \<Rightarrow> h | Some p \<Rightarrow> patch h 9 [p]"
  let ?h2 = "patch (patch ?h1 2 (enc16 (ucast len))) 10 [0, 0]"
  have l: "length ?h1 = length h" using assms by (simp split: option.split)
  have z: "?h2 ! 0 = h ! 0" using assms l by (simp add: nth0_patch split: option.split)
  have "length ?h2 = length h" using assms l by simp
  then have ne: "0 < length ?h2" using assms(1) by linarith
  have "(case proto of None \<Rightarrow> Some (a @ h @ c) | Some p \<Rightarrow> wr (a @ h @ c) (length a + 9) [p]) = Some (a @ ?h1 @ c)"
    using assms by (simp add: wr_mid split: option.split)
  moreover have "wr (a @ ?h1 @ c) (length a + 2) (enc16 (ucast len)) = Some (a @ patch ?h1 2 (enc16 (ucast len)) @ c)"
    using assms l by (intro wr_mid) simp
  moreover have "wr (a @ patch ?h1 2 (enc16 (ucast len)) @ c) (length a + 10) [0, 0] = Some (a @ ?h2 @ c)"
    using assms l by (intro wr_mid) simp
  moreover have "rd (a @ ?h2 @ c) (length a) = Some (h ! 0)"
    using rd_mid [OF ne, of a c] z by simp
  moreover have "rds (a @ ?h2 @ c) (length a) (unat (ipv4_hdr_len (h ! 0))) = Some ?h2"
    using assms l by (intro rds_here) simp
  moreover have "wr (a @ ?h2 @ c) (length a + 10) (le16 (rte_ipv4_cksum api ?h2))
      = Some (a @ patch ?h2 10 (le16 (rte_ipv4_cksum api ?h2)) @ c)"
    using assms l by (intro wr_mid) simp
  ultimately show ?thesis
    by (simp add: update_ipv4_def upd_hdr_def Let_def)
qed

lemma update_ipv6_eq:
  assumes "40 \<le> length h"
  shows "update_ipv6 (a @ h @ c) (length a) proto len = Some (a @ upd_hdr6 proto len h @ c)"
  using assms by (simp add: update_ipv6_def upd_hdr6_def wr_mid split: option.split)

text \<open>Setting the fields again forgets what was set first, and setting what is there changes nothing.\<close>

lemma patch_same: "k + length bs \<le> length l \<Longrightarrow> length bs = length bs' \<Longrightarrow> patch (patch l k bs) k bs' = patch l k bs'"
  by (simp add: patch_def)

lemma patch_swap:
  "j + length cs \<le> k \<Longrightarrow> k + length bs \<le> length l \<Longrightarrow> patch (patch l k bs) j cs = patch (patch l j cs) k bs"
  by (rule nth_equalityI) (auto simp: nth_patch)

lemma upd_hdr_again:
  assumes "20 \<le> length h"
  shows "upd_hdr api (Some p) len (upd_hdr api (Some p') len' h) = upd_hdr api (Some p) len h"
proof -
  let ?z = "\<lambda>p len h. patch (patch (patch h 9 [p]) 2 (enc16 (ucast len))) 10 [0, 0]"
  have "?z p len (patch (?z p' len' h) 10 v) = ?z p len h" if "length v = 2" for v
    using assms that by (intro nth_equalityI) (auto simp: nth_patch)
  then show ?thesis by (simp add: upd_hdr_def Let_def)
qed

lemma upd_hdr6_again:
  assumes "40 \<le> length h"
  shows "upd_hdr6 (Some p) len (upd_hdr6 (Some p') len' h) = upd_hdr6 (Some p) len h"
  using assms by (intro nth_equalityI) (auto simp: nth_patch upd_hdr6_def)

section \<open>Packets of one segment\<close>

text \<open>A packet whose data is \<open>d\<close>, with bytes in front of it and behind it in its buffer.\<close>

definition pkt :: "u8 list \<Rightarrow> u8 list \<Rightarrow> u8 list \<Rightarrow> mbuf \<Rightarrow> mbuf" where
  "pkt hr d tr m =
     m\<lparr>segs := [\<lparr>sbuf = hr @ d @ tr, soff = length hr, slen = of_nat (length d)\<rparr>], pkt_len := of_nat (length d)\<rparr>"

lemma pkt_fields [simp]:
  "pkt_len (pkt hr d tr m) = of_nat (length d)" "is_ipv4 (pkt hr d tr m) = is_ipv4 m"
  "is_ipv6 (pkt hr d tr m) = is_ipv6 m" "mb_meta (pkt hr d tr m) = mb_meta m"
  "mtod (pkt hr d tr m) = Some (hr @ d @ tr, length hr)"
  by (simp_all add: pkt_def mtod_def)

lemma set_first_pkt:
  "length hr' = length hr \<Longrightarrow> length d' = length d \<Longrightarrow> set_first (pkt hr d tr m) (hr' @ d' @ tr') = pkt hr' d' tr' m"
  by (simp add: set_first_def pkt_def)

text \<open>Long packets have no Ethernet padding.\<close>

lemma no_ethernet_padding:
  "64 < length d \<Longrightarrow> length d < 2 ^ 16 \<Longrightarrow> remove_ethernet_padding api (pkt hr d tr m) = Some (pkt hr d tr m)"
proof -
  assume a: "64 < length d" "length d < 2 ^ 16"
  then have "pkt_len (pkt hr d tr m) > ETHER_MIN_LEN"
    by (simp add: ETHER_MIN_LEN_def word_less_nat_alt unat_of_nat32)
  then show ?thesis by (simp add: remove_ethernet_padding_def)
qed

lemma prepend_pkt:
  assumes "mbuf_laws api" and "unat n = length h" and "length d + length h < 2 ^ 16"
  shows "rte_pktmbuf_prepend api (pkt (hr @ h) d tr m) n = Some (pkt hr (h @ d) tr m)"
proof -
  have n: "n = of_nat (length h)" using assms(2) by (metis unat_eq_of_nat)
  have "rte_pktmbuf_prepend api m' n =
      (if unat n \<le> soff s
       then Some (m'\<lparr>segs := s\<lparr>soff := soff s - unat n, slen := slen s + n\<rparr> # ss, pkt_len := pkt_len m' + ucast n\<rparr>)
       else None)" if "segs m' = s # ss" for m' s ss
    using assms(1) that by (auto simp: mbuf_laws_def)
  then have "rte_pktmbuf_prepend api (pkt (hr @ h) d tr m) n
      = Some (m\<lparr>segs := [\<lparr>sbuf = hr @ h @ d @ tr, soff = length hr, slen = of_nat (length d) + n\<rparr>],
               pkt_len := of_nat (length d) + ucast n\<rparr>)"
    using assms(2) by (simp add: pkt_def)
  then show ?thesis
    using assms(3) by (simp add: pkt_def n ucast_of_nat_up add.commute)
qed

lemma adj_pkt:
  assumes "mbuf_laws api" and "unat n = length h" and "length d + length h < 2 ^ 16"
  shows "rte_pktmbuf_adj api (pkt hr (h @ d) tr m) n = Some (pkt (hr @ h) d tr m)"
proof -
  have n: "n = of_nat (length h)" using assms(2) by (metis unat_eq_of_nat)
  have "rte_pktmbuf_adj api m' n =
      (if n \<le> slen s
       then Some (m'\<lparr>segs := s\<lparr>soff := soff s + unat n, slen := slen s - n\<rparr> # ss, pkt_len := pkt_len m' - ucast n\<rparr>)
       else None)" if "segs m' = s # ss" for m' s ss
    using assms(1) that by (auto simp: mbuf_laws_def)
  moreover have "n \<le> of_nat (length h + length d)"
    unfolding word_le_nat_alt using assms(2,3) by (simp add: unat_of_nat16 add.commute del: of_nat_add)
  ultimately have "rte_pktmbuf_adj api (pkt hr (h @ d) tr m) n
      = Some (m\<lparr>segs := [\<lparr>sbuf = hr @ (h @ d) @ tr, soff = length hr + length h,
                          slen = of_nat (length h + length d) - n\<rparr>],
               pkt_len := of_nat (length h + length d) - ucast n\<rparr>)"
    using assms(2) by (simp add: pkt_def)
  then show ?thesis
    using assms(3) by (simp add: pkt_def n ucast_of_nat_up)
qed

text \<open>A longer last segment takes in bytes from behind the data.\<close>

lemma append_tail_pkt:
  assumes "unat n = length t" and "length d + length t < 2 ^ 16"
  shows "append_tail n (pkt hr d (t @ tr) m) = Some (length d, pkt hr (d @ t) tr m)"
proof -
  have n: "n = of_nat (length t)" using assms(1) by (metis unat_eq_of_nat)
  show ?thesis
    using assms(2) by (simp add: append_tail_def pkt_def unat_of_nat16 n ucast_of_nat_down)
qed

lemma first_write_pkt:
  "length bs = length h \<Longrightarrow> first_write (pkt hr (h @ d) tr m) 0 bs = Some (pkt hr (bs @ d) tr m)"
proof -
  assume l: "length bs = length h"
  have "wr (hr @ h @ d @ tr) (length hr) bs = Some (hr @ bs @ d @ tr)"
    using wr_here [OF l, of hr "d @ tr"] by simp
  then show ?thesis
    using set_first_pkt [of hr hr "bs @ d" "h @ d" tr m tr] l by (simp add: first_write_def)
qed

lemma last_write_pkt:
  assumes "length t = length bs"
  shows "last_write (pkt hr (d @ t @ c) tr m) (length d) bs = Some (pkt hr (d @ bs @ c) tr m)"
proof -
  have "wr (hr @ (d @ t @ c) @ tr) (length hr + length d) bs = Some (hr @ (d @ bs @ c) @ tr)"
    using wr_here [of bs t "hr @ d" "c @ tr"] assms by simp
  then show ?thesis
    using assms by (simp add: last_write_def pkt_def)
qed

lemma write_trailer_pkt:
  assumes "unat pad = length p" and "unat pad \<le> 15" and "length q = 2"
  shows "write_trailer (length d) pad np (pkt hr (d @ p @ q @ c) tr m)
    = Some (pkt hr (d @ take (length p) esp_pad_bytes @ [ucast pad, np] @ c) tr m)"
proof -
  have l: "length (take (length p) esp_pad_bytes) = length p"
    using assms by (simp add: esp_pad_bytes_def)
  have "min (unat pad) (length esp_pad_bytes) = length p"
    using assms by (simp add: esp_pad_bytes_def)
  then show ?thesis
    using last_write_pkt [of p "take (length p) esp_pad_bytes" hr d "q @ c" tr m] l assms(1,3)
      last_write_pkt [of q "[ucast pad, np]" hr "d @ take (length p) esp_pad_bytes" c tr m]
    by (simp add: write_trailer_def)
qed

section \<open>Removing the trailer and the headers\<close>

lemma remove_packet_tail_pkt:
  assumes icv: "unat icv_len = length icv" and pad: "unat pl = length p"
    and len: "64 < length x + length p + 2 + length icv" "length x + length p + 2 + length icv < 2 ^ 16"
  shows "remove_packet_tail api (pkt hr (x @ p @ [pl, np] @ icv) tr m) icv_len
    = Some (Inr np, pkt hr x (p @ [pl, np] @ icv @ tr) m)"
proof -
  let ?d = "x @ p @ [pl, np] @ icv" and ?n = "length x + length p + 2 + length icv"
  have n: "length ?d = ?n" by simp
  have icv': "icv_len = of_nat (length icv)" using icv by (metis unat_eq_of_nat)
  have pl: "(ucast pl :: u32) = of_nat (length p)"
    unfolding pad [symmetric] by simp
  have off: "of_nat ?n - (icv_len + of_nat ESP_TAIL) = (of_nat (length x + length p) :: u32)"
    unfolding icv' by (simp add: ESP_TAIL_def)
  have u: "unat (of_nat (length x + length p) :: u32) = length x + length p" "unat (of_nat ?n :: u32) = ?n"
    using len(2) by (intro unat_of_nat32; simp)+
  have lt: "\<not> (of_nat ?n :: u32) \<le> of_nat (length x + length p)"
    unfolding word_le_nat_alt u by simp
  have sl: "\<not> ucast (of_nat ?n :: u16) \<le> (of_nat (length x + length p) :: u32)"
    unfolding ucast_of_nat_up [OF len(2)] by (rule lt)
  have r: "rd (hr @ ?d @ tr) (length hr + (length x + length p)) = Some pl"
    "rd (hr @ ?d @ tr) (length hr + (length x + length p) + 1) = Some np"
    by (simp_all add: rd_def nth_append)
  have e: "(of_nat (length x + length p) :: u32) - of_nat (length p) = of_nat (length x)"
    "(of_nat ?n :: u32) - (icv_len + of_nat ESP_TAIL + of_nat (length p)) = of_nat (length x)"
    unfolding icv' by (simp_all add: ESP_TAIL_def)
  have g: "mbuf_get_seg_ofs (pkt hr ?d tr m) (of_nat (length x + length p))
      = Some (Inr (0, of_nat (length x + length p)))"
    using lt sl by (simp add: mbuf_get_seg_ofs_def pkt_def add_ac)
  define P where "P = pkt hr ?d tr m"
  define k :: u32 where "k = of_nat (length x + length p)"
  have "remove_ethernet_padding api P = Some P"
    unfolding P_def using len by (intro no_ethernet_padding) simp_all
  moreover have "pkt_len P - (icv_len + of_nat ESP_TAIL) = k"
    using off by (simp add: P_def k_def add_ac)
  moreover have "mbuf_get_seg_ofs P k = Some (Inr (0, k))"
    using g by (simp add: P_def k_def)
  moreover have "rd (sbuf (segs P ! 0)) (soff (segs P ! 0) + unat k) = Some pl"
    "rd (sbuf (segs P ! 0)) (Suc (soff (segs P ! 0) + unat k)) = Some np"
    using r u by (simp_all add: P_def k_def pkt_def)
  moreover have "P\<lparr>pkt_len := pkt_len P - (icv_len + of_nat ESP_TAIL + ucast pl),
      segs := (segs P)[0 := (segs P ! 0)\<lparr>slen := ucast (k - ucast pl)\<rparr>]\<rparr> = pkt hr x (p @ [pl, np] @ icv @ tr) m"
    using e by (simp add: P_def k_def pkt_def pl ucast_of_nat_down add_ac)
  ultimately show ?thesis
    unfolding remove_packet_tail_def P_def [symmetric] by simp
qed

text \<open>
  Cutting a packet: its first bytes \<open>l2 @ l3 @ esp = g @ k\<close>, of which \<open>g\<close> goes, while the header in
  front is copied over \<open>k\<close>.
\<close>

lemma copy_front:
  assumes "length f = length k" and "f @ r = g @ k"
  shows "copy_down (length f) (length (hr @ g)) (length hr) (hr @ g @ k @ c) = Some (hr @ g @ f @ c)"
proof -
  have "take (length f) (drop (length hr) (hr @ g @ k @ c)) = take (length f) ((g @ k) @ c)" by simp
  also have "\<dots> = f" unfolding assms(2) [symmetric] by simp
  finally have t: "take (length f) (drop (length hr) (hr @ g @ k @ c)) = f" .
  have "copy_down (length f) (length (hr @ g)) (length hr) (hr @ g @ k @ c)
      = Some (patch (hr @ g @ k @ c) (length (hr @ g)) (take (length f) (drop (length hr) (hr @ g @ k @ c))))"
    using assms(1) by (intro copy_down_eq) simp_all
  moreover have "patch (hr @ g @ k @ c) (length (hr @ g)) f = hr @ g @ f @ c"
    using assms(1) by (simp add: patch_def)
  ultimately show ?thesis by (simp only: t)
qed

lemma decap_tunnel_pkt:
  assumes laws: "mbuf_laws api"
    and rule: "the_rule (decrypt_rules ctx) rule_idx = Some rule"
    and icv: "unat (get_icv_len_int (sa_icv_length (dr_sa_attrs rule))) = length icv"
    and l2: "length l2 = 14" and esp: "length esp = 16" and pad: "unat pl = length p"
    and l3: "if is_ipv4 m then l3 \<noteq> [] \<and> unat (ipv4_hdr_len (l3 ! 0)) = length l3 else length l3 = 40"
    and len: "64 < length (l2 @ l3 @ esp @ q @ p @ [pl, np] @ icv)" "length (l2 @ l3 @ esp @ q @ p @ [pl, np] @ icv) < 2 ^ 16"
  shows "\<exists>hr' tr'. decap_packet_tunnel api (pkt hr (l2 @ l3 @ esp @ q @ p @ [pl, np] @ icv) tr m) ctx rule_idx
    = Some (DOCA_SUCCESS, pkt hr' (take 12 l2 @ (if np = 41 then [0x86, 0xdd] else [0x08, 0x00]) @ q) tr' m)"
proof -
  let ?tr = "p @ [pl, np] @ icv @ tr"
  define f where "f = l2 @ l3 @ esp"
  define g where "g = take (length l3 + 16) f"
  define k where "k = drop (length l3 + 16) f"
  have gk: "f = g @ k" and lg: "length g = length l3 + 16" and lk: "length k = 14"
    using l2 esp by (simp_all add: f_def g_def k_def)
  have l3': "length l3 < 2 ^ 8"
  proof (cases "is_ipv4 m")
    case True
    then have "length l3 = unat (ucast ((l3 ! 0 AND 0x0F) * 4) :: u32)" using l3 by (simp add: ipv4_hdr_len_def)
    also have "\<dots> < 2 ^ 8"
      using unat_bound [of "(l3 ! 0 AND 0x0F) * 4"] by (simp only: unat_ucast8) simp
    finally show ?thesis .
  qed (use l3 in simp)
  define n where "n = (if is_ipv4 m then ipv4_hdr_len (l3 ! 0) else of_nat 40)"
  have un: "unat n = length l3"
    using l3 by (auto simp: n_def split: if_splits)
  have n16: "unat (ucast (n + of_nat ESP_HDR + 8) :: u16) = length g"
  proof -
    have "n = of_nat (length l3)" using un by (metis unat_eq_of_nat)
    then have "ucast (n + of_nat ESP_HDR + 8) = (of_nat (length l3 + 16) :: u16)"
      using ucast_of_nat_down [of "length l3 + 16"] by (simp add: ESP_HDR_def add.assoc)
    then show ?thesis using l3' lg by (simp add: unat_of_nat16 del: of_nat_add)
  qed
  have tail: "remove_packet_tail api (pkt hr (l2 @ l3 @ esp @ q @ p @ [pl, np] @ icv) tr m)
      (get_icv_len_int (sa_icv_length (dr_sa_attrs rule))) = Some (Inr np, pkt hr (f @ q) ?tr m)"
    using remove_packet_tail_pkt [OF icv pad, where x = "l2 @ l3 @ esp @ q"] len by (simp add: f_def)
  have adj: "rte_pktmbuf_adj api (pkt hr (f @ q) ?tr m) (ucast (n + of_nat ESP_HDR + 8)) = Some (pkt (hr @ g) (k @ q) ?tr m)"
    using adj_pkt [OF laws n16, of "k @ q" hr ?tr m] len lk l2 esp lg by (simp add: gk)
  have first: "(if is_ipv4 m then map_option ipv4_hdr_len (rd (hr @ (f @ q) @ ?tr) (length hr + ETHER_HDR))
      else Some (of_nat IPV6_HDR)) = Some n"
  proof (cases "is_ipv4 m")
    case True
    then have "rd (hr @ (f @ q) @ ?tr) (length hr + 14) = Some (l3 ! 0)"
      using rd_mid [of 14 "f @ q" hr ?tr] l2 l3 by (simp add: f_def nth_append)
    with True show ?thesis by (simp add: n_def ETHER_HDR_def)
  qed (simp add: n_def IPV6_HDR_def)
  have copy: "copy_down ETHER_HDR (length (hr @ g)) (length hr) ((hr @ g) @ (k @ q) @ ?tr) = Some (hr @ g @ l2 @ q @ ?tr)"
    using copy_front [of l2 k "l3 @ esp" g hr "q @ ?tr"] l2 lk gk by (simp add: f_def ETHER_HDR_def)
  define ty where "ty = (if np = 41 then [0x86, 0xdd] else [0x08, 0x00 :: u8])"
  have lty: "length ty = 2" by (simp add: ty_def)
  have wty: "wr (hr @ g @ l2 @ q @ ?tr) (length (hr @ g) + 12) ty = Some ((hr @ g) @ (take 12 l2 @ ty @ q) @ ?tr)"
    using wr_mid [of 12 ty l2 "hr @ g" "q @ ?tr"] l2 lty by (simp add: patch_def)
  have "decap_packet_tunnel api (pkt hr (l2 @ l3 @ esp @ q @ p @ [pl, np] @ icv) tr m) ctx rule_idx
      = Some (DOCA_SUCCESS, set_first (pkt (hr @ g) (k @ q) ?tr m) ((hr @ g) @ (take 12 l2 @ ty @ q) @ ?tr))"
    unfolding decap_packet_tunnel_def
    using rule tail first adj copy wty by (simp del: append_assoc append.simps add: ty_def [symmetric])
  then show ?thesis
    using set_first_pkt [of "hr @ g" "hr @ g" "take 12 l2 @ ty @ q" "k @ q" ?tr m ?tr] l2 lk lty
    unfolding ty_def [symmetric] by (intro exI [of _ "hr @ g"] exI [of _ ?tr]) simp
qed

section \<open>Adding the headers and the trailer\<close>

definition tunnel_mac :: "bool \<Rightarrow> u8 list" where
  "tunnel_mac ip4 = [0xaa, 0xbb, 0xcc, 0xdd, 0xee, 0xff, 0x11, 0x22, 0x33, 0x44, 0x55, 0x66]
     @ (if ip4 then [0x08, 0x00] else [0x86, 0xdd])"

text \<open>The IP header of a tunnel before its length and its checksum are set.\<close>

definition tunnel_l3 :: "encrypt_rule \<Rightarrow> bool \<Rightarrow> u16 \<Rightarrow> u8 list" where
  "tunnel_l3 rule ip4 ip_id =
     (if ip4 then drop 14 (take 34 (create_ipv4_tunnel_encap rule True ip_id))
      else drop 14 (take 54 (create_ipv6_tunnel_encap rule True)))"

lemma len_mem_bytes32 [simp]: "length (mem_bytes32 v) = 4"
  by (simp add: mem_bytes32_def)

lemma len_spi_sn [simp]: "length (spi_bytes rule) = 4" "length (sn_bytes rule b) = 4"
  by (simp_all add: spi_bytes_def sn_bytes_def)

lemma len_transport_encap [simp]: "length (create_transport_encap rule b) = 16"
  by (simp add: create_transport_encap_def)

lemma tunnel_encap_parts:
  "create_ipv4_tunnel_encap rule b ip_id = tunnel_mac True @ tunnel_l3 rule True ip_id @ create_transport_encap rule b"
  "create_ipv6_tunnel_encap rule b = tunnel_mac False @ tunnel_l3 rule False ip_id @ create_transport_encap rule b"
  by (simp_all add: create_ipv4_tunnel_encap_def create_ipv6_tunnel_encap_def tunnel_mac_def tunnel_l3_def
      create_transport_encap_def)

lemma len_tunnel [simp]:
  "length (tunnel_mac b) = 14" "length (tunnel_l3 rule True ip_id) = 20" "length (tunnel_l3 rule False ip_id) = 40"
  by (simp_all add: tunnel_mac_def tunnel_l3_def create_ipv4_tunnel_encap_def create_ipv6_tunnel_encap_def)

lemma tunnel_l3_first: "tunnel_l3 rule True ip_id ! 0 = 0x45"
  by (simp add: tunnel_l3_def create_ipv4_tunnel_encap_def)

lemma ipv4_hdr_len_45: "ipv4_hdr_len 0x45 = 20"
  by (simp add: ipv4_hdr_len_def)

text \<open>The IP header of an encapsulated packet whose IP packet has \<open>n\<close> bytes.\<close>

definition tunnel_l3_final :: "mbuf_api \<Rightarrow> encrypt_rule \<Rightarrow> bool \<Rightarrow> u16 \<Rightarrow> nat \<Rightarrow> u8 list" where
  "tunnel_l3_final api rule ip4 ip_id n =
     (if ip4 then upd_hdr api None (of_nat n) (tunnel_l3 rule True ip_id)
      else upd_hdr6 None (of_nat n - 40) (tunnel_l3 rule False ip_id))"

lemma tunnel_l3_final_facts:
  "length (tunnel_l3_final api rule True ip_id n) = 20" "length (tunnel_l3_final api rule False ip_id n) = 40"
  "tunnel_l3_final api rule True ip_id n ! 0 = 0x45"
  by (simp_all add: tunnel_l3_final_def hd_upd_hdr tunnel_l3_first)

text \<open>The trailer of a payload of \<open>n\<close> bytes, without the ICV.\<close>

definition esp_trailer :: "nat \<Rightarrow> u8 \<Rightarrow> u8 list" where
  "esp_trailer n np = take (padn n - 2) esp_pad_bytes @ [of_nat (padn n - 2), np]"

text \<open>The trailer, written into the bytes behind the data.\<close>

lemma trailer_pkt:
  assumes t: "length t = padn n + k" and l: "length d + length t < 2 ^ 16"
  shows "write_trailer (length d) (of_nat (padn n) - of_nat ESP_TAIL) np (pkt hr (d @ t) tr m)
    = Some (pkt hr (d @ esp_trailer n np @ drop (padn n) t) tr m)"
proof -
  note b = padn_bounds [of n]
  define p where "p = take (padn n - 2) t"
  define q where "q = take 2 (drop (padn n - 2) t)"
  have t': "t = p @ q @ drop (padn n) t"
  proof -
    have e: "padn n - 2 + 2 = padn n" using b by simp
    have "take (padn n) t = p @ q"
      using take_add [of "padn n - 2" 2 t] unfolding e p_def q_def .
    then show ?thesis using append_take_drop_id [of "padn n" t] by (metis append_assoc)
  qed
  have pq: "length p = padn n - 2" "length q = 2"
    using t b by (simp_all add: p_def q_def)
  have w: "of_nat (padn n) - of_nat ESP_TAIL = (of_nat (padn n - 2) :: u32)"
    using b by (simp add: ESP_TAIL_def of_nat_diff)
  have u: "unat (of_nat (padn n - 2) :: u32) = length p"
    unfolding pq by (rule unat_of_nat32) (use b in simp)
  have c: "ucast (of_nat (padn n - 2) :: u32) = (of_nat (padn n - 2) :: u8)"
    by (simp add: unsigned_of_nat word_of_nat_eq_iff min_def)
  have "write_trailer (length d) (of_nat (padn n - 2)) np (pkt hr (d @ p @ q @ drop (padn n) t) tr m)
      = Some (pkt hr (d @ take (length p) esp_pad_bytes @ [ucast (of_nat (padn n - 2) :: u32), np] @ drop (padn n) t) tr m)"
    using b pq u by (intro write_trailer_pkt) simp_all
  then show ?thesis
    unfolding w c pq esp_trailer_def by (subst (1) t') simp
qed

text \<open>The headers of a tunnel, written over the front of a packet.\<close>

lemma tunnel_headers_pkt:
  assumes ip4: "ip4 \<longleftrightarrow> er_encap_l3_type rule = DOCA_FLOW_L3_TYPE_IP4"
    and "length h = (if ip4 then 36 else 56)" and "length l2 = 14"
  shows "\<exists>ctx'. tunnel_headers api rule (pkt hr ((h @ l2) @ d) tr m) ctx
    = Some (pkt hr (tunnel_mac ip4 @ tunnel_l3_final api rule ip4 (current_ip_id ctx) (length (h @ d))
        @ create_transport_encap rule (sw_sn_inc_enable (config ctx)) @ d) tr m, ctx')
    \<and> encrypt_rules ctx' = encrypt_rules ctx"
proof (cases ip4)
  case True
  let ?b = "sw_sn_inc_enable (config ctx)"
  let ?esp = "create_transport_encap rule ?b" and ?l3 = "tunnel_l3 rule True (current_ip_id ctx)"
  have "first_write (pkt hr ((h @ l2) @ d) tr m) 0 (create_ipv4_tunnel_encap rule ?b (current_ip_id ctx))
      = Some (pkt hr (tunnel_mac True @ ?l3 @ ?esp @ d) tr m)"
    using first_write_pkt [of "create_ipv4_tunnel_encap rule ?b (current_ip_id ctx)" "h @ l2" hr d tr m] assms True
    by (simp add: tunnel_encap_parts(1))
  moreover have "update_ipv4 api (hr @ (tunnel_mac True @ ?l3 @ ?esp @ d) @ tr) (length hr + 14) None v
      = Some (hr @ (tunnel_mac True @ upd_hdr api None v ?l3 @ ?esp @ d) @ tr)" for v
    using update_ipv4_eq [of ?l3 api "hr @ tunnel_mac True" "?esp @ d @ tr" None v]
    by (simp add: tunnel_l3_first ipv4_hdr_len_45)
  moreover have "set_first (pkt hr (tunnel_mac True @ ?l3 @ ?esp @ d) tr m)
      (hr @ (tunnel_mac True @ upd_hdr api None v ?l3 @ ?esp @ d) @ tr)
      = pkt hr (tunnel_mac True @ upd_hdr api None v ?l3 @ ?esp @ d) tr m" for v
    by (rule set_first_pkt) simp_all
  ultimately show ?thesis
    using True assms
    by (simp add: tunnel_headers_def tunnel_l3_final_def ETHER_HDR_def del: append_assoc)
next
  case False
  let ?b = "sw_sn_inc_enable (config ctx)"
  let ?esp = "create_transport_encap rule ?b" and ?l3 = "tunnel_l3 rule False (current_ip_id ctx)"
  have "first_write (pkt hr ((h @ l2) @ d) tr m) 0 (create_ipv6_tunnel_encap rule ?b)
      = Some (pkt hr (tunnel_mac False @ ?l3 @ ?esp @ d) tr m)"
    using first_write_pkt [of "create_ipv6_tunnel_encap rule ?b" "h @ l2" hr d tr m] assms False
    by (simp add: tunnel_encap_parts(2) [of rule ?b "current_ip_id ctx"])
  moreover have "update_ipv6 (hr @ (tunnel_mac False @ ?l3 @ ?esp @ d) @ tr) (length hr + 14) None v
      = Some (hr @ (tunnel_mac False @ upd_hdr6 None v ?l3 @ ?esp @ d) @ tr)" for v
    using update_ipv6_eq [of ?l3 "hr @ tunnel_mac False" "?esp @ d @ tr" None v] by simp
  moreover have "set_first (pkt hr (tunnel_mac False @ ?l3 @ ?esp @ d) tr m)
      (hr @ (tunnel_mac False @ upd_hdr6 None v ?l3 @ ?esp @ d) @ tr)
      = pkt hr (tunnel_mac False @ upd_hdr6 None v ?l3 @ ?esp @ d) tr m" for v
    by (rule set_first_pkt) simp_all
  ultimately show ?thesis
    using False assms
    by (simp add: tunnel_headers_def tunnel_l3_final_def ETHER_HDR_def IPV6_HDR_def del: append_assoc)
qed

lemma encap_tunnel_pkt:
  assumes laws: "mbuf_laws api"
    and rule: "the_rule (encrypt_rules ctx) rule_idx = Some rule"
    and ip4: "ip4 \<longleftrightarrow> er_encap_l3_type rule = DOCA_FLOW_L3_TYPE_IP4"
    and icv: "unat (get_icv_len_int (sa_icv_length (er_sa_attrs rule))) = k"
    and l2: "length l2 = 14" and h: "length h = (if ip4 then 36 else 56)" and t: "length t = padn (length q) + k"
    and len: "64 < length (l2 @ q)" "length (h @ l2 @ q @ t) < 2 ^ 16"
    and np: "np = (if er_l3_type rule = DOCA_FLOW_L3_TYPE_IP4 then 4 else 41)"
  shows "\<exists>ctx'. prepare_packet_tunnel api (pkt (hr @ h) (l2 @ q) (t @ tr) m) ctx rule_idx
    = Some (DOCA_SUCCESS,
        pkt hr (tunnel_mac ip4 @ tunnel_l3_final api rule ip4 (current_ip_id ctx) (length (h @ q @ t))
                @ create_transport_encap rule (sw_sn_inc_enable (config ctx))
                @ q @ esp_trailer (length q) np @ drop (padn (length q)) t) tr m, ctx')
    \<and> encrypt_rules ctx' = (encrypt_rules ctx)[unat rule_idx := rule\<lparr>er_current_sn := er_current_sn rule + 1\<rparr>]"
proof -
  let ?n = "length q" and ?icv = "get_icv_len_int (sa_icv_length (er_sa_attrs rule))"
  let ?esp = "create_transport_encap rule (sw_sn_inc_enable (config ctx))"
  have r: "rule = encrypt_rules ctx ! unat rule_idx" "unat rule_idx < length (encrypt_rules ctx)"
    using rule by (auto simp: the_rule_def split: if_splits)
  have "of_nat (length (l2 @ q)) - of_nat ETHER_HDR = (of_nat ?n :: u32)"
    using l2 by (simp add: ETHER_HDR_def)
  then have pl: "padding_len (of_nat (length (l2 @ q)) - of_nat ETHER_HDR) = of_nat (padn ?n)"
    using padding_len_nat [of ?n] len(2) by simp
  have icv': "?icv = of_nat k" using icv by (metis unat_eq_of_nat)
  have k: "k \<le> 16" unfolding icv [symmetric] by (simp add: get_icv_len_int_def split: doca_flow_crypto_icv_len.split)
  have tl: "unat (of_nat (padn ?n) + ?icv) = length t"
    using t len(2) unat_of_nat32 [of "padn ?n + k"] by (simp add: icv')
  have esp_len: "unat ((if ip4 then 50 else 70) - of_nat ETHER_HDR :: u16) = length h"
    using h by (simp add: ETHER_HDR_def)
  have pre: "rte_pktmbuf_prepend api (pkt (hr @ h) (l2 @ q) (t @ tr) m) ((if ip4 then 50 else 70) - of_nat ETHER_HDR)
      = Some (pkt hr (h @ l2 @ q) (t @ tr) m)"
    using prepend_pkt [OF laws esp_len, of "l2 @ q" hr "t @ tr" m] len(2) by simp
  have app: "append_tail (of_nat (padn ?n) + ?icv) (pkt hr (h @ l2 @ q) (t @ tr) m)
      = Some (length (h @ l2 @ q), pkt hr ((h @ l2) @ q @ t) tr m)"
    using append_tail_pkt [OF tl, of "h @ l2 @ q" hr tr m] len(2) by simp
  obtain ctx1 where hd: "tunnel_headers api rule (pkt hr ((h @ l2) @ q @ t) tr m) ctx = Some (pkt hr ((tunnel_mac ip4
        @ tunnel_l3_final api rule ip4 (current_ip_id ctx) (length (h @ q @ t)) @ ?esp @ q) @ t) tr m, ctx1)"
      "encrypt_rules ctx1 = encrypt_rules ctx"
    using tunnel_headers_pkt [OF ip4 h l2, of api hr "q @ t" tr m ctx] by auto
  have ld: "length (tunnel_mac ip4 @ tunnel_l3_final api rule ip4 (current_ip_id ctx) (length (h @ q @ t)) @ ?esp @ q)
      = length (h @ l2 @ q)"
    using h l2 by (cases ip4) (simp_all add: tunnel_l3_final_facts)
  have tr: "write_trailer (length (h @ l2 @ q)) (of_nat (padn ?n) - of_nat ESP_TAIL) np
      (pkt hr ((tunnel_mac ip4 @ tunnel_l3_final api rule ip4 (current_ip_id ctx) (length (h @ q @ t)) @ ?esp @ q) @ t) tr m)
      = Some (pkt hr ((tunnel_mac ip4 @ tunnel_l3_final api rule ip4 (current_ip_id ctx) (length (h @ q @ t)) @ ?esp @ q)
          @ esp_trailer ?n np @ drop (padn ?n) t) tr m)"
    unfolding ld [symmetric] using t len(2) ld by (intro trailer_pkt) simp_all
  have ether: "remove_ethernet_padding api (pkt (hr @ h) (l2 @ q) (t @ tr) m) = Some (pkt (hr @ h) (l2 @ q) (t @ tr) m)"
    using len by (intro no_ethernet_padding) simp_all
  have "prepare_packet_tunnel api (pkt (hr @ h) (l2 @ q) (t @ tr) m) ctx rule_idx
      = Some (DOCA_SUCCESS, pkt hr ((tunnel_mac ip4 @ tunnel_l3_final api rule ip4 (current_ip_id ctx) (length (h @ q @ t)) @ ?esp @ q)
          @ esp_trailer ?n np @ drop (padn ?n) t) tr m, inc_sn rule_idx ctx1)"
    using rule ether pl pre app hd(1) tr
    unfolding prepare_packet_tunnel_def Let_def
    by (simp add: ip4 [symmetric] np [symmetric] del: append_assoc length_append of_nat_add split del: if_split)
  then show ?thesis
    using hd(2) r by (simp add: inc_sn_def)
qed

section \<open>Transport mode\<close>

text \<open>An IP header without the packet around it, its protocol field, and the header once protocol and
  length of an IP packet of \<open>n\<close> bytes have been set.\<close>

definition l3_ok :: "mbuf \<Rightarrow> u8 list \<Rightarrow> bool" where
  "l3_ok m l3 \<longleftrightarrow> (if is_ipv4 m then 20 \<le> length l3 \<and> unat (ipv4_hdr_len (l3 ! 0)) = length l3
                  else is_ipv6 m \<and> length l3 = 40)"

definition l3_proto :: "mbuf \<Rightarrow> u8 list \<Rightarrow> u8" where
  "l3_proto m l3 = (if is_ipv4 m then l3 ! 9 else l3 ! 6)"

definition l3_upd :: "mbuf_api \<Rightarrow> mbuf \<Rightarrow> u8 \<Rightarrow> nat \<Rightarrow> u8 list \<Rightarrow> u8 list" where
  "l3_upd api m proto n l3 =
     (if is_ipv4 m then upd_hdr api (Some proto) (of_nat n) l3 else upd_hdr6 (Some proto) (of_nat n - 40) l3)"

lemma length_l3_upd [simp]: "l3_ok m l3 \<Longrightarrow> length (l3_upd api m proto n l3) = length l3"
  by (auto simp: l3_ok_def l3_upd_def split: if_splits)

lemma l3_ok_upd: "l3_ok m l3 \<Longrightarrow> l3_ok m (l3_upd api m proto n l3)"
  by (auto simp: l3_ok_def l3_upd_def hd_upd_hdr split: if_splits)

lemma l3_upd_again: "l3_ok m l3 \<Longrightarrow> l3_upd api m p n (l3_upd api m p' n' l3) = l3_upd api m p n l3"
  by (auto simp: l3_ok_def l3_upd_def upd_hdr_again upd_hdr6_again split: if_splits)

lemma l3_ok_len: "l3_ok m l3 \<Longrightarrow> 20 \<le> length l3 \<and> length l3 < 2 ^ 8"
proof -
  assume a: "l3_ok m l3"
  show ?thesis
  proof (cases "is_ipv4 m")
    case True
    then have "length l3 = unat (ucast ((l3 ! 0 AND 0x0F) * 4) :: u32)" "20 \<le> length l3"
      using a by (simp_all add: l3_ok_def ipv4_hdr_len_def)
    moreover have "unat (ucast ((l3 ! 0 AND 0x0F) * 4) :: u32) < 2 ^ 8"
      using unat_bound [of "(l3 ! 0 AND 0x0F) * 4"] by (simp only: unat_ucast8) simp
    ultimately show ?thesis by simp
  qed (use a in \<open>simp add: l3_ok_def\<close>)
qed

lemma l2_l3_len_pkt:
  assumes "l3_ok m l3" and "length l2 = 14"
  shows "l2_l3_len (pkt hr (l2 @ l3 @ d) tr m) = Some (of_nat (length (l2 @ l3)))"
proof (cases "is_ipv4 m")
  case True
  have l: "0 < length l3" using l3_ok_len [OF assms(1)] by linarith
  have "rd (hr @ (l2 @ l3 @ d) @ tr) (length hr + 14) = Some (l3 ! 0)"
    using rd_mid [of 14 "l2 @ l3 @ d" hr tr] assms(2) l by (simp add: nth_append)
  moreover have "ipv4_hdr_len (l3 ! 0) = of_nat (length l3)"
    using assms(1) True unat_eq_of_nat by (metis l3_ok_def)
  ultimately show ?thesis
    using True assms(2) by (simp add: l2_l3_len_def ETHER_HDR_def)
next
  case False
  then show ?thesis
    using assms by (simp add: l2_l3_len_def l3_ok_def ETHER_HDR_def IPV6_HDR_def)
qed

lemma update_l3_pkt:
  assumes "l3_ok m l3" and "length l2 = 14"
  shows "is_ipv4 m \<Longrightarrow> update_ipv4 api (hr @ (l2 @ l3 @ d) @ tr) (length hr + ETHER_HDR) (Some p) (of_nat n)
      = Some (hr @ (l2 @ l3_upd api m p n l3 @ d) @ tr)"
    and "\<not> is_ipv4 m \<Longrightarrow> update_ipv6 (hr @ (l2 @ l3 @ d) @ tr) (length hr + ETHER_HDR) (Some p) (of_nat n - of_nat IPV6_HDR)
      = Some (hr @ (l2 @ l3_upd api m p n l3 @ d) @ tr)"
  using update_ipv4_eq [of l3 api "hr @ l2" "d @ tr" "Some p" "of_nat n"]
    update_ipv6_eq [of l3 "hr @ l2" "d @ tr" "Some p" "of_nat n - 40"] assms
  by (simp_all add: l3_ok_def l3_upd_def ETHER_HDR_def IPV6_HDR_def)

text \<open>
  Length and checksum of the UDP header in front of ESP, where the code writes them: behind an IPv4
  header of 20 bytes or an IPv6 header, so at the wrong place when the IPv4 header has options.
\<close>

definition udp_upd :: "mbuf \<Rightarrow> bool \<Rightarrow> u8 list \<Rightarrow> nat \<Rightarrow> u8 list \<Rightarrow> u8 list" where
  "udp_upd m udp l3 n e =
     (if udp then patch e (if is_ipv4 m then 24 - length l3 else 4)
                    (enc16 (of_nat (if is_ipv4 m then length l3 + n - 20 else n)) @ [0, 0])
      else e)"

lemma length_udp_upd [simp]: "l3_ok m l3 \<Longrightarrow> length e = (if udp then 24 else 16) \<Longrightarrow> length (udp_upd m udp l3 n e) = length e"
  by (auto dest: l3_ok_len simp: udp_upd_def)

lemma transport_headers_pkt:
  assumes ok: "l3_ok m l3" and l2: "length l2 = 14" and e: "length e = (if udp then 24 else 16)"
    and opt: "udp \<Longrightarrow> is_ipv4 m \<Longrightarrow> length l3 \<le> 24"
  shows "transport_headers api (pkt hr (l2 @ l3 @ e @ d) tr m) udp protocol
    = Some (l3_proto m l3, pkt hr (l2 @ l3_upd api m protocol (length (l3 @ e @ d)) l3
        @ udp_upd m udp l3 (length (e @ d)) e @ d) tr m)"
proof -
  let ?n = "length (l3 @ e @ d)"
  let ?l3 = "l3_upd api m protocol ?n l3" and ?e = "udp_upd m udp l3 (length (e @ d)) e"
  note l3 = l3_ok_len [OF ok]
  have rd: "rd (hr @ (l2 @ l3 @ e @ d) @ tr) (length hr + ETHER_HDR + k) = Some (l3 ! k)" if "k < 20" for k
    using rd_mid [of "14 + k" "l2 @ l3 @ e @ d" hr tr] l2 l3 that
    by (simp add: nth_append ETHER_HDR_def add.assoc)
  have len: "of_nat (length (l2 @ l3 @ e @ d)) - of_nat ETHER_HDR = (of_nat ?n :: u32)"
    using l2 by (simp add: ETHER_HDR_def)
  define hdr where "hdr = (if is_ipv4 m then IPV4_HDR else IPV6_HDR)"
  have hdr: "hdr \<le> length l3" "length l3 \<le> hdr + 4" if udp
    using ok opt that by (auto simp: hdr_def l3_ok_def IPV4_HDR_def IPV6_HDR_def split: if_splits)
  have w: "wr (hr @ (l2 @ ?l3 @ e @ d) @ tr) (length hr + ETHER_HDR + hdr + 4)
      (enc16 (ucast ((of_nat ?n :: u32) - of_nat hdr)) @ [0, 0]) = Some (hr @ (l2 @ ?l3 @ ?e @ d) @ tr)" if udp
  proof -
    have n: "ucast ((of_nat ?n :: u32) - of_nat hdr) = (of_nat (?n - hdr) :: u16)"
      using hdr(1) [OF that] ucast_of_nat_down [of "?n - hdr"] by (simp add: of_nat_diff)
    have i: "length hr + ETHER_HDR + hdr + 4 = length (hr @ l2 @ ?l3) + (hdr + 4 - length l3)"
      using hdr [OF that] ok l2 by (simp add: ETHER_HDR_def)
    have e': "?e = patch e (hdr + 4 - length l3) (enc16 (of_nat (?n - hdr)) @ [0, 0])"
      using ok that by (simp add: udp_upd_def hdr_def IPV4_HDR_def IPV6_HDR_def l3_ok_def)
    show ?thesis
      unfolding n i e'
      using wr_mid [of "hdr + 4 - length l3" "enc16 (of_nat (?n - hdr)) @ [0, 0]" e "hr @ l2 @ ?l3" "d @ tr"] e that hdr [OF that]
      by simp
  qed
  have ne: "?e = e" if "\<not> udp" using that by (simp add: udp_upd_def)
  have fin: "set_first (pkt hr (l2 @ l3 @ e @ d) tr m) (hr @ (l2 @ ?l3 @ ?e @ d) @ tr) = pkt hr (l2 @ ?l3 @ ?e @ d) tr m"
    using e ok by (intro set_first_pkt) simp_all
  show ?thesis
  proof (cases "is_ipv4 m")
    case True
    then have "hdr = IPV4_HDR" by (simp add: hdr_def)
    with True show ?thesis
      unfolding transport_headers_def
      using rd [of 9] update_l3_pkt(1) [OF ok l2, of api hr "e @ d" tr protocol ?n] len w ne fin
      by (cases udp) (simp_all add: l3_proto_def del: append_assoc length_append of_nat_add)
  next
    case False
    then have six: "is_ipv6 m" "hdr = IPV6_HDR" using ok by (simp_all add: l3_ok_def hdr_def)
    with False show ?thesis
      unfolding transport_headers_def
      using rd [of 6] update_l3_pkt(2) [OF ok l2, where api = api and hr = hr and d = "e @ d" and tr = tr
          and p = protocol and n = ?n] len w ne fin
      by (cases udp) (simp_all add: l3_proto_def del: append_assoc length_append of_nat_add)
  qed
qed

definition transport_esp :: "encrypt_rule \<Rightarrow> bool \<Rightarrow> bool \<Rightarrow> u8 list" where
  "transport_esp rule udp b = (if udp then create_udp_transport_encap rule b else create_transport_encap rule b)"

lemma length_transport_esp [simp]: "length (transport_esp rule udp b) = (if udp then 24 else 16)"
  by (simp add: transport_esp_def create_udp_transport_encap_def)

lemma encap_transport_pkt:
  assumes laws: "mbuf_laws api"
    and rule: "the_rule (encrypt_rules ctx) rule_idx = Some rule"
    and icv: "unat (get_icv_len_int (sa_icv_length (er_sa_attrs rule))) = k"
    and ok: "l3_ok m l3" and opt: "udp \<Longrightarrow> is_ipv4 m \<Longrightarrow> length l3 \<le> 24"
    and l2: "length l2 = 14" and h: "length h = (if udp then 24 else 16)" and t: "length t = padn (length q) + k"
    and len: "64 < length (l2 @ l3 @ q)" "length (h @ l2 @ l3 @ q @ t) < 2 ^ 16"
  shows "prepare_packet_transport api (pkt (hr @ h) (l2 @ l3 @ q) (t @ tr) m) ctx rule_idx udp
    = Some (DOCA_SUCCESS,
        pkt hr (l2 @ l3_upd api m (if udp then 17 else 50) (length (l3 @ h @ q @ t)) l3
                @ udp_upd m udp l3 (length (h @ q @ t)) (transport_esp rule udp (sw_sn_inc_enable (config ctx)))
                @ q @ esp_trailer (length q) (l3_proto m l3) @ drop (padn (length q)) t) tr m, inc_sn rule_idx ctx)"
proof -
  let ?n = "length q" and ?icv = "get_icv_len_int (sa_icv_length (er_sa_attrs rule))"
  let ?e = "transport_esp rule udp (sw_sn_inc_enable (config ctx))" and ?f = "l2 @ l3"
  let ?esp_len = "(if udp then 24 else 16) :: u16"
  note l3 = l3_ok_len [OF ok]
  have hlen: "l2_l3_len (pkt (hr @ h) (l2 @ l3 @ q) (t @ tr) m) = Some (of_nat (length ?f))"
    using l2_l3_len_pkt [OF ok l2] .
  have uh: "unat (of_nat (length ?f) :: u32) = length ?f"
    using l2 l3 by (intro unat_of_nat32) simp
  have "of_nat (length (l2 @ l3 @ q)) - of_nat (length ?f) = (of_nat ?n :: u32)" by simp
  then have pl: "padding_len (of_nat (length (l2 @ l3 @ q)) - of_nat (length ?f)) = of_nat (padn ?n)"
    using padding_len_nat [of ?n] len(2) by simp
  have icv': "?icv = of_nat k" using icv by (metis unat_eq_of_nat)
  have tl: "unat (of_nat (padn ?n) + ?icv) = length t"
    using t len(2) unat_of_nat32 [of "padn ?n + k"] by (simp add: icv')
  have pre: "rte_pktmbuf_prepend api (pkt (hr @ h) (l2 @ l3 @ q) (t @ tr) m) ?esp_len
      = Some (pkt hr (h @ l2 @ l3 @ q) (t @ tr) m)"
    using prepend_pkt [OF laws, of ?esp_len h "l2 @ l3 @ q" hr "t @ tr" m] h len(2) by simp
  have app: "append_tail (of_nat (padn ?n) + ?icv) (pkt hr (h @ l2 @ l3 @ q) (t @ tr) m)
      = Some (length (h @ l2 @ l3 @ q), pkt hr (h @ l2 @ l3 @ q @ t) tr m)"
    using append_tail_pkt [OF tl, of "h @ l2 @ l3 @ q" hr tr m] len(2) by simp
  define y where "y = take (length ?f) (h @ ?f)"
  define z where "z = drop (length ?f) (h @ ?f)"
  have yz: "h @ ?f = y @ z" "length y = length ?f" "length z = length h"
    unfolding y_def z_def append_take_drop_id by simp_all
  have b: "hr @ (h @ l2 @ l3 @ q @ t) @ tr = hr @ y @ z @ q @ t @ tr"
    using yz(1) by (metis append_assoc)
  have rds: "rds (hr @ (h @ l2 @ l3 @ q @ t) @ tr) (length (hr @ h)) (length ?f) = Some ?f"
    using rds_here [of "length ?f" ?f "hr @ h" "q @ t @ tr"] by simp
  have w1: "wr (hr @ (h @ l2 @ l3 @ q @ t) @ tr) (length hr) ?f = Some (hr @ ?f @ z @ q @ t @ tr)"
    unfolding b using yz(2) by (intro wr_here) simp
  have w2: "wr (hr @ ?f @ z @ q @ t @ tr) (length hr + length ?f) ?e = Some (hr @ (l2 @ l3 @ ?e @ q @ t) @ tr)"
    using wr_here [of ?e z "hr @ ?f" "q @ t @ tr"] yz(3) h by simp
  have sf: "set_first (pkt hr (h @ l2 @ l3 @ q @ t) tr m) (hr @ (l2 @ l3 @ ?e @ q @ t) @ tr)
      = pkt hr (l2 @ l3 @ ?e @ q @ t) tr m"
    using h by (intro set_first_pkt) simp_all
  let ?l3' = "l3_upd api m (if udp then 17 else 50) (length (l3 @ h @ q @ t)) l3"
  let ?e' = "udp_upd m udp l3 (length (h @ q @ t)) ?e"
  have hd: "transport_headers api (pkt hr (l2 @ l3 @ ?e @ q @ t) tr m) udp (if udp then 17 else 50)
      = Some (l3_proto m l3, pkt hr ((l2 @ ?l3' @ ?e' @ q) @ t) tr m)"
    using transport_headers_pkt [OF ok l2 length_transport_esp opt, of udp api hr rule "sw_sn_inc_enable (config ctx)" "q @ t" tr
        "if udp then 17 else 50"] h by simp
  have ld: "length (l2 @ ?l3' @ ?e' @ q) = length (h @ l2 @ l3 @ q)"
    using h ok by simp
  have tr: "write_trailer (length (h @ l2 @ l3 @ q)) (of_nat (padn ?n) - of_nat ESP_TAIL) (l3_proto m l3)
      (pkt hr ((l2 @ ?l3' @ ?e' @ q) @ t) tr m)
      = Some (pkt hr ((l2 @ ?l3' @ ?e' @ q) @ esp_trailer ?n (l3_proto m l3) @ drop (padn ?n) t) tr m)"
    unfolding ld [symmetric] using t len(2) ld by (intro trailer_pkt) simp_all
  have ether: "remove_ethernet_padding api (pkt (hr @ h) (l2 @ l3 @ q) (t @ tr) m) = Some (pkt (hr @ h) (l2 @ l3 @ q) (t @ tr) m)"
    using len by (intro no_ethernet_padding) simp_all
  have "prepare_packet_transport api (pkt (hr @ h) (l2 @ l3 @ q) (t @ tr) m) ctx rule_idx udp
      = Some (DOCA_SUCCESS, pkt hr ((l2 @ ?l3' @ ?e' @ q) @ esp_trailer ?n (l3_proto m l3) @ drop (padn ?n) t) tr m,
          inc_sn rule_idx ctx)"
    using rule ether hlen uh pl pre app rds w1 w2 sf hd tr
    unfolding prepare_packet_transport_def Let_def transport_esp_def [symmetric]
    by (simp add: transport_esp_def [symmetric] del: append_assoc length_append of_nat_add split del: if_split)
  then show ?thesis by simp
qed

lemma decap_transport_pkt:
  assumes laws: "mbuf_laws api"
    and rule: "the_rule (decrypt_rules ctx) rule_idx = Some rule"
    and icv: "unat (get_icv_len_int (sa_icv_length (dr_sa_attrs rule))) = length icv"
    and l2: "length l2 = 14" and ok: "l3_ok m l3" and e: "length e = (if udp then 24 else 16)"
    and pad: "unat pl = length p"
    and len: "64 < length (l2 @ l3 @ e @ q @ p @ [pl, np] @ icv)" "length (l2 @ l3 @ e @ q @ p @ [pl, np] @ icv) < 2 ^ 16"
  shows "\<exists>hr' tr'. decap_packet_transport api (pkt hr (l2 @ l3 @ e @ q @ p @ [pl, np] @ icv) tr m) ctx rule_idx udp
    = Some (DOCA_SUCCESS, pkt hr' (l2 @ l3_upd api m np (length (l3 @ q)) l3 @ q) tr' m)"
proof -
  let ?tr = "p @ [pl, np] @ icv @ tr" and ?l3 = "l3_upd api m np (length (l3 @ q)) l3"
  let ?adj = "(if udp then of_nat (ESP_HDR + UDP_HDR + 8) else of_nat (ESP_HDR + 8)) :: u16"
  note l3 = l3_ok_len [OF ok]
  have la: "unat ?adj = length e" using e by (simp add: ESP_HDR_def UDP_HDR_def)
  have tail: "remove_packet_tail api (pkt hr (l2 @ l3 @ e @ q @ p @ [pl, np] @ icv) tr m)
      (get_icv_len_int (sa_icv_length (dr_sa_attrs rule))) = Some (Inr np, pkt hr (l2 @ l3 @ e @ q) ?tr m)"
    using remove_packet_tail_pkt [OF icv pad, where x = "l2 @ l3 @ e @ q"] len by simp
  have hlen: "l2_l3_len (pkt hr (l2 @ l3 @ e @ q) ?tr m) = Some (of_nat (length (l2 @ l3)))"
    using l2_l3_len_pkt [OF ok l2] .
  have uh: "unat (of_nat (length (l2 @ l3)) :: u32) = length (l2 @ l3)"
    using l2 l3 by (intro unat_of_nat32) simp
  define g where "g = take (length e) (l2 @ l3 @ e)"
  define k where "k = drop (length e) (l2 @ l3 @ e)"
  have gk: "l2 @ l3 @ e = g @ k" "length g = length e" "length k = length (l2 @ l3)"
    unfolding g_def k_def append_take_drop_id by simp_all
  define g' where "g' = take (length e) (l2 @ ?l3 @ e)"
  define k' where "k' = drop (length e) (l2 @ ?l3 @ e)"
  have gk': "l2 @ ?l3 @ e = g' @ k'" "length g' = length e" "length k' = length (l2 @ ?l3)"
    unfolding g'_def k'_def append_take_drop_id using ok by simp_all
  have "pkt hr (l2 @ l3 @ e @ q) ?tr m = pkt hr (g @ k @ q) ?tr m"
    using gk(1) by (metis append_assoc)
  then have adj: "rte_pktmbuf_adj api (pkt hr (l2 @ l3 @ e @ q) ?tr m) ?adj = Some (pkt (hr @ g) (k @ q) ?tr m)"
    using adj_pkt [OF laws, of ?adj g "k @ q" hr ?tr m] la gk len by simp
  have buf: "(hr @ g) @ (k @ q) @ ?tr = hr @ (l2 @ l3 @ e @ q) @ ?tr"
    using gk(1) by (metis append_assoc)
  have n: "of_nat (length (k @ q)) - of_nat ETHER_HDR = (of_nat (length (l3 @ q)) :: u32)"
    using gk l2 by (simp add: ETHER_HDR_def)
  have upd: "(if is_ipv4 m then update_ipv4 api ((hr @ g) @ (k @ q) @ ?tr) (length hr + ETHER_HDR) (Some np) (of_nat (length (l3 @ q)))
      else update_ipv6 ((hr @ g) @ (k @ q) @ ?tr) (length hr + ETHER_HDR) (Some np) (of_nat (length (l3 @ q)) - of_nat IPV6_HDR))
      = Some (hr @ (l2 @ ?l3 @ e @ q) @ ?tr)"
    unfolding buf
    using update_l3_pkt [OF ok l2, where api = api and hr = hr and d = "e @ q" and tr = ?tr and p = np and n = "length (l3 @ q)"]
    by (simp del: append_assoc length_append of_nat_add)
  have buf': "hr @ (l2 @ ?l3 @ e @ q) @ ?tr = hr @ g' @ k' @ q @ ?tr"
    using gk'(1) by (metis append_assoc)
  have copy: "copy_down (length (l2 @ l3)) (length (hr @ g)) (length hr) (hr @ (l2 @ ?l3 @ e @ q) @ ?tr)
      = Some ((hr @ g') @ (l2 @ ?l3 @ q) @ ?tr)"
    unfolding buf' using copy_front [of "l2 @ ?l3" k' e g' hr "q @ ?tr"] gk gk' ok by simp
  have "decap_packet_transport api (pkt hr (l2 @ l3 @ e @ q @ p @ [pl, np] @ icv) tr m) ctx rule_idx udp
      = Some (DOCA_SUCCESS, set_first (pkt (hr @ g) (k @ q) ?tr m) ((hr @ g') @ (l2 @ ?l3 @ q) @ ?tr))"
    unfolding decap_packet_transport_def
    using rule tail hlen uh adj n upd copy
    by (simp del: append_assoc append.simps length_append of_nat_add split del: if_split cong: if_cong)
  moreover have "set_first (pkt (hr @ g) (k @ q) ?tr m) ((hr @ g') @ (l2 @ ?l3 @ q) @ ?tr)
      = pkt (hr @ g') (l2 @ ?l3 @ q) ?tr m"
    using gk gk' ok by (intro set_first_pkt) simp_all
  ultimately show ?thesis by auto
qed

section \<open>Sequence numbers\<close>

lemma get_esp_sn_pkt:
  assumes ok: "l3_ok m l3" and l2: "length l2 = 14" and u: "length u = (if mode = IPSEC_SECURITY_GW_UDP_TRANSPORT then 8 else 0)"
    and spi: "length spi = 4"
  shows "get_esp_sn (pkt hr (l2 @ l3 @ u @ spi @ enc32 sn @ d) tr m) mode = Some sn"
proof -
  note l3 = l3_ok_len [OF ok]
  let ?d = "l2 @ l3 @ u @ spi @ enc32 sn @ d"
  have hlen: "l2_l3_len (pkt hr ?d tr m) = Some (of_nat (length (l2 @ l3)))"
    using l2_l3_len_pkt [OF ok l2] .
  let ?h = "if mode = IPSEC_SECURITY_GW_UDP_TRANSPORT then of_nat (length (l2 @ l3)) + of_nat UDP_HDR else of_nat (length (l2 @ l3)) :: u32"
  have "?h = of_nat (length (l2 @ l3 @ u))" using u by (simp add: UDP_HDR_def)
  moreover have "unat (of_nat (length (l2 @ l3 @ u)) :: u32) = length (l2 @ l3 @ u)"
    using l2 l3 u by (intro unat_of_nat32) simp
  ultimately have h: "unat ?h = length (l2 @ l3 @ u)" by simp
  have "ahead \<lparr>mem = hr @ ?d @ tr, head = length hr + length (l2 @ l3 @ u) + 4\<rparr> = enc32 sn @ d @ tr"
    using spi by (simp add: ahead_def)
  then have "unpack_uint32 \<lparr>mem = hr @ ?d @ tr, head = length hr + length (l2 @ l3 @ u) + 4\<rparr>
      = Some (sn, advance 4 \<lparr>mem = hr @ ?d @ tr, head = length hr + length (l2 @ l3 @ u) + 4\<rparr>)"
    using c32.unpack_enc [where v = sn and r = "d @ tr"] by simp
  then show ?thesis
    using hlen h unfolding get_esp_sn_def by (simp del: length_append of_nat_add append_assoc split del: if_split)
qed

lemma sn_bytes_enc: "sn_bytes rule b = enc32 (if b then er_current_sn rule else 0)"
  by (simp add: sn_bytes_def enc32_def GET_BYTE_def)

lemma esp_trailer_parts:
  "\<exists>p pl. esp_trailer n np = p @ [pl, np] \<and> unat pl = length p \<and> length (esp_trailer n np) = padn n"
proof -
  note b = padn_bounds [of n]
  have "unat (of_nat (padn n - 2) :: u8) = padn n - 2"
    using b by (subst unat_of_nat) simp
  moreover have "length (take (padn n - 2) esp_pad_bytes) = padn n - 2"
    using b by (simp add: esp_pad_bytes_def)
  ultimately show ?thesis
    using b unfolding esp_trailer_def
    by (intro exI [of _ "take (padn n - 2) esp_pad_bytes"] exI [of _ "of_nat (padn n - 2)"]) simp
qed

section \<open>Valid headers\<close>

text \<open>An IP header whose length field is that of an IP packet of \<open>n\<close> bytes and whose checksum is right.\<close>

definition l3_valid :: "mbuf_api \<Rightarrow> mbuf \<Rightarrow> nat \<Rightarrow> u8 list \<Rightarrow> bool" where
  "l3_valid api m n l3 \<longleftrightarrow> l3_ok m l3 \<and>
     (if is_ipv4 m then take 2 (drop 2 l3) = enc16 (of_nat n)
        \<and> take 2 (drop 10 l3) = le16 (rte_ipv4_cksum api (patch l3 10 [0, 0]))
      else 40 \<le> n \<and> take 2 (drop 4 l3) = enc16 (of_nat (n - 40)))"

lemma patch_id: "k + length bs \<le> length l \<Longrightarrow> take (length bs) (drop k l) = bs \<Longrightarrow> patch l k bs = l"
  by (metis patch_def append_take_drop_id drop_drop add.commute)

lemma patch_nth: "k < length l \<Longrightarrow> patch l k [l ! k] = l"
  by (rule patch_id) (simp_all add: Cons_nth_drop_Suc [symmetric])

lemma ucast_diff40: "40 \<le> n \<Longrightarrow> (ucast ((of_nat n :: u32) - 40) :: u16) = of_nat (n - 40)"
  using ucast_of_nat_down [of "n - 40"] by (simp add: of_nat_diff)

lemma l3_valid_upd: "l3_valid api m n l3 \<Longrightarrow> l3_upd api m (l3_proto m l3) n l3 = l3"
proof -
  assume v: "l3_valid api m n l3"
  then have l: "20 \<le> length l3" using l3_ok_len by (auto simp: l3_valid_def)
  show ?thesis
  proof (cases "is_ipv4 m")
    case True
    have "patch l3 9 [l3 ! 9] = l3" "patch l3 2 (enc16 (of_nat n)) = l3"
      "patch l3 10 (le16 (rte_ipv4_cksum api (patch l3 10 [0, 0]))) = l3"
      using v True l by (auto simp: l3_valid_def intro!: patch_nth patch_id)
    moreover from this(3) have "patch (patch l3 10 [0, 0]) 10 (le16 (rte_ipv4_cksum api (patch l3 10 [0, 0]))) = l3"
      using l by (subst patch_same) simp_all
    ultimately show ?thesis
      using True by (simp add: l3_upd_def l3_proto_def upd_hdr_def ucast_of_nat_down)
  next
    case False
    then have "patch l3 6 [l3 ! 6] = l3" "patch l3 4 (enc16 (of_nat (n - 40))) = l3" "40 \<le> n"
      using v l by (auto simp: l3_valid_def l3_ok_def intro!: patch_nth patch_id)
    then show ?thesis
      using False by (simp add: l3_upd_def l3_proto_def upd_hdr6_def ucast_diff40)
  qed
qed

section \<open>An implementation of the packet functions\<close>

definition sample_api :: mbuf_api where
  "sample_api =
     \<lparr>rte_pktmbuf_prepend = \<lambda>m n. (case segs m of [] \<Rightarrow> None | s # ss \<Rightarrow>
          if unat n \<le> soff s
          then Some (m\<lparr>segs := s\<lparr>soff := soff s - unat n, slen := slen s + n\<rparr> # ss, pkt_len := pkt_len m + ucast n\<rparr>)
          else None),
      rte_pktmbuf_adj = \<lambda>m n. (case segs m of [] \<Rightarrow> None | s # ss \<Rightarrow>
          if n \<le> slen s
          then Some (m\<lparr>segs := s\<lparr>soff := soff s + unat n, slen := slen s - n\<rparr> # ss, pkt_len := pkt_len m - ucast n\<rparr>)
          else None),
      rte_pktmbuf_trim = \<lambda>m n. (if segs m = [] then m
          else if n \<le> slen (last (segs m))
          then m\<lparr>segs := butlast (segs m) @ [(last (segs m))\<lparr>slen := slen (last (segs m)) - n\<rparr>], pkt_len := pkt_len m - ucast n\<rparr>
          else m),
      rte_ipv4_cksum = \<lambda>h. of_nat (length h)\<rparr>"

lemma sample_api_laws: "mbuf_laws sample_api"
  by (simp add: mbuf_laws_def sample_api_def)

definition sample_mbuf :: mbuf where
  "sample_mbuf = \<lparr>segs = [], pkt_len = 0, is_ipv4 = True, is_ipv6 = False, mb_meta = 0\<rparr>"

definition sample_ctx :: core_ctx where
  "sample_ctx = \<lparr>config = \<lparr>gw_mode = IPSEC_SECURITY_GW_TUNNEL, gw_flow_mode = IPSEC_SECURITY_GW_VNF,
       sw_sn_inc_enable = True, sw_antireplay = True, debug_mode = False, syndrome_fwd = IPSEC_SECURITY_GW_FWD_SYNDROME_DROP\<rparr>,
     encrypt_rules = [zero_encrypt_rule\<lparr>er_l3_type := DOCA_FLOW_L3_TYPE_IP4, er_encap_l3_type := DOCA_FLOW_L3_TYPE_IP4,
       er_current_sn := 7\<rparr>],
     decrypt_rules = [zero_decrypt_rule], secured_port_id = 0, unsecured_port_id = 1, current_ip_id = 0\<rparr>"

section \<open>Properties\<close>

lemma len_esp_parts: "length (esp_trailer n np) = padn n"
  using esp_trailer_parts [of n np] by auto




text \<open>A valid IPv4 header of 20 bytes for the packets of the sample implementation.\<close>

definition sample_l3 :: "u8 list" where
  "sample_l3 = [0x45, 0, 0, 80, 0, 0, 0, 0, 64, 6, 20, 0, 10, 0, 0, 1, 10, 0, 0, 2]"

lemma sample_l3_valid: "l3_valid sample_api sample_mbuf 80 sample_l3"
  by (simp add: l3_valid_def l3_ok_def sample_mbuf_def sample_l3_def sample_api_def patch_def ipv4_hdr_len_45 enc16_def
      le16_def GET_BYTE_def)


text \<open>Over UDP the code writes the length of the datagram behind an IPv4 header of twenty bytes. A
  packet whose header has no options is sent to UDP port 4500; with one word of options the same
  code overwrites the ports, and the packet goes out with destination port 0.\<close>

theorem udp_transport_port:
  assumes "mbuf_laws api" and "the_rule (encrypt_rules ctx) i = Some er" and "is_ipv4 m" and "l3_ok m l3"
    and "length l3 \<le> 24" and "length l2 = 14" and "length h = 24"
    and "length t = padn (length q) + unat (get_icv_len_int (sa_icv_length (er_sa_attrs er)))"
    and "64 < length (l2 @ l3 @ q)" and "length (h @ l2 @ l3 @ q @ t) < 2 ^ 16"
  shows "\<exists>d. prepare_packet_transport api (pkt (hr @ h) (l2 @ l3 @ q) (t @ tr) m) ctx i True
        = Some (DOCA_SUCCESS, pkt hr d tr m, inc_sn i ctx)
    \<and> (length l3 = 20 \<longrightarrow> take 2 (drop (14 + length l3 + 2) d) = enc16 4500)
    \<and> (length l3 = 24 \<longrightarrow> take 2 (drop (14 + length l3 + 2) d) = enc16 0)"
proof -
  let ?b = "sw_sn_inc_enable (config ctx)"
  let ?e = "udp_upd m True l3 (length (h @ q @ t)) (transport_esp er True ?b)"
  let ?l3 = "l3_upd api m 17 (length (l3 @ h @ q @ t)) l3"
  let ?d = "l2 @ ?l3 @ ?e @ q @ esp_trailer (length q) (l3_proto m l3) @ drop (padn (length q)) t"
  have enc: "prepare_packet_transport api (pkt (hr @ h) (l2 @ l3 @ q) (t @ tr) m) ctx i True
      = Some (DOCA_SUCCESS, pkt hr ?d tr m, inc_sn i ctx)"
    using encap_transport_pkt [OF assms(1,2) refl assms(4) _ assms(6) _ assms(8-10), of True hr tr] assms(5,7) by simp
  define d where "d = ?d"
  have "take 2 (drop (14 + length l3 + 2) d) = take 2 (drop 2 ?e)"
    using assms(4,6) by (simp add: d_def)
  moreover have "take 2 (drop 2 ?e) = enc16 4500" if "length l3 = 20"
    using that assms(3) by (simp add: udp_upd_def transport_esp_def create_udp_transport_encap_def patch_def enc16_def)
  moreover have "take 2 (drop 2 ?e) = enc16 0" if "length l3 = 24"
    using that assms(3) by (simp add: udp_upd_def transport_esp_def create_udp_transport_encap_def patch_def enc16_def GET_BYTE_def)
  ultimately show ?thesis using enc unfolding d_def [symmetric] by metis
qed

theorem udp_transport_port_witness:
  "\<exists>d. prepare_packet_transport sample_api
        (pkt (replicate 24 0) (replicate 14 0 @ (0x46 # replicate 23 0) @ replicate 60 1) (replicate 12 0) sample_mbuf) sample_ctx 0 True
      = Some (DOCA_SUCCESS, pkt [] d [] sample_mbuf, inc_sn 0 sample_ctx)
    \<and> take 2 (drop 40 d) = enc16 0"
  using udp_transport_port [OF sample_api_laws, of sample_ctx 0 "encrypt_rules sample_ctx ! 0" sample_mbuf "0x46 # replicate 23 0"
      "replicate 14 0" "replicate 24 0" "replicate 12 0" "replicate 60 1" "[]" "[]"]
  by (simp add: sample_ctx_def the_rule_def zero_encrypt_rule_def zero_sa_attrs_def sample_mbuf_def l3_ok_def ipv4_hdr_len_def
      get_icv_len_int_def padn_def)

end
