(* ===== verification/Ipsec_Burst.thy ===== *)
theory Ipsec_Burst
  imports Ipsec_Roundtrip
begin

text \<open>
  Bursts of packets in the IPsec gateway (\<^verbatim>\<open>handle_packets_received\<close> and \<^verbatim>\<open>process_queue_packets\<close> of
  \<^verbatim>\<open>ipsec_security_gw.c\<close>): what becomes of every packet, how often the transmit function is called,
  and the anti-replay check as part of the secured path.
\<close>

section \<open>Where the packets of a burst go\<close>

text \<open>The loop splits the burst: no packet is lost, and neither array overflows.\<close>

lemma handle_packets_split:
  assumes "handle_packets_received api port_id ms ctx ps us = Some (ps', us', ctx')"
  shows "\<exists>qs vs. ps' = ps @ qs \<and> us' = us @ vs \<and> length qs + length vs = length ms"
  using assms
proof (induction ms arbitrary: ctx ps us)
  case (Cons m ms)
  then obtain r m1 c1 where h: "handle_packet api port_id m ctx = Some (r, m1, c1)"
    by (auto simp: bind_eq_Some_conv)
  show ?case
  proof (cases "r = DOCA_SUCCESS")
    case True
    with Cons.prems h have "handle_packets_received api port_id ms c1 (ps @ [m1]) us = Some (ps', us', ctx')"
      by (auto split: if_split_asm)
    from Cons.IH [OF this] show ?thesis by auto
  next
    case False
    with Cons.prems h have "handle_packets_received api port_id ms c1 ps (us @ [m1]) = Some (ps', us', ctx')"
      by (auto split: if_split_asm)
    from Cons.IH [OF this] show ?thesis by auto
  qed
qed simp

text \<open>A burst that fits the arrays is only undefined where one of its packets is.\<close>

lemma handle_packets_undefined:
  assumes "handle_packets_received api port_id ms ctx ps us = None"
    and "length ps + length us + length ms \<le> PACKET_BURST"
  shows "\<exists>m \<in> set ms. \<exists>c. handle_packet api port_id m c = None"
  using assms
proof (induction ms arbitrary: ctx ps us)
  case (Cons m ms)
  show ?case
  proof (cases "handle_packet api port_id m ctx")
    case (Some x)
    obtain r m1 c1 where x: "x = (r, m1, c1)" by (cases x)
    show ?thesis
    proof (cases "r = DOCA_SUCCESS")
      case True
      with Cons.prems Some x have "handle_packets_received api port_id ms c1 (ps @ [m1]) us = None" by simp
      from Cons.IH [OF this] Cons.prems(2) show ?thesis by auto
    next
      case False
      with Cons.prems Some x have "handle_packets_received api port_id ms c1 ps (us @ [m1]) = None" by simp
      from Cons.IH [OF this] Cons.prems(2) show ?thesis by auto
    qed
  qed auto
qed simp

section \<open>The transmit loop\<close>

lemma tx_loop_last:
  "\<not> (n + tx k (p - n) < p \<and> t - 1 > 0) \<Longrightarrow> tx_loop tx p n t k = (n + tx k (p - n), t - 1, Suc k)"
  by (subst tx_loop.simps) (auto simp: Let_def)

lemma tx_loop_again:
  "n + tx k (p - n) < p \<Longrightarrow> t - 1 > 0 \<Longrightarrow> tx_loop tx p n t k = tx_loop tx p (n + tx k (p - n)) (t - 1) (Suc k)"
  by (subst tx_loop.simps) (auto simp: Let_def)

lemma tx_loop_facts:
  assumes tx: "\<And>k n. tx k n \<le> n" and "n \<le> p" and "tx_loop tx p n t k = (n', t', k')"
  shows "n' \<le> p \<and> k < k' \<and> t' = t - int (k' - k) \<and> (n' < p \<longrightarrow> t' \<le> 0) \<and> (t \<le> 1 \<longrightarrow> k' = Suc k) \<and> (1 < t \<longrightarrow> 0 \<le> t')"
  using assms(2,3)
proof (induction "nat t" arbitrary: n t k rule: less_induct)
  case less
  let ?n = "n + tx k (p - n)"
  have le: "?n \<le> p" using less.prems(1) tx [of k "p - n"] by linarith
  show ?case
  proof (cases "?n < p \<and> t - 1 > 0")
    case True
    then have "tx_loop tx p ?n (t - 1) (Suc k) = (n', t', k')"
      using less.prems(2) tx_loop_again [of n tx k p t] by simp
    from less.hyps [OF _ le this] True show ?thesis by auto
  next
    case False
    then have "n' = ?n" "t' = t - 1" "k' = Suc k"
      using less.prems(2) tx_loop_last [of n tx k p t] by simp_all
    with False le show ?thesis by auto
  qed
qed


section \<open>One burst and a run of bursts\<close>

lemma process_burst_parts:
  assumes tx: "\<And>k n. tx k n \<le> n" and "process_burst api tx port_id packets st = Some st'" and "packets \<noteq> []"
  shows "\<exists>processed dropped n. length processed + length dropped = length packets \<and> n \<le> length processed
    \<and> map snd (sent st') = map snd (sent st) @ take n processed \<and> freed st' = freed st @ dropped
    \<and> ((\<forall>k n. tx k n = n) \<longrightarrow> n = length processed)
    \<and> tx_calls st < tx_calls st'
    \<and> num_of_tries st' = num_of_tries st - int (tx_calls st' - tx_calls st)
    \<and> (num_of_tries st \<le> 1 \<longrightarrow> tx_calls st' = Suc (tx_calls st))
    \<and> (1 < num_of_tries st \<longrightarrow> 0 \<le> num_of_tries st')"
proof -
  obtain ps us c where h: "handle_packets_received api port_id packets (bs_ctx st) [] [] = Some (ps, us, c)"
    using assms(2,3) by (auto simp: process_burst_def bind_eq_Some_conv)
  obtain n t k where l: "tx_loop tx (length ps) 0 (num_of_tries st) (tx_calls st) = (n, t, k)"
    by (cases "tx_loop tx (length ps) 0 (num_of_tries st) (tx_calls st)")
  have len: "length ps + length us = length packets"
    using handle_packets_split [OF h] by auto
  have all: "n = length ps" if "\<forall>k n. tx k n = n"
    using l tx_loop_last [of 0 tx "tx_calls st" "length ps" "num_of_tries st"] that by simp
  define tx_port where "tx_port = (if gw_flow_mode (config c) = IPSEC_SECURITY_GW_VNF then port_id XOR 1 else port_id)"
  have "st' = st\<lparr>bs_ctx := c, num_of_tries := t, tx_calls := k,
      sent := sent st @ map (\<lambda>m. (tx_port, m)) (take n ps), freed := freed st @ us\<rparr>"
    using assms(2,3) h l len by (simp add: process_burst_def tx_port_def)
  then have "map snd (sent st') = map snd (sent st) @ take n ps" "freed st' = freed st @ us"
      "tx_calls st' = k" "num_of_tries st' = t"
    by (simp_all add: comp_def)
  with len all tx_loop_facts [OF tx _ l] show ?thesis
    by (intro exI [of _ ps] exI [of _ us] exI [of _ n]) auto
qed

lemma process_queue_count:
  assumes tx: "\<And>k n. tx k n \<le> n" and "process_queue_packets api tx bursts st = Some st'"
  shows "length (sent st') + length (freed st') \<le> length (sent st) + length (freed st) + (\<Sum>b\<leftarrow>bursts. length (snd b))
    \<and> ((\<forall>k n. tx k n = n) \<longrightarrow>
        length (sent st') + length (freed st') = length (sent st) + length (freed st) + (\<Sum>b\<leftarrow>bursts. length (snd b)))"
  using assms(2)
proof (induction bursts arbitrary: st)
  case (Cons b bursts)
  obtain port_id packets where b: "b = (port_id, packets)" by (cases b)
  obtain s1 where s1: "process_burst api tx port_id packets st = Some s1"
      "process_queue_packets api tx bursts s1 = Some st'"
    using Cons.prems b by (auto simp: bind_eq_Some_conv)
  have len: "length (sent s) = length (map snd (sent s))" for s :: burst_state by simp
  have "length (sent s1) + length (freed s1) \<le> length (sent st) + length (freed st) + length packets
    \<and> ((\<forall>k n. tx k n = n) \<longrightarrow>
        length (sent s1) + length (freed s1) = length (sent st) + length (freed st) + length packets)"
  proof (cases "packets = []")
    case True
    then show ?thesis using s1(1) by (simp add: process_burst_def)
  next
    case False
    from process_burst_parts [OF tx s1(1) False] show ?thesis
      unfolding len by (auto simp del: length_map)
  qed
  with Cons.IH [OF s1(2)] b show ?case by auto
qed simp

lemma process_queue_tries:
  assumes tx: "\<And>k n. tx k n \<le> n" and "process_queue_packets api tx bursts st = Some st'"
    and "num_of_tries st = NB_TX_BURST_TRIES - int (tx_calls st)" and "tx_calls st \<le> n + 4"
  shows "num_of_tries st' = NB_TX_BURST_TRIES - int (tx_calls st')
    \<and> tx_calls st' \<le> n + length (filter (\<lambda>b. snd b \<noteq> []) bursts) + 4"
  using assms(2-)
proof (induction bursts arbitrary: st n)
  case (Cons b bursts)
  obtain port_id packets where b: "b = (port_id, packets)" by (cases b)
  obtain s1 where s1: "process_burst api tx port_id packets st = Some s1"
      "process_queue_packets api tx bursts s1 = Some st'"
    using Cons.prems(1) b by (auto simp: bind_eq_Some_conv)
  show ?case
  proof (cases "packets = []")
    case True
    then show ?thesis using Cons.IH [OF s1(2), of n] s1(1) Cons.prems b by (simp add: process_burst_def)
  next
    case False
    from process_burst_parts [OF tx s1(1) False] Cons.prems(2,3)
    have "num_of_tries s1 = NB_TX_BURST_TRIES - int (tx_calls s1)" "tx_calls s1 \<le> Suc n + 4"
      by (auto simp: NB_TX_BURST_TRIES_def)
    from Cons.IH [OF s1(2) this] False b show ?thesis by simp
  qed
qed simp

section \<open>Anti-replay in the secured path\<close>

text \<open>Encapsulation leaves the configuration and the decrypt rules alone.\<close>

lemma tunnel_headers_ctx:
  "tunnel_headers api rule m ctx = Some (m', ctx') \<Longrightarrow> decrypt_rules ctx' = decrypt_rules ctx \<and> config ctx' = config ctx"
  by (auto simp: tunnel_headers_def Let_def bind_eq_Some_conv split: if_split_asm)

lemma inc_sn_ctx [simp]: "decrypt_rules (inc_sn i ctx) = decrypt_rules ctx" "config (inc_sn i ctx) = config ctx"
  by (simp_all add: inc_sn_def)

lemma unsecured_ctx:
  assumes "handle_unsecured_packets_received api m ctx = Some (r, m', ctx')"
  shows "decrypt_rules ctx' = decrypt_rules ctx \<and> config ctx' = config ctx"
  using assms
  by (auto simp: handle_unsecured_packets_received_def prepare_packet_tunnel_def prepare_packet_transport_def Let_def
      bind_eq_Some_conv case_option_eq_conv split: ipsec_security_gw_mode.split_asm dest: tunnel_headers_ctx)

text \<open>A sequence number the window of rule \<open>j\<close> has accepted.\<close>

definition sn_seen :: "nat \<Rightarrow> u32 \<Rightarrow> core_ctx \<Rightarrow> bool" where
  "sn_seen j sn ctx \<longleftrightarrow> j < length (decrypt_rules ctx)
     \<and> (\<exists>S r. ar_rel (dr_antireplay_state (decrypt_rules ctx ! j)) (S, r) \<and> unat sn \<in> S)"

lemma sn_seen_update:
  assumes "sn_seen j sn ctx" and "the_rule (decrypt_rules ctx) i = Some rule"
    and "anti_replay sn' (dr_antireplay_state rule) = Some (state, d)"
  shows "sn_seen j sn (ctx\<lparr>decrypt_rules := (decrypt_rules ctx)[unat i := rule\<lparr>dr_antireplay_state := state\<rparr>]\<rparr>)"
proof (cases "unat i = j")
  case True
  obtain S r where S: "ar_rel (dr_antireplay_state (decrypt_rules ctx ! j)) (S, r)" "unat sn \<in> S"
    using assms(1) by (auto simp: sn_seen_def)
  have "rule = decrypt_rules ctx ! j"
    using assms(2) True by (auto simp: the_rule_def split: if_split_asm)
  with ar_step_sim [OF S(1), of sn'] assms(3)
  have "ar_rel state (fst (spec_step (unat sn') (S, r)))" by simp
  moreover have "unat sn \<in> fst (fst (spec_step (unat sn') (S, r)))" using S(2) by simp
  ultimately show ?thesis
    using assms(1) True by (auto simp: sn_seen_def intro!: exI [of _ "fst (fst (spec_step (unat sn') (S, r)))"]
        exI [of _ "snd (fst (spec_step (unat sn') (S, r)))"])
next
  case False
  then show ?thesis using assms(1) by (simp add: sn_seen_def)
qed

text \<open>What the secured path does to the context: nothing, or one step of the window of the packet's rule.\<close>

lemma secured_ctx:
  assumes "handle_secured_packets_received api m chk ctx = Some (r, m', ctx')"
  shows "ctx' = ctx \<or> (\<exists>sn rule state d. get_esp_sn m (gw_mode (config ctx)) = Some sn
      \<and> the_rule (decrypt_rules ctx) (meta_rule_id (mb_meta m)) = Some rule
      \<and> anti_replay sn (dr_antireplay_state rule) = Some (state, d)
      \<and> ctx' = ctx\<lparr>decrypt_rules := (decrypt_rules ctx)[unat (meta_rule_id (mb_meta m)) := rule\<lparr>dr_antireplay_state := state\<rparr>]\<rparr>)"
  using assms
  by (auto simp: handle_secured_packets_received_def Let_def bind_eq_Some_conv split: if_split_asm)

lemma handle_packet_seen:
  assumes "handle_packet api port_id m ctx = Some (r, m', ctx')" and "sn_seen j sn ctx"
  shows "sn_seen j sn ctx' \<and> config ctx' = config ctx"
proof (cases "\<exists>chk. handle_secured_packets_received api m chk ctx = Some (r, m', ctx')")
  case True
  then obtain chk where "handle_secured_packets_received api m chk ctx = Some (r, m', ctx')" ..
  from secured_ctx [OF this] sn_seen_update [OF assms(2)] assms(2) show ?thesis by auto
next
  case False
  then have "handle_unsecured_packets_received api m ctx = Some (r, m', ctx')"
    using assms(1) by (auto simp: handle_packet_def Let_def split: if_split_asm)
  from unsecured_ctx [OF this] assms(2) show ?thesis by (simp add: sn_seen_def)
qed

lemma handle_packets_seen:
  assumes "handle_packets_received api port_id ms ctx ps us = Some (ps', us', ctx')" and "sn_seen j sn ctx"
  shows "sn_seen j sn ctx' \<and> config ctx' = config ctx"
  using assms
proof (induction ms arbitrary: ctx ps us)
  case (Cons m ms)
  then obtain r m1 c1 where h: "handle_packet api port_id m ctx = Some (r, m1, c1)"
    by (auto simp: bind_eq_Some_conv)
  then obtain ps1 us1 where "handle_packets_received api port_id ms c1 ps1 us1 = Some (ps', us', ctx')"
    using Cons.prems(1) by (auto split: if_split_asm)
  from Cons.IH [OF this] handle_packet_seen [OF h Cons.prems(2)] show ?case by auto
qed simp

lemma secured_seen_dropped:
  assumes "sn_seen (unat (meta_rule_id (mb_meta m))) sn ctx" and "sw_antireplay (config ctx)"
    and "get_esp_sn m (gw_mode (config ctx)) = Some sn"
  shows "\<exists>ctx'. handle_secured_packets_received api m chk ctx = Some (DOCA_ERROR_BAD_STATE, m, ctx')"
proof -
  let ?i = "meta_rule_id (mb_meta m)"
  obtain S r where S: "ar_rel (dr_antireplay_state (decrypt_rules ctx ! unat ?i)) (S, r)" "unat sn \<in> S"
      "the_rule (decrypt_rules ctx) ?i = Some (decrypt_rules ctx ! unat ?i)"
    using assms(1) by (auto simp: sn_seen_def the_rule_def)
  then obtain st where "anti_replay sn (dr_antireplay_state (decrypt_rules ctx ! unat ?i)) = Some (st, True)"
    using ar_step_sim [OF S(1), of sn] by auto
  then show ?thesis
    using S(3) assms(2,3) by (simp add: handle_secured_packets_received_def Let_def)
qed

lemma secured_accept_seen:
  assumes "handle_secured_packets_received api m chk ctx = Some (DOCA_SUCCESS, m', ctx')" and "sw_antireplay (config ctx)"
    and "the_rule (decrypt_rules ctx) (meta_rule_id (mb_meta m)) = Some rule" and "ar_rel (dr_antireplay_state rule) (S, r)"
  shows "\<exists>sn. get_esp_sn m (gw_mode (config ctx)) = Some sn \<and> sn_seen (unat (meta_rule_id (mb_meta m))) sn ctx'
    \<and> config ctx' = config ctx"
proof -
  let ?i = "unat (meta_rule_id (mb_meta m))"
  obtain sn state where sn: "get_esp_sn m (gw_mode (config ctx)) = Some sn"
      "anti_replay sn (dr_antireplay_state rule) = Some (state, False)"
      "ctx' = ctx\<lparr>decrypt_rules := (decrypt_rules ctx)[?i := rule\<lparr>dr_antireplay_state := state\<rparr>]\<rparr>"
    using assms(1-3)
    by (auto simp: handle_secured_packets_received_def Let_def bind_eq_Some_conv split: if_split_asm)
  have "ar_rel state (insert (unat sn) S, max r (unat sn))"
    using ar_step_sim [OF assms(4), of sn] sn(2) by (auto split: if_split_asm)
  moreover have "?i < length (decrypt_rules ctx)"
    using assms(3) by (auto simp: the_rule_def split: if_split_asm)
  ultimately have "sn_seen ?i sn ctx'" using sn(3) by (auto simp: sn_seen_def)
  with sn show ?thesis by simp
qed

section \<open>Properties\<close>

definition secured_sample :: mbuf where
  "secured_sample = \<lparr>segs = [\<lparr>sbuf = replicate 14 0 @ 0x45 # replicate 19 0 @ [0, 0, 0, 1, 0, 0, 0, 9] @ replicate 8 0
       @ replicate 24 1 @ [0, 4] @ replicate 8 0, soff = 0, slen = 84\<rparr>],
     pkt_len = 84, is_ipv4 = True, is_ipv6 = False, mb_meta = 0\<rparr>"

definition replay_ctx :: core_ctx where
  "replay_ctx = sample_ctx\<lparr>decrypt_rules := [zero_decrypt_rule\<lparr>dr_antireplay_state := init_antireplay 0\<rparr>]\<rparr>"


lemma replay_sample:
  "(case handle_secured_packets_received sample_api secured_sample False replay_ctx of
      Some (r, m, c) \<Rightarrow> r = DOCA_SUCCESS \<and> \<not> Option.is_none (handle_packets_received sample_api 0 [secured_sample] c [] [])
    | None \<Rightarrow> False)"
  by code_simp



lemma conserve_sample:
  "(case process_queue_packets sample_api (\<lambda>k n. n) [(0, [secured_sample, secured_sample])] (initial_burst_state replay_ctx) of
      Some st \<Rightarrow> length (sent st) = 1 \<and> length (freed st) = 1 | None \<Rightarrow> False)"
  by code_simp



definition no_check_ctx :: core_ctx where
  "no_check_ctx = sample_ctx\<lparr>config := (config sample_ctx)\<lparr>sw_antireplay := False\<rparr>\<rparr>"

lemma tries_sample:
  "(case process_queue_packets sample_api (\<lambda>k n. 0) (replicate 3 (0, [secured_sample])) (initial_burst_state no_check_ctx) of
      Some st \<Rightarrow> tx_calls st = 7 \<and> sent st = [] \<and> freed st = [] | None \<Rightarrow> False)"
  by code_simp


end
