(* ===== verification/Ipsec_Rules.thy ===== *)
theory Ipsec_Rules
  imports Ipsec_Policy Ipsec_Burst
begin

text \<open>
  Rules that arrive over the policy socket of the IPsec security gateway: their insertion into the
  pipes (\<^verbatim>\<open>add_encrypt_entry\<close> of \<^verbatim>\<open>flow_encrypt.c\<close>, \<^verbatim>\<open>add_decrypt_entry\<close> of \<^verbatim>\<open>flow_decrypt.c\<close>,
  \<^verbatim>\<open>process_entries\<close> of \<^verbatim>\<open>flow_common.c\<close>), the policy handlers of \<^verbatim>\<open>policy.c\<close> and the loop of
  \<^verbatim>\<open>ipsec_security_gw_wait_for_traffic\<close> with its growing arrays.
\<close>

section \<open>The flow library\<close>

text \<open>The pipes of \<^verbatim>\<open>struct encrypt_pipes\<close> and \<^verbatim>\<open>struct decrypt_pipes\<close> that get entries for rules.\<close>

datatype rule_pipe =
    Ipv4_encrypt_pipe | Ipv6_encrypt_pipe | Ipv4_tcp_pipe | Ipv4_udp_pipe | Ipv6_tcp_pipe | Ipv6_udp_pipe
  | Ipv6_src_tcp_pipe | Ipv6_src_udp_pipe
  | Decrypt_ipv4_pipe | Decrypt_ipv6_pipe | Bad_syndrome_ipv4_pipe | Bad_syndrome_ipv6_pipe

datatype flow_port = Secured_port | Unsecured_port | Switch_port

text \<open>The structure a callback counts in: one of the two local variables of the caller.\<close>

datatype status_ref = Hairpin_status | Crypto_status

text \<open>The members of the match and the actions that are set; the rest is zero.\<close>

record rule_match =
  rm_l3_type :: doca_flow_l3_type
  rm_l4_type_ext :: doca_flow_l4_type_ext
  rm_src_port :: u16
  rm_dst_port :: u16
  rm_ip :: "u32 list"
  rm_tun_esp :: bool
  rm_esp_spi :: u32
  rm_pkt_meta :: u32
  rm_meta0 :: u32
  rm_ipsec_syndrome :: u8

record rule_actions =
  ra_action_idx :: u8
  ra_pkt_meta :: u32
  ra_meta0 :: u32
  ra_crypto_id :: u32
  ra_encap_data :: "u8 list"
  ra_icv_size :: u32

definition zero_rule_match :: rule_match where
  "zero_rule_match = \<lparr>rm_l3_type = DOCA_FLOW_L3_TYPE_NONE, rm_l4_type_ext = DOCA_FLOW_L4_TYPE_EXT_NONE,
     rm_src_port = 0, rm_dst_port = 0, rm_ip = replicate 8 0, rm_tun_esp = False, rm_esp_spi = 0,
     rm_pkt_meta = 0, rm_meta0 = 0, rm_ipsec_syndrome = 0\<rparr>"

definition zero_rule_actions :: rule_actions where
  "zero_rule_actions = \<lparr>ra_action_idx = 0, ra_pkt_meta = 0, ra_meta0 = 0, ra_crypto_id = 0, ra_encap_data = [],
     ra_icv_size = 0\<rparr>"

datatype sn_offload_type = DOCA_FLOW_CRYPTO_SN_OFFLOAD_INC | DOCA_FLOW_CRYPTO_SN_OFFLOAD_AR

datatype replay_win_size =
    DOCA_FLOW_CRYPTO_REPLAY_WIN_SIZE_32 | DOCA_FLOW_CRYPTO_REPLAY_WIN_SIZE_64
  | DOCA_FLOW_CRYPTO_REPLAY_WIN_SIZE_128 | DOCA_FLOW_CRYPTO_REPLAY_WIN_SIZE_256

record ipsec_sa_cfg =
  sc_egress :: bool
  sc_icv_len :: doca_flow_crypto_icv_len
  sc_salt :: u32
  sc_key_type :: doca_flow_crypto_key_type
  sc_key :: "u8 list"
  sc_sn_offload_type :: sn_offload_type
  sc_win_size :: replay_win_size
  sc_sn_initial :: u64

text \<open>
  The functions of the library on a state of their own. \<open>entries_process\<close> also gives the calls of
  the entry callback for added entries: the status structure and whether the entry succeeded.
\<close>

record 'h flow_api =
  shared_resource_cfg :: "u32 \<Rightarrow> ipsec_sa_cfg \<Rightarrow> 'h \<Rightarrow> doca_error \<times> 'h"
  pipe_add_entry :: "u16 \<Rightarrow> rule_pipe \<Rightarrow> rule_match \<Rightarrow> rule_actions \<Rightarrow> u32 \<Rightarrow> status_ref \<Rightarrow> 'h \<Rightarrow> doca_error \<times> 'h"
  entries_process :: "flow_port \<Rightarrow> u16 \<Rightarrow> int \<Rightarrow> 'h \<Rightarrow> doca_error \<times> (status_ref \<times> bool) list \<times> 'h"

section \<open>The application state\<close>

datatype ipsec_security_gw_perf =
    IPSEC_SECURITY_GW_PERF_NONE | IPSEC_SECURITY_GW_PERF_INSERTION_RATE
  | IPSEC_SECURITY_GW_PERF_BW | IPSEC_SECURITY_GW_PERF_BOTH

definition MAX_NAME_LEN :: nat where "MAX_NAME_LEN = 20"
definition QUEUE_DEPTH :: int where "QUEUE_DEPTH = 512"
definition NUM_OF_SYNDROMES :: int where "NUM_OF_SYNDROMES = 4"
definition DOCA_FLOW_WAIT_FOR_BATCH :: u32 where "DOCA_FLOW_WAIT_FOR_BATCH = 1"

text \<open>The names in \<^verbatim>\<open>entries_info\<close>; its length is the number of allocated elements.\<close>

record gw_pipe_info =
  nb_entries :: nat
  entry_names :: "string list"

record ('t, 'h) gw_app =
  app_config :: gw_config
  offload :: ipsec_security_gw_esp_offload
  perf_measurement :: ipsec_security_gw_perf
  sn_initial :: u64
  ip6_table :: 't
  app_encrypt_rules :: "encrypt_rule list"
  app_decrypt_rules :: "decrypt_rule list"
  nb_encrypted_rules :: nat
  nb_decrypted_rules :: nat
  nb_rules :: nat
  pipes :: "rule_pipe \<Rightarrow> gw_pipe_info"
  app_ip_id :: u16
  hw :: 'h

record entries_status =
  failure :: bool
  nb_processed :: int
  entries_in_queue :: int

definition zero_status :: entries_status where
  "zero_status = \<lparr>failure = False, nb_processed = 0, entries_in_queue = 0\<rparr>"

type_synonym statuses = "status_ref \<Rightarrow> entries_status"

text \<open>\<^verbatim>\<open>union security_gateway_pkt_meta\<close> from its members.\<close>

definition make_meta :: "bool \<Rightarrow> bool \<Rightarrow> u32 \<Rightarrow> bool \<Rightarrow> u32 \<Rightarrow> u32 \<Rightarrow> u32 \<Rightarrow> u32" where
  "make_meta encrypt decrypt icv_size inner_ipv6 decrypt_syndrome antireplay_syndrome rule_id =
     (if encrypt then 1 else 0) OR (if decrypt then push_bit 1 1 else 0) OR push_bit 2 (take_bit 2 icv_size)
     OR (if inner_ipv6 then push_bit 4 1 else 0) OR push_bit 5 (take_bit 2 decrypt_syndrome)
     OR push_bit 7 (take_bit 2 antireplay_syndrome) OR push_bit 12 (take_bit 20 rule_id)"

definition icv_len_val :: "doca_flow_crypto_icv_len \<Rightarrow> u32" where
  "icv_len_val l = (case l of DOCA_FLOW_CRYPTO_ICV_LENGTH_8 \<Rightarrow> 0 | DOCA_FLOW_CRYPTO_ICV_LENGTH_12 \<Rightarrow> 1
     | DOCA_FLOW_CRYPTO_ICV_LENGTH_16 \<Rightarrow> 2)"

section \<open>Steps that return an error code\<close>

text \<open>
  A step works on the status structures and the application. \<open>and_then\<close> is the idiom
  \<^verbatim>\<open>if (result != DOCA_SUCCESS) return result;\<close> between two steps.
\<close>

type_synonym ('t, 'h) step_result = "(doca_error \<times> statuses \<times> ('t, 'h) gw_app) option"

definition and_then :: "(doca_error \<times> 's) option \<Rightarrow> ('s \<Rightarrow> (doca_error \<times> 's) option) \<Rightarrow> (doca_error \<times> 's) option" where
  "and_then m f = (case m of None \<Rightarrow> None | Some (result, s) \<Rightarrow> if result \<noteq> DOCA_SUCCESS then Some (result, s) else f s)"

definition check_for_valid_entry :: "status_ref \<times> bool \<Rightarrow> statuses \<Rightarrow> statuses" where
  "check_for_valid_entry cb ss = (case cb of (r, success) \<Rightarrow>
     ss(r := (ss r)\<lparr>failure := failure (ss r) \<or> \<not> success, nb_processed := nb_processed (ss r) + 1,
                    entries_in_queue := entries_in_queue (ss r) - 1\<rparr>))"

definition process_entries ::
    "'h flow_api \<Rightarrow> flow_port \<Rightarrow> status_ref \<Rightarrow> u16 \<Rightarrow> statuses \<times> ('t, 'h) gw_app \<Rightarrow> ('t, 'h) step_result" where
  "process_entries api port r pipe_queue = (\<lambda>(ss, app).
     (let (result, cbs, h) = entries_process api port pipe_queue (entries_in_queue (ss r)) (hw app);
          ss = fold check_for_valid_entry cbs ss;
          app = app\<lparr>hw := h\<rparr>
      in if result \<noteq> DOCA_SUCCESS then Some (result, ss, app)
         else if failure (ss r) \<or> entries_in_queue (ss r) = QUEUE_DEPTH then Some (DOCA_ERROR_BAD_STATE, ss, app)
         else Some (DOCA_SUCCESS, ss, app)))"

text \<open>\<^verbatim>\<open>do process_entries while (entries_in_queue > 0)\<close>\<close>

partial_function (option) process_all ::
    "'h flow_api \<Rightarrow> flow_port \<Rightarrow> status_ref \<Rightarrow> statuses \<times> ('t, 'h) gw_app \<Rightarrow> ('t, 'h) step_result" where
  "process_all api port r s =
     (case process_entries api port r 0 s of
        None \<Rightarrow> None
      | Some x \<Rightarrow>
          if fst x = DOCA_SUCCESS \<and> entries_in_queue (fst (snd x) r) > 0 then process_all api port r (snd x)
          else Some x)"

definition add_entry ::
    "'h flow_api \<Rightarrow> u16 \<Rightarrow> rule_pipe \<Rightarrow> rule_match \<Rightarrow> rule_actions \<Rightarrow> u32 \<Rightarrow> status_ref
     \<Rightarrow> statuses \<times> ('t, 'h) gw_app \<Rightarrow> ('t, 'h) step_result" where
  "add_entry api queue_id p match actions flags r = (\<lambda>(ss, app).
     let (result, h) = pipe_add_entry api queue_id p match actions flags r (hw app) in Some (result, ss, app\<lparr>hw := h\<rparr>))"

definition count_entries :: "status_ref \<Rightarrow> int \<Rightarrow> statuses \<times> ('t, 'h) gw_app \<Rightarrow> ('t, 'h) step_result" where
  "count_entries r n = (\<lambda>(ss, app).
     Some (DOCA_SUCCESS, ss(r := (ss r)\<lparr>entries_in_queue := entries_in_queue (ss r) + n\<rparr>), app))"

text \<open>In debug mode an entry is noted in \<^verbatim>\<open>entries_info\<close> of its pipe.\<close>

definition note_entry :: "rule_pipe \<Rightarrow> nat \<Rightarrow> statuses \<times> ('t, 'h) gw_app \<Rightarrow> ('t, 'h) step_result" where
  "note_entry p i = (\<lambda>(ss, app).
     (if debug_mode (app_config app)
      then let pi = pipes app p
           in if nb_entries pi < length (entry_names pi)
              then Some (DOCA_SUCCESS, ss, app\<lparr>pipes := (pipes app)(p := \<lparr>nb_entries = nb_entries pi + 1,
                     entry_names = (entry_names pi)[nb_entries pi := take (MAX_NAME_LEN - 1) (''rule'' @ dec i)]\<rparr>)\<rparr>)
              else None
      else Some (DOCA_SUCCESS, ss, app)))"

section \<open>Encryption rules\<close>

definition is_perf_bw :: "('t, 'h) gw_app \<Rightarrow> bool" where
  "is_perf_bw app \<longleftrightarrow> perf_measurement app = IPSEC_SECURITY_GW_PERF_BW \<or> perf_measurement app = IPSEC_SECURITY_GW_PERF_BOTH"

definition get_pipe_for_rule :: "encrypt_rule \<Rightarrow> bool \<Rightarrow> rule_pipe" where
  "get_pipe_for_rule rule src_ip6 =
     (if \<not> src_ip6
      then if er_l3_type rule = DOCA_FLOW_L3_TYPE_IP4
           then if er_protocol rule = DOCA_FLOW_L4_TYPE_EXT_TCP then Ipv4_tcp_pipe else Ipv4_udp_pipe
           else if er_protocol rule = DOCA_FLOW_L4_TYPE_EXT_TCP then Ipv6_tcp_pipe else Ipv6_udp_pipe
      else if er_protocol rule = DOCA_FLOW_L4_TYPE_EXT_TCP then Ipv6_src_tcp_pipe else Ipv6_src_udp_pipe)"

text \<open>An entry for the hairpin status, flagged as the last of a batch where \<open>last\<close> says so or the queue
  gets full; a full queue is processed.\<close>

definition queue_entry ::
    "'h flow_api \<Rightarrow> flow_port \<Rightarrow> u16 \<Rightarrow> rule_pipe \<Rightarrow> rule_match \<Rightarrow> rule_actions \<Rightarrow> bool \<Rightarrow> nat
     \<Rightarrow> statuses \<times> ('t, 'h) gw_app \<Rightarrow> ('t, 'h) step_result" where
  "queue_entry api port queue_id p match actions is_last i = (\<lambda>s.
     (let flags = (if is_last \<or> entries_in_queue (fst s Hairpin_status) = QUEUE_DEPTH - 1
                   then DOCA_FLOW_NO_WAIT else DOCA_FLOW_WAIT_FOR_BATCH)
      in and_then (and_then (and_then (note_entry p i s)
           (add_entry api queue_id p match actions flags Hairpin_status))
           (count_entries Hairpin_status 1))
           (\<lambda>s. if entries_in_queue (fst s Hairpin_status) = QUEUE_DEPTH
                then process_entries api port Hairpin_status queue_id s else Some (DOCA_SUCCESS, s))))"

definition add_src_ip6_entry ::
    "'h flow_api \<Rightarrow> flow_port \<Rightarrow> encrypt_rule \<Rightarrow> nat \<Rightarrow> u16 \<Rightarrow> nat \<Rightarrow> statuses \<times> ('t, 'h) gw_app \<Rightarrow> ('t, 'h) step_result" where
  "add_src_ip6_entry api port rule src_ip_id queue_id i =
     queue_entry api port queue_id (get_pipe_for_rule rule True)
       (zero_rule_match\<lparr>rm_ip := take 4 (er_ip rule) @ replicate 4 0\<rparr>)
       (zero_rule_actions\<lparr>ra_meta0 := of_nat src_ip_id\<rparr>) False i"

definition five_tuple_match :: "encrypt_rule \<Rightarrow> nat \<Rightarrow> rule_match" where
  "five_tuple_match rule src_ip_id =
     (let has_ports = er_protocol rule = DOCA_FLOW_L4_TYPE_EXT_TCP \<or> er_protocol rule = DOCA_FLOW_L4_TYPE_EXT_UDP;
          match = zero_rule_match\<lparr>rm_l4_type_ext := er_protocol rule,
            rm_src_port := (if has_ports then be16 (ucast (er_src_port rule)) else 0),
            rm_dst_port := (if has_ports then be16 (ucast (er_dst_port rule)) else 0)\<rparr>
      in if er_l3_type rule = DOCA_FLOW_L3_TYPE_IP4
         then match\<lparr>rm_ip := (rm_ip match)[1 := er_ip rule ! 1, 0 := er_ip rule ! 0]\<rparr>
         else match\<lparr>rm_meta0 := of_nat src_ip_id, rm_ip := replicate 4 0 @ drop 4 (er_ip rule)\<rparr>)"

text \<open>The id of the source address is looked up with the destination address.\<close>

definition add_five_tuple_match_entry ::
    "'t ip6_table_api \<Rightarrow> 'h flow_api \<Rightarrow> flow_port \<Rightarrow> encrypt_rule \<Rightarrow> nat \<Rightarrow> nat \<Rightarrow> u16
     \<Rightarrow> statuses \<times> ('t, 'h) gw_app \<Rightarrow> ('t, 'h) step_result" where
  "add_five_tuple_match_entry tapi api port rule n i queue_id = (\<lambda>s.
     (let add = (\<lambda>src_ip_id. queue_entry api port queue_id (get_pipe_for_rule rule False) (five_tuple_match rule src_ip_id)
                  (zero_rule_actions\<lparr>ra_pkt_meta := make_meta True False 0 False 0 0 (of_nat i)\<rparr>) (i + 1 = n) i)
      in if er_l3_type rule = DOCA_FLOW_L3_TYPE_IP6 \<and> \<not> is_perf_bw (snd s)
         then case ip6_lookup tapi (ip6_table (snd s)) (drop 4 (er_ip rule)) of
                None \<Rightarrow> Some (DOCA_ERROR_NOT_FOUND, s)
              | Some src_ip_id \<Rightarrow> and_then (add_src_ip6_entry api port rule src_ip_id queue_id i s) (add src_ip_id)
         else add 0 s))"

definition create_ipsec_encrypt_shared_object ::
    "'h flow_api \<Rightarrow> ipsec_security_gw_sa_attrs \<Rightarrow> u32 \<Rightarrow> statuses \<times> ('t, 'h) gw_app \<Rightarrow> ('t, 'h) step_result" where
  "create_ipsec_encrypt_shared_object api sa ipsec_id = (\<lambda>(ss, app).
     (let (result, h) = shared_resource_cfg api ipsec_id
            \<lparr>sc_egress = True, sc_icv_len = sa_icv_length sa, sc_salt = sa_salt sa, sc_key_type = sa_key_type sa,
             sc_key = sa_enc_key_data sa, sc_sn_offload_type = DOCA_FLOW_CRYPTO_SN_OFFLOAD_INC,
             sc_win_size = DOCA_FLOW_CRYPTO_REPLAY_WIN_SIZE_32,
             sc_sn_initial = (if sw_sn_inc_enable (app_config app) then 0 else sn_initial app)\<rparr> (hw app)
      in Some (result, ss, app\<lparr>hw := h\<rparr>)))"

text \<open>The raw header for the hardware and the action index; the IPv4 tunnel header takes an IP id.\<close>

definition encap_header :: "encrypt_rule \<Rightarrow> ('t, 'h) gw_app \<Rightarrow> u8 list \<times> u8 \<times> u16" where
  "encap_header rule app =
     (case gw_mode (app_config app) of
        IPSEC_SECURITY_GW_TUNNEL \<Rightarrow>
          if er_encap_l3_type rule = DOCA_FLOW_L3_TYPE_IP4
          then (create_ipv4_tunnel_encap rule False (app_ip_id app), 0, app_ip_id app + 1)
          else (create_ipv6_tunnel_encap rule False, 1, app_ip_id app)
      | IPSEC_SECURITY_GW_TRANSPORT \<Rightarrow> (create_transport_encap rule False, 0, app_ip_id app)
      | IPSEC_SECURITY_GW_UDP_TRANSPORT \<Rightarrow> (create_udp_transport_encap rule False, 0, app_ip_id app))"

definition encrypt_pipe_for :: "encrypt_rule \<Rightarrow> ('t, 'h) gw_app \<Rightarrow> rule_pipe" where
  "encrypt_pipe_for rule app =
     (let l3 = (if gw_mode (app_config app) = IPSEC_SECURITY_GW_TUNNEL
                   \<and> (offload app = IPSEC_SECURITY_GW_ESP_OFFLOAD_NONE \<or> offload app = IPSEC_SECURITY_GW_ESP_OFFLOAD_DECAP)
                then er_encap_l3_type rule else er_l3_type rule)
      in if l3 = DOCA_FLOW_L3_TYPE_IP4 then Ipv4_encrypt_pipe else Ipv6_encrypt_pipe)"

text \<open>The entry of the encrypt pipe.\<close>

definition add_crypto_entry ::
    "'h flow_api \<Rightarrow> encrypt_rule \<Rightarrow> rule_pipe \<Rightarrow> nat \<Rightarrow> statuses \<times> ('t, 'h) gw_app \<Rightarrow> ('t, 'h) step_result" where
  "add_crypto_entry api rule p rule_id = (\<lambda>(ss, app).
     (let (data, idx, ip_id) = encap_header rule app;
          match = zero_rule_match\<lparr>rm_pkt_meta := make_meta False False 0 False 0 0 (of_nat rule_id)\<rparr>;
          actions = zero_rule_actions\<lparr>ra_action_idx := idx, ra_crypto_id := of_nat rule_id, ra_encap_data := data,
            ra_icv_size := get_icv_len_int (sa_icv_length (er_sa_attrs rule))\<rparr>
      in and_then (and_then (note_entry p rule_id (ss, app\<lparr>app_ip_id := ip_id\<rparr>))
           (add_entry api 0 p match actions DOCA_FLOW_NO_WAIT Crypto_status))
           (count_entries Crypto_status 1)))"

definition add_encrypt_entry ::
    "'t ip6_table_api \<Rightarrow> 'h flow_api \<Rightarrow> encrypt_rule \<Rightarrow> nat \<Rightarrow> ('t, 'h) gw_app \<Rightarrow> ('t, 'h) step_result" where
  "add_encrypt_entry tapi api rule rule_id app =
     (let switch = gw_flow_mode (app_config app) = IPSEC_SECURITY_GW_SWITCH;
          secured_port = (if switch then Switch_port else Secured_port);
          unsecured_port = (if switch then Switch_port else Unsecured_port)
      in and_then (and_then (and_then (and_then
           (add_five_tuple_match_entry tapi api unsecured_port rule (rule_id + 1) rule_id 0 (\<lambda>_. zero_status, app))
           (create_ipsec_encrypt_shared_object api (er_sa_attrs rule) (of_nat rule_id)))
           (add_crypto_entry api rule (encrypt_pipe_for rule app) rule_id))
           (process_all api secured_port Crypto_status))
           (process_all api unsecured_port Hairpin_status))"

section \<open>Decryption rules\<close>

definition create_ipsec_decrypt_shared_object ::
    "'h flow_api \<Rightarrow> ipsec_security_gw_sa_attrs \<Rightarrow> u32 \<Rightarrow> statuses \<times> ('t, 'h) gw_app \<Rightarrow> ('t, 'h) step_result" where
  "create_ipsec_decrypt_shared_object api sa ipsec_id = (\<lambda>(ss, app).
     (let sw = sw_antireplay (app_config app);
          (result, h) = shared_resource_cfg api ipsec_id
            \<lparr>sc_egress = False, sc_icv_len = sa_icv_length sa, sc_salt = sa_salt sa, sc_key_type = sa_key_type sa,
             sc_key = sa_enc_key_data sa,
             sc_sn_offload_type = (if sw then DOCA_FLOW_CRYPTO_SN_OFFLOAD_INC else DOCA_FLOW_CRYPTO_SN_OFFLOAD_AR),
             sc_win_size = (if sw then DOCA_FLOW_CRYPTO_REPLAY_WIN_SIZE_32 else DOCA_FLOW_CRYPTO_REPLAY_WIN_SIZE_128),
             sc_sn_initial = (if sw then 0 else sn_initial app)\<rparr> (hw app)
      in Some (result, ss, app\<lparr>hw := h\<rparr>)))"

text \<open>The four entries of a rule in the bad syndrome pipe.\<close>

definition add_bad_syndrome_pipe_entry ::
    "'h flow_api \<Rightarrow> rule_pipe \<Rightarrow> u32 \<Rightarrow> u32 \<Rightarrow> u16 \<Rightarrow> statuses \<times> ('t, 'h) gw_app \<Rightarrow> ('t, 'h) step_result" where
  "add_bad_syndrome_pipe_entry api p rule_id flags queue_id = (\<lambda>s.
     (let m = zero_rule_match\<lparr>rm_pkt_meta := make_meta False False 0 False 0 0 rule_id\<rparr>;
          add = (\<lambda>m d r f. add_entry api queue_id p m
                   (zero_rule_actions\<lparr>ra_pkt_meta := make_meta False False 0 False d r 0\<rparr>) f Crypto_status)
      in and_then (and_then (and_then
           (add (m\<lparr>rm_ipsec_syndrome := 1\<rparr>) 1 0 DOCA_FLOW_WAIT_FOR_BATCH s)
           (add (m\<lparr>rm_ipsec_syndrome := 2\<rparr>) 2 0 DOCA_FLOW_WAIT_FOR_BATCH))
           (add (m\<lparr>rm_meta0 := 1\<rparr>) 0 1 DOCA_FLOW_WAIT_FOR_BATCH))
           (add (m\<lparr>rm_meta0 := 2\<rparr>) 0 2 flags)))"

text \<open>The metadata that the hardware puts on the packets of a rule.\<close>

definition decrypt_meta :: "decrypt_rule \<Rightarrow> nat \<Rightarrow> gw_config \<Rightarrow> u32" where
  "decrypt_meta rule rule_id cfg =
     make_meta False True (icv_len_val (sa_icv_length (dr_sa_attrs rule)))
       (gw_mode cfg = IPSEC_SECURITY_GW_TUNNEL \<and> dr_inner_l3_type rule = DOCA_FLOW_L3_TYPE_IP6) 0 0 (of_nat rule_id)"

definition add_decrypt_entry ::
    "'h flow_api \<Rightarrow> decrypt_rule \<Rightarrow> nat \<Rightarrow> flow_port \<Rightarrow> ('t, 'h) gw_app \<Rightarrow> ('t, 'h) step_result" where
  "add_decrypt_entry api rule rule_id port app =
     (let ip4 = dr_l3_type rule = DOCA_FLOW_L3_TYPE_IP4;
          dbg = debug_mode (app_config app);
          p = (if ip4 then Decrypt_ipv4_pipe else Decrypt_ipv6_pipe);
          bad_syndrome_pipe = (if ip4 then Bad_syndrome_ipv4_pipe else Bad_syndrome_ipv6_pipe);
          match = zero_rule_match\<lparr>rm_l3_type := dr_l3_type rule, rm_esp_spi := be32 (dr_esp_spi rule), rm_tun_esp := True,
            rm_ip := (if ip4 then (replicate 8 0)[1 := dr_dst_ip rule ! 0] else replicate 4 0 @ dr_dst_ip rule)\<rparr>;
          actions = zero_rule_actions\<lparr>ra_crypto_id := of_nat rule_id, ra_pkt_meta := decrypt_meta rule rule_id (app_config app)\<rparr>;
          flags = (if dbg then DOCA_FLOW_WAIT_FOR_BATCH else DOCA_FLOW_NO_WAIT)
      in and_then (and_then (and_then (and_then (and_then
           (create_ipsec_decrypt_shared_object api (dr_sa_attrs rule) (of_nat rule_id) (\<lambda>_. zero_status, app))
           (note_entry p rule_id))
           (add_entry api 0 p match actions flags Crypto_status))
           (count_entries Crypto_status 1))
           (\<lambda>s. if dbg
                then and_then (add_bad_syndrome_pipe_entry api bad_syndrome_pipe (of_nat rule_id) DOCA_FLOW_NO_WAIT 0 s)
                       (count_entries Crypto_status NUM_OF_SYNDROMES)
                else Some (DOCA_SUCCESS, s)))
           (process_all api port Crypto_status))"

section \<open>Policies\<close>

text \<open>The rule is parsed in its place of the array, so a failing policy leaves its traces there.\<close>

definition ipsec_security_gw_handle_encrypt_policy ::
    "'t ip6_table_api \<Rightarrow> 'h flow_api \<Rightarrow> ipsec_policy \<Rightarrow> nat \<Rightarrow> ('t, 'h) gw_app \<Rightarrow> (doca_error \<times> ('t, 'h) gw_app) option" where
  "ipsec_security_gw_handle_encrypt_policy tapi api policy idx app =
     (if idx < length (app_encrypt_rules app)
      then do { (result, rule, t) \<leftarrow> ipsec_security_gw_policy_encrypt_parse tapi policy (app_encrypt_rules app ! idx) (ip6_table app);
                let app = app\<lparr>app_encrypt_rules := (app_encrypt_rules app)[idx := rule], ip6_table := t\<rparr>;
                if result \<noteq> DOCA_SUCCESS then Some (result, app)
                else do { (result, _, app) \<leftarrow> add_encrypt_entry tapi api rule (nb_encrypted_rules app) app;
                          if result \<noteq> DOCA_SUCCESS then Some (result, app)
                          else Some (DOCA_SUCCESS, app\<lparr>nb_encrypted_rules := nb_encrypted_rules app + 1,
                                                       nb_rules := nb_rules app + 1\<rparr>) } }
      else None)"

definition ipsec_security_gw_handle_decrypt_policy ::
    "'h flow_api \<Rightarrow> flow_port \<Rightarrow> ipsec_policy \<Rightarrow> nat \<Rightarrow> ('t, 'h) gw_app \<Rightarrow> (doca_error \<times> ('t, 'h) gw_app) option" where
  "ipsec_security_gw_handle_decrypt_policy api secured_port policy idx app =
     (if idx < length (app_decrypt_rules app)
      then do { (result, rule) \<leftarrow> ipsec_security_gw_policy_decrypt_parse policy (gw_mode (app_config app)) (app_decrypt_rules app ! idx);
                let app = app\<lparr>app_decrypt_rules := (app_decrypt_rules app)[idx := rule]\<rparr>;
                if result \<noteq> DOCA_SUCCESS then Some (result, app)
                else do { (result, _, app) \<leftarrow> add_decrypt_entry api rule (DYN_RESERVED_RULES + nb_decrypted_rules app) secured_port app;
                          if result \<noteq> DOCA_SUCCESS then Some (result, app)
                          else Some (DOCA_SUCCESS, app\<lparr>nb_decrypted_rules := nb_decrypted_rules app + 1,
                                                       nb_rules := nb_rules app + 1\<rparr>) } }
      else None)"

text \<open>\<^verbatim>\<open>sw_handling_sn_inc\<close> and \<^verbatim>\<open>sw_handling_antireplay\<close> on the rules from an index on.\<close>

definition sw_handling_sn_inc :: "u64 \<Rightarrow> nat \<Rightarrow> nat \<Rightarrow> encrypt_rule list \<Rightarrow> encrypt_rule list" where
  "sw_handling_sn_inc sn off n rules =
     fold (\<lambda>i rs. rs[off + i := (rs ! (off + i))\<lparr>er_current_sn := ucast sn\<rparr>]) [0..<n] rules"

definition antireplay_rules :: "u64 \<Rightarrow> nat \<Rightarrow> nat \<Rightarrow> decrypt_rule list \<Rightarrow> decrypt_rule list" where
  "antireplay_rules sn off n rules =
     take off rules @ map2 (\<lambda>r s. r\<lparr>dr_antireplay_state := s\<rparr>) (drop off rules)
       (sw_handling_antireplay sn (map dr_antireplay_state (drop off rules)) n)"

text \<open>
  What surrounds the loop: \<open>encrypt_block n\<close> and \<open>decrypt_block n\<close> are the uninitialised rules behind
  the first \<open>n\<close> after \<^verbatim>\<open>realloc\<close>, or nothing when it fails.
\<close>

record alloc =
  encrypt_block :: "nat \<Rightarrow> encrypt_rule list option"
  decrypt_block :: "nat \<Rightarrow> decrypt_rule list option"

definition alloc_laws :: "alloc \<Rightarrow> bool" where
  "alloc_laws al \<longleftrightarrow> (\<forall>n rs. encrypt_block al n = Some rs \<longrightarrow> length rs = DYN_RESERVED_RULES)
     \<and> (\<forall>n rs. decrypt_block al n = Some rs \<longrightarrow> length rs = DYN_RESERVED_RULES)"

text \<open>One policy that has been read.\<close>

definition handle_policy ::
    "'t ip6_table_api \<Rightarrow> 'h flow_api \<Rightarrow> alloc \<Rightarrow> ipsec_policy \<Rightarrow> ('t, 'h) gw_app \<Rightarrow> (doca_error \<times> ('t, 'h) gw_app) option" where
  "handle_policy tapi api al policy app =
     (if pol_policy_direction policy = POLICY_DIR_OUT then
        let n = nb_encrypted_rules app in
        if MAX_NB_RULES \<le> n then Some (DOCA_ERROR_BAD_STATE, app)
        else if n \<noteq> 0 \<and> n mod DYN_RESERVED_RULES = 0 then
          (case encrypt_block al n of
             None \<Rightarrow> Some (DOCA_ERROR_NO_MEMORY, app\<lparr>app_encrypt_rules := []\<rparr>)
           | Some block \<Rightarrow>
               let rules = take n (app_encrypt_rules app) @ block;
                   rules = (if sw_sn_inc_enable (app_config app)
                            then sw_handling_sn_inc (sn_initial app) n DYN_RESERVED_RULES rules else rules)
               in ipsec_security_gw_handle_encrypt_policy tapi api policy n (app\<lparr>app_encrypt_rules := rules\<rparr>))
        else ipsec_security_gw_handle_encrypt_policy tapi api policy n app
      else if pol_policy_direction policy = POLICY_DIR_IN then
        let n = nb_decrypted_rules app;
            secured_port = (if gw_flow_mode (app_config app) = IPSEC_SECURITY_GW_VNF then Secured_port else Switch_port) in
        if MAX_NB_RULES \<le> n then Some (DOCA_ERROR_BAD_STATE, app)
        else if n \<noteq> 0 \<and> n mod DYN_RESERVED_RULES = 0 then
          (case decrypt_block al n of
             None \<Rightarrow> Some (DOCA_ERROR_NO_MEMORY, app\<lparr>app_decrypt_rules := []\<rparr>)
           | Some block \<Rightarrow>
               let rules = take n (app_decrypt_rules app) @ block;
                   rules = (if sw_antireplay (app_config app)
                            then antireplay_rules (sn_initial app) n DYN_RESERVED_RULES rules else rules)
               in ipsec_security_gw_handle_decrypt_policy api secured_port policy n (app\<lparr>app_decrypt_rules := rules\<rparr>))
        else ipsec_security_gw_handle_decrypt_policy api secured_port policy n app
      else Some (DOCA_SUCCESS, app))"

text \<open>The loop in socket mode; the signal that sets \<^verbatim>\<open>force_quit\<close> arrives after \<open>n\<close> rounds.\<close>

fun policy_loop ::
    "'t ip6_table_api \<Rightarrow> 'h flow_api \<Rightarrow> alloc \<Rightarrow> nat \<Rightarrow> recv_event list \<Rightarrow> doca_error \<Rightarrow> ('t, 'h) gw_app
     \<Rightarrow> (doca_error \<times> ('t, 'h) gw_app) option" where
  "policy_loop tapi api al 0 es result app = Some (result, app)"
| "policy_loop tapi api al (Suc n) es result app =
     do { (result, policy, es) \<leftarrow> read_message_from_socket es zero_policy;
          if result = DOCA_ERROR_AGAIN then policy_loop tapi api al n es result app
          else if result \<noteq> DOCA_SUCCESS then Some (result, app)
          else do { (result, app) \<leftarrow> handle_policy tapi api al policy app;
                    if result \<noteq> DOCA_SUCCESS then Some (result, app)
                    else policy_loop tapi api al n es result app } }"

text \<open>The start of \<^verbatim>\<open>ipsec_security_gw_wait_for_traffic\<close> in socket mode: software state of the first block.\<close>

definition init_software_state :: "('t, 'h) gw_app \<Rightarrow> ('t, 'h) gw_app" where
  "init_software_state app =
     (if offload app \<noteq> IPSEC_SECURITY_GW_ESP_OFFLOAD_BOTH \<or> is_fwd_syndrome_rss (app_config app)
      then let app = (if sw_sn_inc_enable (app_config app)
                      then app\<lparr>app_encrypt_rules := sw_handling_sn_inc (sn_initial app) 0 DYN_RESERVED_RULES (app_encrypt_rules app)\<rparr>
                      else app)
           in (if sw_antireplay (app_config app)
               then app\<lparr>app_decrypt_rules := antireplay_rules (sn_initial app) 0 DYN_RESERVED_RULES (app_decrypt_rules app)\<rparr>
               else app)
      else app)"

section \<open>What the insertion leaves alone\<close>

text \<open>The rules with their counters, the configuration and the table of addresses.\<close>

definition core :: "('t, 'h) gw_app
    \<Rightarrow> encrypt_rule list \<times> decrypt_rule list \<times> nat \<times> nat \<times> nat \<times> gw_config \<times> u64 \<times> 't" where
  "core app = (app_encrypt_rules app, app_decrypt_rules app, nb_encrypted_rules app, nb_decrypted_rules app,
     nb_rules app, app_config app, sn_initial app, ip6_table app)"

lemma core_updates [simp]: "core (app\<lparr>hw := h\<rparr>) = core app" "core (app\<lparr>pipes := p\<rparr>) = core app"
  "core (app\<lparr>app_ip_id := i\<rparr>) = core app"
  by (simp_all add: core_def)

definition kept :: "('t, 'h) gw_app \<Rightarrow> ('t, 'h) step_result \<Rightarrow> bool" where
  "kept app x \<longleftrightarrow> (\<forall>r ss app'. x = Some (r, ss, app') \<longrightarrow> core app' = core app)"

named_theorems kept_intros

lemma kept_some [kept_intros]: "core (snd s) = core app \<Longrightarrow> kept app (Some (e, s))"
  by (cases s) (simp add: kept_def)

lemma kept_and_then [kept_intros]:
  assumes "kept app m" and "\<And>s. core (snd s) = core app \<Longrightarrow> kept app (f s)"
  shows "kept app (and_then m f)"
proof (cases m)
  case (Some x)
  obtain r ss a where x: "x = (r, ss, a)" by (cases x)
  then have core: "core (snd (ss, a)) = core app" using assms(1) Some unfolding kept_def by simp
  show ?thesis
    using assms(2) [OF core] kept_some [OF core, of r] by (simp add: and_then_def Some x)
qed (simp add: and_then_def kept_def)

lemma kept_add_entry [kept_intros]: "core (snd s) = core app \<Longrightarrow> kept app (add_entry api q p m a f r s)"
  by (simp add: add_entry_def split_beta kept_def)

lemma kept_count_entries [kept_intros]: "core (snd s) = core app \<Longrightarrow> kept app (count_entries r n s)"
  by (simp add: count_entries_def split_beta kept_def)

lemma kept_note_entry [kept_intros]: "core (snd s) = core app \<Longrightarrow> kept app (note_entry p i s)"
  by (cases s) (simp add: note_entry_def kept_def Let_def)

lemma kept_process_entries [kept_intros]: "core (snd s) = core app \<Longrightarrow> kept app (process_entries api port r q s)"
  by (simp add: process_entries_def split_beta kept_def Let_def)

lemma kept_encrypt_shared [kept_intros]:
  "core (snd s) = core app \<Longrightarrow> kept app (create_ipsec_encrypt_shared_object api sa j s)"
  by (simp add: create_ipsec_encrypt_shared_object_def split_beta kept_def)

lemma kept_decrypt_shared [kept_intros]:
  "core (snd s) = core app \<Longrightarrow> kept app (create_ipsec_decrypt_shared_object api sa j s)"
  unfolding create_ipsec_decrypt_shared_object_def Let_def split_beta by (simp add: kept_def)

lemma kept_if [kept_intros]:
  "(b \<Longrightarrow> kept app x) \<Longrightarrow> (\<not> b \<Longrightarrow> kept app y) \<Longrightarrow> kept app (if b then x else y)"
  by simp

lemma process_all_core: "process_all api port r s = Some x \<Longrightarrow> core (snd (snd x)) = core (snd s)"
proof (induction rule: process_all.raw_induct [rotated 1, consumes 1, case_names step])
  case (step process_all' api port r s x)
  obtain y where y: "process_entries api port r 0 s = Some y"
    using step(2) by (auto split: option.split_asm)
  then have "core (snd (snd y)) = core (snd s)"
    using kept_process_entries [OF refl, of s api port r 0] unfolding kept_def by (cases y) simp
  with step(1) [of api port r "snd y" x] step(2) y show ?case by (auto split: if_split_asm)
qed

lemma kept_process_all [kept_intros]: "core (snd s) = core app \<Longrightarrow> kept app (process_all api port r s)"
  unfolding kept_def by (auto dest: process_all_core)

lemma kept_queue_entry [kept_intros]:
  "core (snd s) = core app \<Longrightarrow> kept app (queue_entry api port q p m a l i s)"
  unfolding queue_entry_def Let_def by (intro kept_intros) simp_all

lemma kept_five_tuple [kept_intros]:
  "core (snd s) = core app \<Longrightarrow> kept app (add_five_tuple_match_entry tapi api port rule n i q s)"
  unfolding add_five_tuple_match_entry_def add_src_ip6_entry_def Let_def
  by (cases "ip6_lookup tapi (ip6_table (snd s)) (drop 4 (er_ip rule))") (simp_all add: kept_intros)

lemma kept_crypto_entry [kept_intros]:
  "core (snd s) = core app \<Longrightarrow> kept app (add_crypto_entry api rule p i s)"
  unfolding add_crypto_entry_def Let_def split_beta by (intro kept_intros) simp_all

lemma kept_bad_syndrome [kept_intros]:
  "core (snd s) = core app \<Longrightarrow> kept app (add_bad_syndrome_pipe_entry api p i f q s)"
  unfolding add_bad_syndrome_pipe_entry_def Let_def by (intro kept_intros) simp_all

lemma kept_add_encrypt_entry: "kept app (add_encrypt_entry tapi api rule i app)"
  unfolding add_encrypt_entry_def Let_def by (intro kept_intros) simp_all

lemma kept_add_decrypt_entry: "kept app (add_decrypt_entry api rule i port app)"
  unfolding add_decrypt_entry_def Let_def by (intro kept_intros) simp_all

section \<open>The arrays of rules\<close>

text \<open>The number of allocated rules when \<open>n\<close> are in use.\<close>

definition capacity :: "nat \<Rightarrow> nat" where
  "capacity n = max 1 ((n + 1023) div 1024) * DYN_RESERVED_RULES"

definition wf_rules :: "('t, 'h) gw_app \<Rightarrow> bool" where
  "wf_rules app \<longleftrightarrow> length (app_encrypt_rules app) = capacity (nb_encrypted_rules app)
     \<and> length (app_decrypt_rules app) = capacity (nb_decrypted_rules app)
     \<and> nb_encrypted_rules app \<le> MAX_NB_RULES \<and> nb_decrypted_rules app \<le> MAX_NB_RULES
     \<and> nb_rules app = nb_encrypted_rules app + nb_decrypted_rules app"

text \<open>The rules in use are the same, and maybe there are more of them.\<close>

definition extends :: "('t, 'h) gw_app \<Rightarrow> ('t, 'h) gw_app \<Rightarrow> bool" where
  "extends app app' \<longleftrightarrow> nb_encrypted_rules app \<le> nb_encrypted_rules app' \<and> nb_decrypted_rules app \<le> nb_decrypted_rules app'
     \<and> take (nb_encrypted_rules app) (app_encrypt_rules app') = take (nb_encrypted_rules app) (app_encrypt_rules app)
     \<and> take (nb_decrypted_rules app) (app_decrypt_rules app') = take (nb_decrypted_rules app) (app_decrypt_rules app)
     \<and> app_config app' = app_config app"

lemma take_take_le: "n \<le> m \<Longrightarrow> take m xs = take m ys \<Longrightarrow> take n xs = take n ys"
  by (metis min.absorb1 take_take)

lemma extends_trans: "extends a b \<Longrightarrow> extends b c \<Longrightarrow> extends a c"
  unfolding extends_def by (auto dest: take_take_le)

lemma capacity_full: "n \<noteq> 0 \<Longrightarrow> n mod 1024 = 0 \<Longrightarrow> capacity n = n \<and> capacity (Suc n) = n + 1024"
  by (auto simp: capacity_def DYN_RESERVED_RULES_def mod_eq_0_iff_dvd elim!: dvdE)

lemma capacity_room: "n = 0 \<or> n mod 1024 \<noteq> 0 \<Longrightarrow> n < capacity n \<and> capacity (Suc n) = capacity n"
proof -
  assume "n = 0 \<or> n mod 1024 \<noteq> 0"
  moreover have "n = n div 1024 * 1024 + n mod 1024" "n mod 1024 < 1024" by simp_all
  ultimately obtain q r where n: "n = q * 1024 + r" "r < 1024" "n = 0 \<or> r \<noteq> 0" by blast
  show ?thesis
  proof (cases "n = 0")
    case False
    then have "(n + 1023) div 1024 = q + 1" "(Suc n + 1023) div 1024 = q + 1"
      using n by (simp_all add: div_eq_dividend_iff) linarith+
    then show ?thesis using n by (simp add: capacity_def DYN_RESERVED_RULES_def)
  qed (simp add: capacity_def DYN_RESERVED_RULES_def)
qed

lemma length_sw_handling_sn_inc [simp]: "length (sw_handling_sn_inc sn off n rules) = length rules"
  unfolding sw_handling_sn_inc_def by (induction n arbitrary: rules) simp_all

lemma take_sw_handling_sn_inc [simp]: "take off (sw_handling_sn_inc sn off n rules) = take off rules"
  unfolding sw_handling_sn_inc_def by (induction n arbitrary: rules) (simp_all add: take_update_cancel)

lemma length_sw_handling_antireplay [simp]: "length (sw_handling_antireplay sn rs n) = length rs"
  unfolding sw_handling_antireplay_def by (induction n arbitrary: rs) simp_all

lemma length_antireplay_rules [simp]: "length (antireplay_rules sn off n rules) = length rules"
  by (simp add: antireplay_rules_def)

lemma take_antireplay_rules [simp]: "take off (antireplay_rules sn off n rules) = take off rules"
  by (cases "off \<le> length rules") (simp_all add: antireplay_rules_def)

section \<open>Handling a policy\<close>

lemma encrypt_policy_success:
  assumes "ipsec_security_gw_handle_encrypt_policy tapi api policy n app = Some (DOCA_SUCCESS, app')"
  shows "\<exists>rule t. n < length (app_encrypt_rules app)
    \<and> ipsec_security_gw_policy_encrypt_parse tapi policy (app_encrypt_rules app ! n) (ip6_table app) = Some (DOCA_SUCCESS, rule, t)
    \<and> app_encrypt_rules app' = (app_encrypt_rules app)[n := rule] \<and> app_decrypt_rules app' = app_decrypt_rules app
    \<and> nb_encrypted_rules app' = nb_encrypted_rules app + 1 \<and> nb_decrypted_rules app' = nb_decrypted_rules app
    \<and> nb_rules app' = nb_rules app + 1 \<and> app_config app' = app_config app \<and> sn_initial app' = sn_initial app"
proof -
  have n: "n < length (app_encrypt_rules app)"
    using assms by (simp add: ipsec_security_gw_handle_encrypt_policy_def split: if_split_asm)
  obtain r rule t where p: "ipsec_security_gw_policy_encrypt_parse tapi policy (app_encrypt_rules app ! n) (ip6_table app) = Some (r, rule, t)"
    using assms n by (auto simp: ipsec_security_gw_handle_encrypt_policy_def Let_def bind_eq_Some_conv)
  let ?a = "app\<lparr>app_encrypt_rules := (app_encrypt_rules app)[n := rule], ip6_table := t\<rparr>"
  have r: "r = DOCA_SUCCESS"
    using assms n p by (auto simp: ipsec_security_gw_handle_encrypt_policy_def Let_def split: if_split_asm)
  obtain r2 ss a2 where a: "add_encrypt_entry tapi api rule (nb_encrypted_rules app) ?a = Some (r2, ss, a2)"
    using assms n p r by (auto simp: ipsec_security_gw_handle_encrypt_policy_def Let_def bind_eq_Some_conv)
  then have "core a2 = core ?a" using kept_add_encrypt_entry [of ?a] unfolding kept_def by blast
  moreover have "app' = a2\<lparr>nb_encrypted_rules := nb_encrypted_rules a2 + 1, nb_rules := nb_rules a2 + 1\<rparr>"
    using assms n p r a by (auto simp: ipsec_security_gw_handle_encrypt_policy_def Let_def split: if_split_asm)
  ultimately show ?thesis using n p r by (simp add: core_def)
qed

lemma decrypt_policy_success:
  assumes "ipsec_security_gw_handle_decrypt_policy api port policy n app = Some (DOCA_SUCCESS, app')"
  shows "\<exists>rule ss a2. n < length (app_decrypt_rules app)
    \<and> ipsec_security_gw_policy_decrypt_parse policy (gw_mode (app_config app)) (app_decrypt_rules app ! n) = Some (DOCA_SUCCESS, rule)
    \<and> add_decrypt_entry api rule (DYN_RESERVED_RULES + nb_decrypted_rules app) port
        (app\<lparr>app_decrypt_rules := (app_decrypt_rules app)[n := rule]\<rparr>) = Some (DOCA_SUCCESS, ss, a2)
    \<and> app_decrypt_rules app' = (app_decrypt_rules app)[n := rule] \<and> app_encrypt_rules app' = app_encrypt_rules app
    \<and> nb_decrypted_rules app' = nb_decrypted_rules app + 1 \<and> nb_encrypted_rules app' = nb_encrypted_rules app
    \<and> nb_rules app' = nb_rules app + 1 \<and> app_config app' = app_config app \<and> sn_initial app' = sn_initial app"
proof -
  have n: "n < length (app_decrypt_rules app)"
    using assms by (simp add: ipsec_security_gw_handle_decrypt_policy_def split: if_split_asm)
  obtain r rule where p: "ipsec_security_gw_policy_decrypt_parse policy (gw_mode (app_config app)) (app_decrypt_rules app ! n) = Some (r, rule)"
    using assms n by (auto simp: ipsec_security_gw_handle_decrypt_policy_def Let_def bind_eq_Some_conv)
  let ?a = "app\<lparr>app_decrypt_rules := (app_decrypt_rules app)[n := rule]\<rparr>"
  have r: "r = DOCA_SUCCESS"
    using assms n p by (auto simp: ipsec_security_gw_handle_decrypt_policy_def Let_def split: if_split_asm)
  obtain r2 ss a2 where a: "add_decrypt_entry api rule (DYN_RESERVED_RULES + nb_decrypted_rules app) port ?a = Some (r2, ss, a2)"
    using assms n p r by (auto simp: ipsec_security_gw_handle_decrypt_policy_def Let_def bind_eq_Some_conv)
  then have "core a2 = core ?a" using kept_add_decrypt_entry [of ?a] unfolding kept_def by blast
  moreover have "r2 = DOCA_SUCCESS" "app' = a2\<lparr>nb_decrypted_rules := nb_decrypted_rules a2 + 1, nb_rules := nb_rules a2 + 1\<rparr>"
    using assms n p r a by (auto simp: ipsec_security_gw_handle_decrypt_policy_def Let_def split: if_split_asm)
  ultimately show ?thesis using n p r a by (simp add: core_def)
qed

text \<open>A policy for the next encryption rule, with the array the handler finds.\<close>

lemma encrypt_policy_wf:
  assumes "wf_rules app" and "nb_encrypted_rules app < MAX_NB_RULES"
    and "length rules = capacity (Suc (nb_encrypted_rules app))"
    and "take (nb_encrypted_rules app) rules = take (nb_encrypted_rules app) (app_encrypt_rules app)"
    and "ipsec_security_gw_handle_encrypt_policy tapi api policy (nb_encrypted_rules app) (app\<lparr>app_encrypt_rules := rules\<rparr>)
           = Some (DOCA_SUCCESS, app')"
  shows "wf_rules app' \<and> extends app app'"
  using encrypt_policy_success [OF assms(5)] assms(1-4) by (auto simp: wf_rules_def extends_def)

lemma decrypt_policy_wf:
  assumes "wf_rules app" and "nb_decrypted_rules app < MAX_NB_RULES"
    and "length rules = capacity (Suc (nb_decrypted_rules app))"
    and "take (nb_decrypted_rules app) rules = take (nb_decrypted_rules app) (app_decrypt_rules app)"
    and "ipsec_security_gw_handle_decrypt_policy api port policy (nb_decrypted_rules app) (app\<lparr>app_decrypt_rules := rules\<rparr>)
           = Some (DOCA_SUCCESS, app')"
  shows "wf_rules app' \<and> extends app app'"
  using decrypt_policy_success [OF assms(5)] assms(1-4) by (auto simp: wf_rules_def extends_def)

lemma app_self_updates: "app\<lparr>app_encrypt_rules := app_encrypt_rules app\<rparr> = app"
  "app\<lparr>app_decrypt_rules := app_decrypt_rules app\<rparr> = app"
  by simp_all

lemma handle_policy_out_wf:
  assumes "alloc_laws al" and "wf_rules app" and "pol_policy_direction policy = POLICY_DIR_OUT"
    and "handle_policy tapi api al policy app = Some (DOCA_SUCCESS, app')"
  shows "wf_rules app' \<and> extends app app'"
proof -
  let ?n = "nb_encrypted_rules app"
  have n: "?n < MAX_NB_RULES"
    using assms(3,4) by (auto simp: handle_policy_def Let_def split: if_split_asm)
  have len: "length (app_encrypt_rules app) = capacity ?n" using assms(2) by (simp add: wf_rules_def)
  show ?thesis
  proof (cases "?n \<noteq> 0 \<and> ?n mod 1024 = 0")
    case True
    then obtain block where b: "encrypt_block al ?n = Some block"
      using assms(3,4) n by (cases "encrypt_block al ?n") (auto simp: handle_policy_def Let_def DYN_RESERVED_RULES_def)
    have lb: "length block = 1024" using assms(1) b by (simp add: alloc_laws_def DYN_RESERVED_RULES_def)
    define rules where "rules = (if sw_sn_inc_enable (app_config app)
      then sw_handling_sn_inc (sn_initial app) ?n DYN_RESERVED_RULES (take ?n (app_encrypt_rules app) @ block)
      else take ?n (app_encrypt_rules app) @ block)"
    have c: "capacity ?n = ?n" "capacity (Suc ?n) = ?n + 1024" using capacity_full True by auto
    have "ipsec_security_gw_handle_encrypt_policy tapi api policy ?n (app\<lparr>app_encrypt_rules := rules\<rparr>) = Some (DOCA_SUCCESS, app')"
      using assms(3,4) n True b by (simp add: handle_policy_def rules_def Let_def DYN_RESERVED_RULES_def)
    moreover have "length rules = capacity (Suc ?n)" "take ?n rules = take ?n (app_encrypt_rules app)"
      using c len lb by (simp_all add: rules_def)
    ultimately show ?thesis using encrypt_policy_wf [OF assms(2) n] by blast
  next
    case False
    then have "ipsec_security_gw_handle_encrypt_policy tapi api policy ?n (app\<lparr>app_encrypt_rules := app_encrypt_rules app\<rparr>)
        = Some (DOCA_SUCCESS, app')"
      using assms(3,4) n by (auto simp: handle_policy_def Let_def DYN_RESERVED_RULES_def)
    moreover have "capacity (Suc ?n) = capacity ?n" using capacity_room [of ?n] False by auto
    ultimately show ?thesis using encrypt_policy_wf [OF assms(2) n _ refl] len by metis
  qed
qed

lemma handle_policy_in_wf:
  assumes "alloc_laws al" and "wf_rules app" and "pol_policy_direction policy = POLICY_DIR_IN"
    and "handle_policy tapi api al policy app = Some (DOCA_SUCCESS, app')"
  shows "wf_rules app' \<and> extends app app'"
proof -
  let ?n = "nb_decrypted_rules app"
    and ?port = "if gw_flow_mode (app_config app) = IPSEC_SECURITY_GW_VNF then Secured_port else Switch_port"
  have n: "?n < MAX_NB_RULES"
    using assms(3,4) by (auto simp: handle_policy_def POLICY_DIR_IN_def POLICY_DIR_OUT_def Let_def split: if_split_asm)
  have len: "length (app_decrypt_rules app) = capacity ?n" using assms(2) by (simp add: wf_rules_def)
  show ?thesis
  proof (cases "?n \<noteq> 0 \<and> ?n mod 1024 = 0")
    case True
    then obtain block where b: "decrypt_block al ?n = Some block"
      using assms(3,4) n by (cases "decrypt_block al ?n") (auto simp: handle_policy_def POLICY_DIR_IN_def POLICY_DIR_OUT_def Let_def DYN_RESERVED_RULES_def)
    have lb: "length block = 1024" using assms(1) b by (simp add: alloc_laws_def DYN_RESERVED_RULES_def)
    define rules where "rules = (if sw_antireplay (app_config app)
      then antireplay_rules (sn_initial app) ?n DYN_RESERVED_RULES (take ?n (app_decrypt_rules app) @ block)
      else take ?n (app_decrypt_rules app) @ block)"
    have c: "capacity ?n = ?n" "capacity (Suc ?n) = ?n + 1024" using capacity_full True by auto
    have "ipsec_security_gw_handle_decrypt_policy api ?port policy ?n (app\<lparr>app_decrypt_rules := rules\<rparr>) = Some (DOCA_SUCCESS, app')"
      using assms(3,4) n True b by (simp add: handle_policy_def POLICY_DIR_IN_def POLICY_DIR_OUT_def rules_def Let_def DYN_RESERVED_RULES_def)
    moreover have "length rules = capacity (Suc ?n)" "take ?n rules = take ?n (app_decrypt_rules app)"
      using c len lb by (simp_all add: rules_def)
    ultimately show ?thesis using decrypt_policy_wf [OF assms(2) n] by blast
  next
    case False
    then have "ipsec_security_gw_handle_decrypt_policy api ?port policy ?n (app\<lparr>app_decrypt_rules := app_decrypt_rules app\<rparr>)
        = Some (DOCA_SUCCESS, app')"
      using assms(3,4) n by (auto simp: handle_policy_def POLICY_DIR_IN_def POLICY_DIR_OUT_def Let_def DYN_RESERVED_RULES_def)
    moreover have "capacity (Suc ?n) = capacity ?n" using capacity_room [of ?n] False by auto
    ultimately show ?thesis using decrypt_policy_wf [OF assms(2) n _ refl] len by metis
  qed
qed

lemma handle_policy_wf:
  assumes "alloc_laws al" and "wf_rules app" and "handle_policy tapi api al policy app = Some (DOCA_SUCCESS, app')"
  shows "wf_rules app' \<and> extends app app'"
proof -
  consider "pol_policy_direction policy = POLICY_DIR_OUT" | "pol_policy_direction policy = POLICY_DIR_IN" | "app' = app"
    using assms(3) by (auto simp: handle_policy_def split: if_split_asm)
  then show ?thesis
    using handle_policy_out_wf [OF assms(1,2) _ assms(3)] handle_policy_in_wf [OF assms(1,2) _ assms(3)] assms(2)
    by cases (auto simp: extends_def)
qed

text \<open>Policies one after the other, until one fails.\<close>

fun handle_policies ::
    "'t ip6_table_api \<Rightarrow> 'h flow_api \<Rightarrow> alloc \<Rightarrow> ipsec_policy list \<Rightarrow> ('t, 'h) gw_app \<Rightarrow> (doca_error \<times> ('t, 'h) gw_app) option" where
  "handle_policies tapi api al [] app = Some (DOCA_SUCCESS, app)"
| "handle_policies tapi api al (p # ps) app = and_then (handle_policy tapi api al p app) (handle_policies tapi api al ps)"

lemma and_then_success:
  "and_then m f = Some (DOCA_SUCCESS, s') \<Longrightarrow> \<exists>s. m = Some (DOCA_SUCCESS, s) \<and> f s = Some (DOCA_SUCCESS, s')"
  by (auto simp: and_then_def split: option.split_asm if_split_asm)

lemma handle_policies_wf:
  assumes "alloc_laws al" and "wf_rules app" and "handle_policies tapi api al ps app = Some (DOCA_SUCCESS, app')"
  shows "wf_rules app' \<and> extends app app'"
  using assms(2,3)
proof (induction ps arbitrary: app)
  case (Cons p ps)
  then obtain a1 where a1: "handle_policy tapi api al p app = Some (DOCA_SUCCESS, a1)"
      "handle_policies tapi api al ps a1 = Some (DOCA_SUCCESS, app')"
    using and_then_success by fastforce
  from handle_policy_wf [OF assms(1) Cons.prems(1) a1(1)] Cons.IH [OF _ a1(2)] show ?case
    using extends_trans by blast
qed (auto simp: extends_def)

lemma policy_loop_stream:
  assumes "\<forall>(p, key) \<in> set ps. wf_policy p key" and "concat cs = concat (map (\<lambda>(p, key). message p key) ps)"
    and "[] \<notin> set cs" and "ps = [] \<longrightarrow> r0 = DOCA_SUCCESS"
  shows "policy_loop tapi api al (length ps) (map Arrived cs) r0 app = handle_policies tapi api al (map fst ps) app"
  using assms
proof (induction ps arbitrary: cs r0 app)
  case (Cons x ps)
  obtain p key where x: "x = (p, key)" by (cases x)
  have "wf_policy p key" "concat cs = message p key @ concat (map (\<lambda>(p, key). message p key) ps)"
    using Cons.prems x by auto
  from read_message_stream [OF this Cons.prems(3), of "[]"] obtain cs' where
    r: "read_message_from_socket (map Arrived cs) zero_policy = Some (DOCA_SUCCESS, p, map Arrived cs')"
       "concat cs' = concat (map (\<lambda>(p, key). message p key) ps)" "[] \<notin> set cs'"
    by auto
  have IH: "policy_loop tapi api al (length ps) (map Arrived cs') DOCA_SUCCESS a = handle_policies tapi api al (map fst ps) a" for a
    using Cons.IH [OF _ r(2,3)] Cons.prems(1) by simp
  show ?case
  proof (cases "handle_policy tapi api al p app")
    case (Some y)
    then show ?thesis using r(1) IH x by (cases y) (simp add: and_then_def)
  qed (simp add: and_then_def r(1) x)
qed simp

section \<open>Metadata of dynamic decryption rules\<close>

lemma bit_16: "bit (16 :: u32) k \<longleftrightarrow> k = 4" "bit (16 :: int) k \<longleftrightarrow> k = 4"
proof -
  have "(16 :: u32) = 2 ^ 4" "(16 :: int) = 2 ^ 4" by simp_all
  then show "bit (16 :: u32) k \<longleftrightarrow> k = 4" "bit (16 :: int) k \<longleftrightarrow> k = 4"
    by (simp_all only: bit_exp_iff) auto
qed

lemma meta_rule_id_decrypt_meta: "meta_rule_id (decrypt_meta rule i cfg) = take_bit 20 (of_nat i)"
  by (rule bit_word_eqI)
    (auto simp: decrypt_meta_def make_meta_def meta_rule_id_def meta_field_def bit_simps bit_16)

lemma the_rule_none: "length rules \<le> unat i \<Longrightarrow> the_rule rules i = None"
  by (simp add: the_rule_def)

lemma secured_without_rule:
  assumes "the_rule (decrypt_rules ctx) (meta_rule_id (mb_meta m)) = None"
  shows "handle_secured_packets_received mapi m False ctx = None"
  using assms
  by (auto simp: handle_secured_packets_received_def decap_packet_tunnel_def decap_packet_transport_def Let_def
      bind_eq_None_conv split: ipsec_security_gw_mode.split)

lemma unat_take_bit_of_nat: "n < 2 ^ 20 \<Longrightarrow> unat (take_bit 20 (of_nat n :: u32)) = n"
  by (simp add: take_bit_of_nat take_bit_nat_eq_self unat_of_nat)

lemma handle_policy_in_handler:
  assumes "pol_policy_direction policy = POLICY_DIR_IN" and "handle_policy tapi api al policy app = Some (DOCA_SUCCESS, app')"
  shows "\<exists>port n rules. ipsec_security_gw_handle_decrypt_policy api port policy n (app\<lparr>app_decrypt_rules := rules\<rparr>)
    = Some (DOCA_SUCCESS, app')"
proof (cases "decrypt_block al (nb_decrypted_rules app)")
  case None
  then have "\<exists>port n. ipsec_security_gw_handle_decrypt_policy api port policy n app = Some (DOCA_SUCCESS, app')"
    using assms by (auto simp: handle_policy_def Let_def POLICY_DIR_IN_def POLICY_DIR_OUT_def split: if_split_asm)
  then show ?thesis by (metis app_self_updates(2))
next
  case (Some block)
  then have "(\<exists>port n. ipsec_security_gw_handle_decrypt_policy api port policy n app = Some (DOCA_SUCCESS, app'))
      \<or> (\<exists>port n rules. ipsec_security_gw_handle_decrypt_policy api port policy n (app\<lparr>app_decrypt_rules := rules\<rparr>)
          = Some (DOCA_SUCCESS, app'))"
    using assms unfolding handle_policy_def Let_def POLICY_DIR_IN_def POLICY_DIR_OUT_def
    by (simp split: if_split_asm) blast+
  then show ?thesis by (metis app_self_updates(2))
qed

lemma and_then_inner:
  "and_then (and_then (and_then (and_then m a) f) g) h = Some (DOCA_SUCCESS, t) \<Longrightarrow> \<exists>s s'. a s = Some (DOCA_SUCCESS, s')"
  using and_then_success by metis

lemma decrypt_entry_accepted:
  fixes app :: "('t, 'h) gw_app"
  assumes "add_decrypt_entry api rule i port app = Some (DOCA_SUCCESS, ss, app')"
  shows "\<exists>p match actions flags h. fst (pipe_add_entry api 0 p match actions flags Crypto_status h) = DOCA_SUCCESS
    \<and> (p = Decrypt_ipv4_pipe \<or> p = Decrypt_ipv6_pipe) \<and> rm_esp_spi match = be32 (dr_esp_spi rule)
    \<and> ra_pkt_meta actions = decrypt_meta rule i (app_config app)"
proof -
  let ?p = "if dr_l3_type rule = DOCA_FLOW_L3_TYPE_IP4 then Decrypt_ipv4_pipe else Decrypt_ipv6_pipe"
    and ?match = "zero_rule_match\<lparr>rm_l3_type := dr_l3_type rule, rm_esp_spi := be32 (dr_esp_spi rule), rm_tun_esp := True,
      rm_ip := (if dr_l3_type rule = DOCA_FLOW_L3_TYPE_IP4 then (replicate 8 0)[1 := dr_dst_ip rule ! 0]
                else replicate 4 0 @ dr_dst_ip rule)\<rparr>"
    and ?actions = "zero_rule_actions\<lparr>ra_crypto_id := of_nat i, ra_pkt_meta := decrypt_meta rule i (app_config app)\<rparr>"
    and ?flags = "if debug_mode (app_config app) then DOCA_FLOW_WAIT_FOR_BATCH else DOCA_FLOW_NO_WAIT"
  have "\<exists>(s :: statuses \<times> ('t, 'h) gw_app) s'. add_entry api 0 ?p ?match ?actions ?flags Crypto_status s = Some (DOCA_SUCCESS, s')"
    using assms unfolding add_decrypt_entry_def Let_def by (rule and_then_inner)
  then obtain s :: "statuses \<times> ('t, 'h) gw_app" and s' where "add_entry api 0 ?p ?match ?actions ?flags Crypto_status s = Some (DOCA_SUCCESS, s')" by blast
  then have "fst (pipe_add_entry api 0 ?p ?match ?actions ?flags Crypto_status (hw (snd s))) = DOCA_SUCCESS"
    by (simp add: add_entry_def split_beta)
  then show ?thesis
    by (intro exI [of _ ?p] exI [of _ ?match] exI [of _ ?actions] exI [of _ ?flags] exI [of _ "hw (snd s)"]) simp
qed

section \<open>A library that accepts every entry\<close>

definition queue_api :: "status_ref list flow_api" where
  "queue_api = \<lparr>shared_resource_cfg = \<lambda>_ _ q. (DOCA_SUCCESS, q),
     pipe_add_entry = \<lambda>_ _ _ _ _ r q. (DOCA_SUCCESS, q @ [r]),
     entries_process = \<lambda>_ _ _ q. (DOCA_SUCCESS, map (\<lambda>r. (r, True)) q, [])\<rparr>"

definition no_table :: "unit ip6_table_api" where
  "no_table = \<lparr>ip6_lookup = \<lambda>_ _. None, ip6_add_key = \<lambda>_ _. None\<rparr>"

definition no_alloc :: alloc where
  "no_alloc = \<lparr>encrypt_block = \<lambda>_. None, decrypt_block = \<lambda>_. None\<rparr>"

definition socket_app :: "(unit, status_ref list) gw_app" where
  "socket_app = \<lparr>app_config = config sample_ctx, offload = IPSEC_SECURITY_GW_ESP_OFFLOAD_NONE,
     perf_measurement = IPSEC_SECURITY_GW_PERF_NONE, sn_initial = 0, ip6_table = (),
     app_encrypt_rules = replicate 1024 zero_encrypt_rule, app_decrypt_rules = replicate 1024 zero_decrypt_rule,
     nb_encrypted_rules = 0, nb_decrypted_rules = 0, nb_rules = 0,
     pipes = \<lambda>_. \<lparr>nb_entries = 0, entry_names = []\<rparr>, app_ip_id = 0, hw = []\<rparr>"

definition policy4 :: "u8 \<Rightarrow> ipsec_policy" where
  "policy4 dir = zero_policy\<lparr>pol_l3_protocol := 4, pol_outer_l3_protocol := 4, pol_l4_protocol := 17, pol_policy_mode := 1,
     pol_policy_direction := dir, pol_icv_length := 16, pol_spi := 5,
     pol_src_ip_addr := addr_bytes (dotted 10 0 0 1), pol_dst_ip_addr := addr_bytes (dotted 10 0 0 2),
     pol_outer_dst_ip := addr_bytes (dotted 10 0 0 3)\<rparr>"

lemma queue_add_encrypt:
  assumes "er_l3_type rule = DOCA_FLOW_L3_TYPE_IP4" and "\<not> debug_mode (app_config app)"
    and "gw_flow_mode (app_config app) = IPSEC_SECURITY_GW_VNF" and "hw app = []"
  shows "\<exists>ss app'. add_encrypt_entry no_table queue_api rule i app = Some (DOCA_SUCCESS, ss, app') \<and> hw app' = []"
  using assms
  by (simp add: add_encrypt_entry_def add_five_tuple_match_entry_def queue_entry_def note_entry_def add_entry_def
      count_entries_def create_ipsec_encrypt_shared_object_def add_crypto_entry_def split_beta and_then_def queue_api_def
      zero_status_def QUEUE_DEPTH_def process_all.simps process_entries_def check_for_valid_entry_def Let_def)

lemma queue_add_decrypt:
  assumes "\<not> debug_mode (app_config app)" and "hw app = []"
  shows "\<exists>ss app'. add_decrypt_entry queue_api rule i port app = Some (DOCA_SUCCESS, ss, app') \<and> hw app' = []"
  using assms
  by (simp add: add_decrypt_entry_def note_entry_def add_entry_def count_entries_def create_ipsec_decrypt_shared_object_def
      split_beta and_then_def queue_api_def zero_status_def QUEUE_DEPTH_def process_all.simps process_entries_def
      check_for_valid_entry_def Let_def)

lemma policy4_parse:
  "(case ipsec_security_gw_policy_encrypt_parse no_table (policy4 1) zero_encrypt_rule () of
      Some (r, rule, _) \<Rightarrow> r = DOCA_SUCCESS \<and> er_l3_type rule = DOCA_FLOW_L3_TYPE_IP4 | None \<Rightarrow> False)"
  "(case ipsec_security_gw_policy_decrypt_parse (policy4 0) IPSEC_SECURITY_GW_TUNNEL zero_decrypt_rule of
      Some (r, rule) \<Rightarrow> r = DOCA_SUCCESS | None \<Rightarrow> False)"
  by code_simp+

lemma policy4_out:
  assumes "app_config app = config sample_ctx" and "hw app = []" and "nb_encrypted_rules app = 0"
    and "app_encrypt_rules app = replicate 1024 zero_encrypt_rule"
  shows "\<exists>app'. handle_policy no_table queue_api no_alloc (policy4 1) app = Some (DOCA_SUCCESS, app') \<and> hw app' = []
    \<and> nb_encrypted_rules app' = 1 \<and> app_config app' = app_config app
    \<and> app_decrypt_rules app' = app_decrypt_rules app \<and> nb_decrypted_rules app' = nb_decrypted_rules app"
proof -
  obtain rule where p: "ipsec_security_gw_policy_encrypt_parse no_table (policy4 1) zero_encrypt_rule () = Some (DOCA_SUCCESS, rule, ())"
      "er_l3_type rule = DOCA_FLOW_L3_TYPE_IP4"
    using policy4_parse(1) by (auto split: option.split_asm)
  let ?a = "app\<lparr>app_encrypt_rules := (replicate 1024 zero_encrypt_rule)[0 := rule], ip6_table := ()\<rparr>"
  obtain ss a where a: "add_encrypt_entry no_table queue_api rule 0 ?a = Some (DOCA_SUCCESS, ss, a)" "hw a = []"
    using queue_add_encrypt [of rule ?a 0] p(2) assms by (auto simp: sample_ctx_def)
  then have "core a = core ?a" using kept_add_encrypt_entry [of ?a] unfolding kept_def by blast
  then show ?thesis
    using p(1) a assms
    by (simp add: handle_policy_def ipsec_security_gw_handle_encrypt_policy_def policy4_def [of 1] POLICY_DIR_OUT_def
        MAX_NB_RULES_def Let_def core_def flip: policy4_def)
qed

lemma policy4_in:
  assumes "app_config app = config sample_ctx" and "hw app = []" and "nb_decrypted_rules app = 0"
    and "app_decrypt_rules app = replicate 1024 zero_decrypt_rule"
  shows "\<exists>app'. handle_policy no_table queue_api no_alloc (policy4 0) app = Some (DOCA_SUCCESS, app')
    \<and> nb_decrypted_rules app' = 1 \<and> nb_encrypted_rules app' = nb_encrypted_rules app"
proof -
  obtain rule where p: "ipsec_security_gw_policy_decrypt_parse (policy4 0) IPSEC_SECURITY_GW_TUNNEL zero_decrypt_rule = Some (DOCA_SUCCESS, rule)"
    using policy4_parse(2) by (auto split: option.split_asm)
  let ?a = "app\<lparr>app_decrypt_rules := (replicate 1024 zero_decrypt_rule)[0 := rule]\<rparr>"
  obtain ss a where a: "add_decrypt_entry queue_api rule DYN_RESERVED_RULES Secured_port ?a = Some (DOCA_SUCCESS, ss, a)"
    using queue_add_decrypt [of ?a rule DYN_RESERVED_RULES Secured_port] assms by (auto simp: sample_ctx_def)
  then have "core a = core ?a" using kept_add_decrypt_entry [of ?a] unfolding kept_def by blast
  then show ?thesis
    using p(1) a assms
    by (simp add: handle_policy_def ipsec_security_gw_handle_decrypt_policy_def policy4_def [of 0] POLICY_DIR_OUT_def
        POLICY_DIR_IN_def sample_ctx_def MAX_NB_RULES_def Let_def core_def flip: policy4_def)
qed

lemma socket_app_policies:
  "\<exists>app'. handle_policies no_table queue_api no_alloc [policy4 1, policy4 0] socket_app = Some (DOCA_SUCCESS, app')
    \<and> nb_encrypted_rules app' = 1 \<and> nb_decrypted_rules app' = 1"
proof -
  obtain a1 where 1: "handle_policy no_table queue_api no_alloc (policy4 1) socket_app = Some (DOCA_SUCCESS, a1)"
      "hw a1 = []" "nb_encrypted_rules a1 = 1" "app_config a1 = config sample_ctx"
      "app_decrypt_rules a1 = replicate 1024 zero_decrypt_rule" "nb_decrypted_rules a1 = 0"
    using policy4_out [of socket_app] by (auto simp: socket_app_def)
  with policy4_in [of a1] show ?thesis by (auto simp: and_then_def)
qed

lemma socket_app_wf: "wf_rules socket_app" "alloc_laws no_alloc"
  by (simp_all add: wf_rules_def socket_app_def capacity_def DYN_RESERVED_RULES_def MAX_NB_RULES_def alloc_laws_def no_alloc_def)

section \<open>Properties\<close>








end
