(* ===== verification/Fwd_Pkt.thy ===== *)
theory Fwd_Pkt
  imports Flow_Types
begin

text \<open>
  The packet parser of the forwarding application (\<^verbatim>\<open>simple_fwd_vnf/simple_fwd_pkt.c\<close>). The packet is the
  readable memory from its first byte on; a read behind it is undefined. Pointers into the packet are
  offsets, and a pointer that was never set is \<open>None\<close>.
\<close>

section \<open>Data\<close>

definition IPV4 :: u8 where "IPV4 = 4"
definition IPV6 :: u8 where "IPV6 = 6"
definition DOCA_FLOW_PROTO_TCP :: u8 where "DOCA_FLOW_PROTO_TCP = 6"
definition DOCA_FLOW_PROTO_UDP :: u8 where "DOCA_FLOW_PROTO_UDP = 17"
definition DOCA_FLOW_PROTO_GRE :: u8 where "DOCA_FLOW_PROTO_GRE = 47"
definition IPPROTO_ICMP :: u8 where "IPPROTO_ICMP = 1"
definition DOCA_FLOW_VXLAN_DEFAULT_PORT :: u16 where "DOCA_FLOW_VXLAN_DEFAULT_PORT = 4789"
definition DOCA_FLOW_GTPU_DEFAULT_PORT :: u16 where "DOCA_FLOW_GTPU_DEFAULT_PORT = 2152"

record simple_fwd_pkt_format =
  fmt_l2 :: "nat option"
  fmt_l3 :: "nat option"
  fmt_l4 :: "nat option"
  fmt_l3_type :: u8
  fmt_l4_type :: u8
  fmt_l7 :: "nat option"

text \<open>
  The union of the tunnel format is its eight bytes: the VNI is bytes 0 to 3, the GRE key too and its
  protocol bytes 4 and 5; the GTP message type is byte 0, the flags byte 1 and the TEID bytes 4 to 7.
\<close>

record simple_fwd_pkt_tun_format =
  tf_l2 :: bool
  tf_store :: "u8 list"

record simple_fwd_pkt_info =
  orig_port_id :: u16
  rss_hash :: u32
  pi_outer :: simple_fwd_pkt_format
  pi_tun_type :: doca_flow_tun_type
  pi_tun :: simple_fwd_pkt_tun_format
  pi_inner :: simple_fwd_pkt_format
  pi_len :: int

definition zero_fmt :: simple_fwd_pkt_format where
  "zero_fmt = \<lparr>fmt_l2 = None, fmt_l3 = None, fmt_l4 = None, fmt_l3_type = 0, fmt_l4_type = 0, fmt_l7 = None\<rparr>"

definition zero_pinfo :: simple_fwd_pkt_info where
  "zero_pinfo = \<lparr>orig_port_id = 0, rss_hash = 0, pi_outer = zero_fmt, pi_tun_type = DOCA_FLOW_TUN_NONE,
     pi_tun = \<lparr>tf_l2 = False, tf_store = replicate 8 0\<rparr>, pi_inner = zero_fmt, pi_len = 0\<rparr>"

text \<open>Reads: a byte, and 16 and 32 bit words as the little-endian machine sees them.\<close>

definition at8 :: "u8 list \<Rightarrow> nat \<Rightarrow> u8 option" where
  "at8 data i = (if i < length data then Some (data ! i) else None)"

definition at16 :: "u8 list \<Rightarrow> nat \<Rightarrow> u16 option" where
  "at16 data i = do { a \<leftarrow> at8 data i; b \<leftarrow> at8 data (i + 1); Some (ucast a OR push_bit 8 (ucast b)) }"

definition at32 :: "u8 list \<Rightarrow> nat \<Rightarrow> u32 option" where
  "at32 data i =
     do { a \<leftarrow> at8 data i; b \<leftarrow> at8 data (i + 1); c \<leftarrow> at8 data (i + 2); d \<leftarrow> at8 data (i + 3);
          Some (ucast a OR push_bit 8 (ucast b) OR push_bit 16 (ucast c) OR push_bit 24 (ucast d)) }"

definition store_bytes :: "nat \<Rightarrow> u8 list \<Rightarrow> simple_fwd_pkt_tun_format \<Rightarrow> simple_fwd_pkt_tun_format" where
  "store_bytes i bs t = t\<lparr>tf_store := take i (tf_store t) @ bs @ drop (i + length bs) (tf_store t)\<rparr>"

definition tun_vni :: "simple_fwd_pkt_tun_format \<Rightarrow> u32 option" where
  "tun_vni t = at32 (tf_store t) 0"

section \<open>Parsing one packet format\<close>

text \<open>
  \<open>base\<close> is where the format starts in the packet. The result is whether it was accepted, with the format as
  far as it was filled.
\<close>

definition parse_l4 :: "u8 list \<Rightarrow> nat \<Rightarrow> int \<Rightarrow> nat \<Rightarrow> u8 \<Rightarrow> simple_fwd_pkt_format \<Rightarrow> (bool \<times> simple_fwd_pkt_format) option" where
  "parse_l4 data base len l4_off next_proto_id fmt =
     (if next_proto_id = DOCA_FLOW_PROTO_TCP then
        do { data_off \<leftarrow> at8 data (base + l4_off + 12);
             let l7_off = l4_off + unat (drop_bit 2 (data_off AND 0xf0));
             if int l7_off > len then Some (False, fmt)
             else Some (True, fmt\<lparr>fmt_l4_type := DOCA_FLOW_PROTO_TCP, fmt_l7 := Some (base + l7_off)\<rparr>) }
      else if next_proto_id = DOCA_FLOW_PROTO_UDP then
        let l7_off = l4_off + 8; fmt = fmt\<lparr>fmt_l4_type := DOCA_FLOW_PROTO_UDP\<rparr> in
        if int l7_off > len then Some (False, fmt)
        else Some (True, fmt\<lparr>fmt_l7 := Some (base + l7_off)\<rparr>)
      else if next_proto_id = DOCA_FLOW_PROTO_GRE then Some (True, fmt\<lparr>fmt_l4_type := DOCA_FLOW_PROTO_GRE\<rparr>)
      else if next_proto_id = IPPROTO_ICMP then Some (True, fmt\<lparr>fmt_l4_type := IPPROTO_ICMP\<rparr>)
      else Some (False, fmt))"

definition parse_l3 :: "u8 list \<Rightarrow> nat \<Rightarrow> int \<Rightarrow> nat \<Rightarrow> simple_fwd_pkt_format \<Rightarrow> (bool \<times> simple_fwd_pkt_format) option" where
  "parse_l3 data base len l3_off fmt =
     do { version_ihl \<leftarrow> at8 data (base + l3_off);
          if drop_bit 4 version_ihl \<noteq> 4 then Some (False, fmt)
          else do { src_addr \<leftarrow> at32 data (base + l3_off + 12);
                    if src_addr = 0 then Some (False, fmt)
                    else do { dst_addr \<leftarrow> at32 data (base + l3_off + 16);
                              if dst_addr = 0 then Some (False, fmt)
                              else do { let l4_off = l3_off + unat (version_ihl AND 0x0F) * 4;
                                        next_proto_id \<leftarrow> at8 data (base + l3_off + 9);
                                        parse_l4 data base len l4_off next_proto_id
                                          (fmt\<lparr>fmt_l3 := Some (base + l3_off), fmt_l3_type := IPV4,
                                               fmt_l4 := Some (base + l4_off)\<rparr>) } } } }"

definition simple_fwd_parse_pkt_format ::
    "u8 list \<Rightarrow> nat \<Rightarrow> int \<Rightarrow> bool \<Rightarrow> simple_fwd_pkt_format \<Rightarrow> (bool \<times> simple_fwd_pkt_format) option" where
  "simple_fwd_parse_pkt_format data base len l2 fmt =
     (let fmt = fmt\<lparr>fmt_l2 := Some base\<rparr> in
      if l2 then
        do { ether_type \<leftarrow> at16 data (base + 12);
             if be16 ether_type = 0x0800 then parse_l3 data base len 14 fmt
             else if be16 ether_type = 0x86DD then Some (False, fmt\<lparr>fmt_l3_type := IPV6\<rparr>)
             else Some (False, fmt) }
      else parse_l3 data base len 0 fmt)"

section \<open>Tunnels\<close>

text \<open>The offset behind the tunnel header, or nothing for a negative value.\<close>

definition simple_fwd_parse_is_tun ::
    "u8 list \<Rightarrow> simple_fwd_pkt_info \<Rightarrow> (nat option \<times> simple_fwd_pkt_info) option" where
  "simple_fwd_parse_is_tun data pinfo =
     (if fmt_l3_type (pi_outer pinfo) \<noteq> IPV4 then Some (Some 0, pinfo)
      else if fmt_l4_type (pi_outer pinfo) = DOCA_FLOW_PROTO_GRE then
        do { l4 \<leftarrow> fmt_l4 (pi_outer pinfo);
             h \<leftarrow> at8 data l4;
             if bit h 7 then Some (None, pinfo)
             else do { (k_off, tun) \<leftarrow>
                         (if bit h 5
                          then do { a \<leftarrow> at8 data (l4 + 4); b \<leftarrow> at8 data (l4 + 5); c \<leftarrow> at8 data (l4 + 6); d \<leftarrow> at8 data (l4 + 7);
                                    Some (4, (store_bytes 0 [a, b, c, d] (pi_tun pinfo))\<lparr>tf_l2 := True\<rparr>) }
                          else Some (0, pi_tun pinfo));
                       p0 \<leftarrow> at8 data (l4 + 2); p1 \<leftarrow> at8 data (l4 + 3);
                       Some (Some (4 + k_off + (if bit h 4 then 4 else 0)),
                         pinfo\<lparr>pi_tun_type := DOCA_FLOW_TUN_GRE, pi_tun := store_bytes 4 [p0, p1] tun\<rparr>) } }
      else if fmt_l4_type (pi_outer pinfo) = DOCA_FLOW_PROTO_UDP then
        do { l4 \<leftarrow> fmt_l4 (pi_outer pinfo);
             dst_port \<leftarrow> at16 data (l4 + 2);
             let u = l4 + 8;
             if be16 dst_port = DOCA_FLOW_VXLAN_DEFAULT_PORT then
               do { vx_flags \<leftarrow> at8 data u;
                    if vx_flags AND 0x08 \<noteq> 0
                    then do { a \<leftarrow> at8 data (u + 4); b \<leftarrow> at8 data (u + 5); c \<leftarrow> at8 data (u + 6); d \<leftarrow> at8 data (u + 7);
                              Some (Some 16, pinfo\<lparr>pi_tun_type := DOCA_FLOW_TUN_VXLAN,
                                pi_tun := (store_bytes 0 [a, b, c, d] (pi_tun pinfo))\<lparr>tf_l2 := True\<rparr>\<rparr>) }
                    else Some (Some 16, pinfo) }
             else if be16 dst_port = DOCA_FLOW_GTPU_DEFAULT_PORT then
               do { info \<leftarrow> at8 data u; msg_type \<leftarrow> at8 data (u + 1);
                    a \<leftarrow> at8 data (u + 4); b \<leftarrow> at8 data (u + 5); c \<leftarrow> at8 data (u + 6); d \<leftarrow> at8 data (u + 7);
                    Some (Some (16 + (if info AND 0x7 \<noteq> 0 then 4 else 0)), pinfo\<lparr>pi_tun_type := DOCA_FLOW_TUN_GTPU,
                      pi_tun := (store_bytes 0 [msg_type, info] (store_bytes 4 [a, b, c, d] (pi_tun pinfo)))\<lparr>tf_l2 := False\<rparr>\<rparr>) }
             else Some (Some 0, pinfo) }
      else Some (Some 0, pinfo))"

definition simple_fwd_parse_packet :: "u8 list \<Rightarrow> int \<Rightarrow> simple_fwd_pkt_info \<Rightarrow> (bool \<times> simple_fwd_pkt_info) option" where
  "simple_fwd_parse_packet data len pinfo =
     do { (ok, outer_fmt) \<leftarrow> simple_fwd_parse_pkt_format data 0 len True (pi_outer pinfo);
          let pinfo = pinfo\<lparr>pi_len := len, pi_outer := outer_fmt\<rparr>;
          if \<not> ok then Some (False, pinfo)
          else do { (off, pinfo) \<leftarrow> simple_fwd_parse_is_tun data pinfo;
                    case off of
                      None \<Rightarrow> Some (True, pinfo)
                    | Some off \<Rightarrow>
                        if pi_tun_type pinfo \<notin> {DOCA_FLOW_TUN_GRE, DOCA_FLOW_TUN_VXLAN, DOCA_FLOW_TUN_GTPU} then Some (True, pinfo)
                        else do { l4 \<leftarrow> fmt_l4 (pi_outer pinfo);
                                  (ok, inner_fmt) \<leftarrow> simple_fwd_parse_pkt_format data (l4 + off) (len - int (l4 + off))
                                    (pi_tun_type pinfo \<noteq> DOCA_FLOW_TUN_GRE \<and> tf_l2 (pi_tun pinfo)) (pi_inner pinfo);
                                  Some (ok, pinfo\<lparr>pi_inner := inner_fmt\<rparr>) } } }"

definition simple_fwd_pinfo_decap :: "simple_fwd_pkt_info \<Rightarrow> simple_fwd_pkt_info" where
  "simple_fwd_pinfo_decap pinfo =
     (if pi_tun_type pinfo = DOCA_FLOW_TUN_VXLAN
      then pinfo\<lparr>pi_outer := (pi_outer pinfo)\<lparr>fmt_l2 := fmt_l2 (pi_inner pinfo), fmt_l3 := fmt_l3 (pi_inner pinfo),
                    fmt_l4 := fmt_l4 (pi_inner pinfo), fmt_l7 := fmt_l7 (pi_inner pinfo)\<rparr>,
                 pi_tun_type := DOCA_FLOW_TUN_NONE\<rparr>
      else pinfo)"

section \<open>Fields of a parsed packet\<close>

definition simple_fwd_pinfo_ipv4_src :: "u8 list \<Rightarrow> simple_fwd_pkt_format \<Rightarrow> u32 option" where
  "simple_fwd_pinfo_ipv4_src data fmt = do { l3 \<leftarrow> fmt_l3 fmt; at32 data (l3 + 12) }"

definition simple_fwd_pinfo_ipv4_dst :: "u8 list \<Rightarrow> simple_fwd_pkt_format \<Rightarrow> u32 option" where
  "simple_fwd_pinfo_ipv4_dst data fmt = do { l3 \<leftarrow> fmt_l3 fmt; at32 data (l3 + 16) }"

definition simple_fwd_pinfo_src_port :: "u8 list \<Rightarrow> simple_fwd_pkt_format \<Rightarrow> u16 option" where
  "simple_fwd_pinfo_src_port data fmt =
     (if fmt_l4_type fmt = DOCA_FLOW_PROTO_TCP \<or> fmt_l4_type fmt = DOCA_FLOW_PROTO_UDP
      then do { l4 \<leftarrow> fmt_l4 fmt; at16 data l4 } else Some 0)"

definition simple_fwd_pinfo_dst_port :: "u8 list \<Rightarrow> simple_fwd_pkt_format \<Rightarrow> u16 option" where
  "simple_fwd_pinfo_dst_port data fmt =
     (if fmt_l4_type fmt = DOCA_FLOW_PROTO_TCP \<or> fmt_l4_type fmt = DOCA_FLOW_PROTO_UDP
      then do { l4 \<leftarrow> fmt_l4 fmt; at16 data (l4 + 2) } else Some 0)"

record simple_fwd_ft_key =
  ipv4_1 :: u32
  ipv4_2 :: u32
  port_1 :: u16
  port_2 :: u16
  key_vni :: u32
  protocol :: u8
  key_tun_type :: doca_flow_tun_type
  port_id :: u16
  key_rss_hash :: u32

end
