(* ===== verification/Fwd_Ft.thy ===== *)
theory Fwd_Ft
  imports Fwd_Pkt "HOL-Library.Multiset" "HOL-Library.Log_Nat"
begin

text \<open>
  The flow table of the forwarding application (\<^verbatim>\<open>simple_fwd_vnf/simple_fwd_ft.c\<close>): hash buckets with
  lists of entries, the key of a parsed packet, insertion, search, removal and aging. An entry is identified
  by its address; the locks are held by one caller at a time.
\<close>

section \<open>The key of a packet\<close>

definition zero_key :: simple_fwd_ft_key where
  "zero_key = \<lparr>ipv4_1 = 0, ipv4_2 = 0, port_1 = 0, port_2 = 0, key_vni = 0, protocol = 0,
     key_tun_type = DOCA_FLOW_TUN_NONE, port_id = 0, key_rss_hash = 0\<rparr>"

definition simple_fwd_ft_key_fill ::
    "u8 list \<Rightarrow> simple_fwd_pkt_info \<Rightarrow> simple_fwd_ft_key \<Rightarrow> (bool \<times> simple_fwd_ft_key) option" where
  "simple_fwd_ft_key_fill data pinfo key =
     (let inner_used = pi_tun_type pinfo \<noteq> DOCA_FLOW_TUN_NONE;
          fmt = (if inner_used then pi_inner pinfo else pi_outer pinfo)
      in if fmt_l3_type (pi_outer pinfo) \<noteq> IPV4 then Some (False, key)
         else do { src \<leftarrow> simple_fwd_pinfo_ipv4_src data fmt; dst \<leftarrow> simple_fwd_pinfo_ipv4_dst data fmt;
                   sport \<leftarrow> simple_fwd_pinfo_src_port data fmt; dport \<leftarrow> simple_fwd_pinfo_dst_port data fmt;
                   let key = key\<lparr>key_rss_hash := rss_hash pinfo, protocol := fmt_l4_type fmt, ipv4_1 := src, ipv4_2 := dst,
                                 port_1 := sport, port_2 := dport, port_id := orig_port_id pinfo\<rparr>;
                   if inner_used
                   then do { vni \<leftarrow> tun_vni (pi_tun pinfo);
                             Some (True, key\<lparr>key_tun_type := pi_tun_type pinfo, key_vni := vni\<rparr>) }
                   else Some (True, key) })"

text \<open>The first 24 of the 28 bytes of a key are compared: all but the hash value.\<close>

definition simple_fwd_ft_key_equal :: "simple_fwd_ft_key \<Rightarrow> simple_fwd_ft_key \<Rightarrow> bool" where
  "simple_fwd_ft_key_equal k1 k2 \<longleftrightarrow> ipv4_1 k1 = ipv4_1 k2 \<and> ipv4_2 k1 = ipv4_2 k2
     \<and> port_1 k1 = port_1 k2 \<and> port_2 k1 = port_2 k2 \<and> key_vni k1 = key_vni k2
     \<and> protocol k1 = protocol k2 \<and> key_tun_type k1 = key_tun_type k2 \<and> port_id k1 = port_id k2"

section \<open>The table\<close>

record simple_fwd_ft_entry =
  ent_addr :: nat
  ent_key :: simple_fwd_ft_key
  expiration :: u64
  age_sec :: u32
  last_counter :: u64
  buckets_index :: u16
  fid :: u32

record simple_fwd_ft =
  ft_size :: u32
  ft_mask :: u32
  stats_add :: u64
  stats_rm :: u64
  has_age_thread :: bool
  stop_aging_thread :: bool
  fid_ctr :: u32
  buckets :: "simple_fwd_ft_entry list list"
  next_addr :: nat
  aged :: "u32 list"

text \<open>
  The functions of DPDK that round the number of flows are parameters; the second one gives the next power
  of two.
\<close>

record pow2_api =
  rte_is_power_of_2 :: "u32 \<Rightarrow> bool"
  rte_align32pow2 :: "u32 \<Rightarrow> u32"

definition pow2_laws :: "pow2_api \<Rightarrow> bool" where
  "pow2_laws api \<longleftrightarrow> (\<forall>n. n \<noteq> 0 \<and> unat n \<le> 2 ^ 31 \<longrightarrow>
     (\<exists>k. unat (rte_align32pow2 api n) = 2 ^ k \<and> unat n \<le> 2 ^ k \<and> 2 ^ k < 2 * unat n))"

text \<open>
  The table structure has 80 bytes and a bucket 16. The buckets that fit the allocated size can be used, and
  initialising the lock of another one is undefined; \<open>nb_flows\<close> is the bits of an \<^verbatim>\<open>int\<close>. The inner \<open>None\<close> is
  the null pointer.
\<close>

definition simple_fwd_ft_create :: "pow2_api \<Rightarrow> u32 \<Rightarrow> bool \<Rightarrow> bool \<Rightarrow> bool \<Rightarrow> simple_fwd_ft option option" where
  "simple_fwd_ft_create api nb_flows age_thread calloc_ok thread_ok =
     (if sint nb_flows \<le> 0 then Some None
      else let nb_flows_aligned = push_bit 1 (if rte_is_power_of_2 api nb_flows then nb_flows else rte_align32pow2 api nb_flows);
               alloc_size = 80 + 16 * nb_flows_aligned;
               nb_buckets = (unat alloc_size - 80) div 16
           in if \<not> calloc_ok then Some None
              else if unat nb_flows_aligned > nb_buckets then None
              else if age_thread \<and> \<not> thread_ok then Some None
              else Some (Some \<lparr>ft_size = nb_flows_aligned, ft_mask = nb_flows_aligned - 1, stats_add = 0, stats_rm = 0,
                has_age_thread = age_thread, stop_aging_thread = False,
                fid_ctr = 0, buckets = replicate nb_buckets [], next_addr = 1, aged = []\<rparr>))"

definition simple_fwd_ft_update_age_sec :: "u32 \<Rightarrow> simple_fwd_ft_entry \<Rightarrow> simple_fwd_ft_entry" where
  "simple_fwd_ft_update_age_sec s e = e\<lparr>age_sec := s\<rparr>"

text \<open>The time stamp counter and its frequency are arguments.\<close>

definition simple_fwd_ft_update_expiration :: "u64 \<Rightarrow> u64 \<Rightarrow> simple_fwd_ft_entry \<Rightarrow> simple_fwd_ft_entry" where
  "simple_fwd_ft_update_expiration now hz e = (if age_sec e \<noteq> 0 then e\<lparr>expiration := now + hz * ucast (age_sec e)\<rparr> else e)"

text \<open>The loop over a bucket: the entry that was found and the bucket with its new expiration.\<close>

fun find_in_bucket ::
    "u64 \<Rightarrow> u64 \<Rightarrow> simple_fwd_ft_key \<Rightarrow> simple_fwd_ft_entry list \<Rightarrow> simple_fwd_ft_entry option \<times> simple_fwd_ft_entry list" where
  "find_in_bucket now hz key [] = (None, [])"
| "find_in_bucket now hz key (e # es) =
     (if simple_fwd_ft_key_equal (ent_key e) key
      then let e = simple_fwd_ft_update_expiration now hz e in (Some e, e # es)
      else let (r, es) = find_in_bucket now hz key es in (r, e # es))"

definition simple_fwd_ft_find_key ::
    "u64 \<Rightarrow> u64 \<Rightarrow> simple_fwd_ft_key \<Rightarrow> simple_fwd_ft \<Rightarrow> (simple_fwd_ft_entry option \<times> simple_fwd_ft) option" where
  "simple_fwd_ft_find_key now hz key ft =
     (let idx = unat (key_rss_hash key AND ft_mask ft) in
      if idx < length (buckets ft)
      then let (r, b) = find_in_bucket now hz key (buckets ft ! idx) in Some (r, ft\<lparr>buckets := (buckets ft)[idx := b]\<rparr>)
      else None)"

text \<open>The context handed out is the entry of an address, seen through its flow id.\<close>

definition simple_fwd_ft_find ::
    "u64 \<Rightarrow> u64 \<Rightarrow> u8 list \<Rightarrow> simple_fwd_pkt_info \<Rightarrow> simple_fwd_ft \<Rightarrow> ((doca_error + nat) \<times> simple_fwd_ft) option" where
  "simple_fwd_ft_find now hz data pinfo ft =
     do { (ok, key) \<leftarrow> simple_fwd_ft_key_fill data pinfo zero_key;
          if \<not> ok then Some (Inl DOCA_ERROR_UNEXPECTED, ft)
          else do { (r, ft) \<leftarrow> simple_fwd_ft_find_key now hz key ft;
                    case r of None \<Rightarrow> Some (Inl DOCA_ERROR_NOT_FOUND, ft)
                            | Some e \<Rightarrow> Some (Inr (ent_addr e), ft) } }"

definition simple_fwd_ft_add_new ::
    "bool \<Rightarrow> u8 list \<Rightarrow> simple_fwd_pkt_info \<Rightarrow> simple_fwd_ft \<Rightarrow> ((doca_error + nat) \<times> simple_fwd_ft) option" where
  "simple_fwd_ft_add_new calloc_ok data pinfo ft =
     do { (ok, key) \<leftarrow> simple_fwd_ft_key_fill data pinfo zero_key;
          if \<not> ok then Some (Inl DOCA_ERROR_UNEXPECTED, ft)
          else if \<not> calloc_ok then Some (Inl DOCA_ERROR_NO_MEMORY, ft)
          else let idx = unat (rss_hash pinfo AND ft_mask ft);
                   new_e = \<lparr>ent_addr = next_addr ft, ent_key = key, expiration = 0, age_sec = 0, last_counter = 0,
                            buckets_index = of_nat idx, fid = fid_ctr ft\<rparr>
               in if idx < length (buckets ft)
                  then Some (Inr (next_addr ft),
                    ft\<lparr>fid_ctr := fid_ctr ft + 1, next_addr := Suc (next_addr ft), stats_add := stats_add ft + 1,
                       buckets := (buckets ft)[idx := new_e # buckets ft ! idx]\<rparr>)
                  else None }"

text \<open>\<^verbatim>\<open>LIST_REMOVE\<close> unlinks the entry from whatever list it is in; the callback sees its context.\<close>

definition ft_destroy_entry :: "nat \<Rightarrow> simple_fwd_ft \<Rightarrow> simple_fwd_ft option" where
  "ft_destroy_entry a ft =
     (case filter (\<lambda>e. ent_addr e = a) (concat (buckets ft)) of
        [] \<Rightarrow> None
      | e # _ \<Rightarrow> Some (ft\<lparr>buckets := map (filter (\<lambda>e. ent_addr e \<noteq> a)) (buckets ft), aged := aged ft @ [fid e],
                            stats_rm := stats_rm ft + 1\<rparr>))"

text \<open>The lock is the one of the bucket whose index the entry has kept in 16 bits.\<close>

definition simple_fwd_ft_destroy_entry :: "nat \<Rightarrow> simple_fwd_ft \<Rightarrow> simple_fwd_ft option" where
  "simple_fwd_ft_destroy_entry a ft =
     (case filter (\<lambda>e. ent_addr e = a) (concat (buckets ft)) of
        [] \<Rightarrow> None
      | e # _ \<Rightarrow> if unat (buckets_index e) < length (buckets ft) then ft_destroy_entry a ft else None)"

text \<open>Destroying the table: the two loops, and the table as the last callback leaves it.\<close>

fun destroy_nodes :: "nat list \<Rightarrow> simple_fwd_ft \<Rightarrow> simple_fwd_ft option" where
  "destroy_nodes [] ft = Some ft"
| "destroy_nodes (a # as) ft = do { ft \<leftarrow> ft_destroy_entry a ft; destroy_nodes as ft }"

fun destroy_buckets :: "nat list \<Rightarrow> simple_fwd_ft \<Rightarrow> simple_fwd_ft option" where
  "destroy_buckets [] ft = Some ft"
| "destroy_buckets (i # is) ft =
     (if i < length (buckets ft)
      then do { ft \<leftarrow> destroy_nodes (map ent_addr (buckets ft ! i)) ft; destroy_buckets is ft }
      else None)"

definition simple_fwd_ft_destroy :: "simple_fwd_ft option \<Rightarrow> (doca_error \<times> simple_fwd_ft option) option" where
  "simple_fwd_ft_destroy ft_ptr =
     (case ft_ptr of
        None \<Rightarrow> Some (DOCA_ERROR_INVALID_VALUE, None)
      | Some ft \<Rightarrow>
          do { let ft = (if has_age_thread ft then ft\<lparr>stop_aging_thread := True\<rparr> else ft);
               ft \<leftarrow> destroy_buckets [0..<unat (ft_size ft)] ft;
               Some (DOCA_SUCCESS, Some ft) })"

text \<open>\<open>counter e\<close> is what the query of the hardware entry gives: the packets, or nothing when it fails.\<close>

definition simple_fwd_ft_update_counter :: "(nat \<Rightarrow> u64 option) \<Rightarrow> simple_fwd_ft_entry \<Rightarrow> bool \<times> simple_fwd_ft_entry" where
  "simple_fwd_ft_update_counter counter e =
     (case counter (ent_addr e) of
        None \<Rightarrow> (False, e)
      | Some total_pkts \<Rightarrow> (total_pkts - last_counter e \<noteq> 0, e\<lparr>last_counter := total_pkts\<rparr>))"

text \<open>The scan of a bucket up to the first entry to remove, with the counters it has updated.\<close>

fun scan_bucket ::
    "u64 \<Rightarrow> (nat \<Rightarrow> u64 option) \<Rightarrow> simple_fwd_ft_entry list \<Rightarrow> nat option \<times> simple_fwd_ft_entry list" where
  "scan_bucket t counter [] = (None, [])"
| "scan_bucket t counter (e # es) =
     (if age_sec e \<noteq> 0 \<and> expiration e < t
      then let (update, e) = simple_fwd_ft_update_counter counter e
           in if \<not> update then (Some (ent_addr e), e # es)
              else let (r, es) = scan_bucket t counter es in (r, e # es)
      else let (r, es) = scan_bucket t counter es in (r, e # es))"

definition simple_fwd_ft_aging_ft_entry ::
    "u64 \<Rightarrow> (nat \<Rightarrow> u64 option) \<Rightarrow> bool \<Rightarrow> nat \<Rightarrow> simple_fwd_ft \<Rightarrow> (bool \<times> simple_fwd_ft) option" where
  "simple_fwd_ft_aging_ft_entry t counter trylock i ft =
     (if \<not> i < length (buckets ft) then None
      else if \<not> trylock then Some (False, ft)
      else let (r, b) = scan_bucket t counter (buckets ft ! i); ft = ft\<lparr>buckets := (buckets ft)[i := b]\<rparr>
           in case r of None \<Rightarrow> Some (False, ft)
                      | Some a \<Rightarrow> do { ft \<leftarrow> ft_destroy_entry a ft; Some (True, ft) })"

text \<open>What a session does to a table; the ages are set by the caller.\<close>

inductive ft_session :: "pow2_api \<Rightarrow> simple_fwd_ft \<Rightarrow> bool" for api where
  created: "simple_fwd_ft_create api nb_flows ag c th = Some (Some ft) \<Longrightarrow> unat nb_flows \<le> 2 ^ 26 \<Longrightarrow> ft_session api ft"
| added: "ft_session api ft \<Longrightarrow> simple_fwd_ft_add_new c data pinfo ft = Some (r, ft') \<Longrightarrow> ft_session api ft'"
| found: "ft_session api ft \<Longrightarrow> simple_fwd_ft_find now hz data pinfo ft = Some (r, ft') \<Longrightarrow> ft_session api ft'"
| age_set: "ft_session api ft \<Longrightarrow> ft_session api (ft\<lparr>buckets :=
      map (map (\<lambda>e. if ent_addr e = a then simple_fwd_ft_update_age_sec s e else e)) (buckets ft)\<rparr>)"
| destroyed: "ft_session api ft \<Longrightarrow> simple_fwd_ft_destroy_entry a ft = Some ft' \<Longrightarrow> ft_session api ft'"
| aging: "ft_session api ft \<Longrightarrow> simple_fwd_ft_aging_ft_entry t counter l i ft = Some (b, ft') \<Longrightarrow> ft_session api ft'"

section \<open>The invariant\<close>

text \<open>The addresses and keys of a bucket and of the table.\<close>

definition bview :: "simple_fwd_ft_entry list \<Rightarrow> (nat \<times> simple_fwd_ft_key) list" where
  "bview = map (\<lambda>e. (ent_addr e, ent_key e))"

definition ft_view :: "simple_fwd_ft \<Rightarrow> (nat \<times> simple_fwd_ft_key) list list" where
  "ft_view ft = map bview (buckets ft)"

text \<open>
  There is a bucket for every value of the mask, an entry is in the bucket of its hash value, addresses are
  distinct, and the statistics give the number of entries.
\<close>

definition view_inv :: "(nat \<times> simple_fwd_ft_key) list list \<Rightarrow> u32 \<Rightarrow> u32 \<Rightarrow> nat \<Rightarrow> u64 \<Rightarrow> bool" where
  "view_inv vs sz msk nxt n \<longleftrightarrow> length vs = unat sz \<and> sz \<noteq> 0 \<and> msk = sz - 1
     \<and> (\<forall>i < length vs. \<forall>p \<in> set (vs ! i). unat (key_rss_hash (snd p) AND msk) = i)
     \<and> distinct (map fst (concat vs)) \<and> (\<forall>p \<in> set (concat vs). fst p < nxt)
     \<and> of_nat (length (concat vs)) = n"

definition ft_inv :: "simple_fwd_ft \<Rightarrow> bool" where
  "ft_inv ft \<longleftrightarrow> view_inv (ft_view ft) (ft_size ft) (ft_mask ft) (next_addr ft) (stats_add ft - stats_rm ft)"

lemma index_in_range:
  assumes "ft_inv ft"
  shows "unat (h AND ft_mask ft) < length (buckets ft)"
proof -
  have m: "ft_mask ft = ft_size ft - 1" "ft_size ft \<noteq> 0" "length (buckets ft) = unat (ft_size ft)"
    using assms by (auto simp: ft_inv_def view_inv_def ft_view_def)
  have "h AND ft_mask ft \<le> ft_mask ft" by (rule word_and_le1)
  then have "unat (h AND ft_mask ft) \<le> unat (ft_mask ft)" by (simp add: word_le_nat_alt)
  moreover have "0 < unat (ft_size ft)" using m(2) by (simp add: unat_gt_0)
  then have "unat (ft_mask ft) < unat (ft_size ft)" using m by (simp add: unat_minus_one)
  ultimately show ?thesis using m by simp
qed

lemma mset_concat_update_Cons:
  "i < length xs \<Longrightarrow> mset (concat (xs[i := x # xs ! i])) = add_mset x (mset (concat xs))"
  by (induction xs arbitrary: i) (auto split: nat.split)

lemma length_filter_one:
  "distinct (map fst xs) \<Longrightarrow> \<exists>p \<in> set xs. fst p = a \<Longrightarrow> Suc (length (filter (\<lambda>p. fst p \<noteq> a) xs)) = length xs"
proof (induction xs)
  case (Cons x xs)
  show ?case
  proof (cases "fst x = a")
    case True
    then have "a \<notin> fst ` set xs" using Cons.prems(1) by simp
    then have "\<forall>p \<in> set xs. fst p \<noteq> a" by blast
    then have "filter (\<lambda>p. fst p \<noteq> a) xs = xs" by simp
    then show ?thesis using True by simp
  next
    case False
    then show ?thesis using Cons by auto
  qed
qed simp

lemma view_inv_insert:
  assumes "view_inv vs sz msk nxt n" and "unat (key_rss_hash k AND msk) = i" and "i < length vs"
  shows "view_inv (vs[i := (nxt, k) # vs ! i]) sz msk (Suc nxt) (n + 1)"
proof -
  let ?vs = "vs[i := (nxt, k) # vs ! i]"
  have m: "mset (concat ?vs) = mset ((nxt, k) # concat vs)"
    using mset_concat_update_Cons [OF assms(3)] by simp
  have "distinct (map fst (concat ?vs)) \<longleftrightarrow> distinct (map fst ((nxt, k) # concat vs))"
    by (rule mset_eq_imp_distinct_iff) (simp only: mset_map m)
  moreover have "set (concat ?vs) = set ((nxt, k) # concat vs)" using mset_eq_setD [OF m] .
  moreover have "length (concat ?vs) = length ((nxt, k) # concat vs)" using mset_eq_length [OF m] .
  moreover have "\<forall>j < length ?vs. \<forall>p \<in> set (?vs ! j). unat (key_rss_hash (snd p) AND msk) = j"
    using assms by (auto simp: view_inv_def nth_list_update)
  ultimately show ?thesis
    using assms(1) unfolding view_inv_def by (auto simp: less_Suc_eq simp del: set_concat length_concat)
qed

lemma view_inv_remove:
  assumes "view_inv vs sz msk nxt n" and "\<exists>p \<in> set (concat vs). fst p = a"
  shows "view_inv (map (filter (\<lambda>p. fst p \<noteq> a)) vs) sz msk nxt (n - 1)"
proof -
  have f: "concat (map (filter (\<lambda>p. fst p \<noteq> a)) vs) = filter (\<lambda>p. fst p \<noteq> a) (concat vs)"
    by (simp add: filter_concat)
  have "Suc (length (filter (\<lambda>p. fst p \<noteq> a) (concat vs))) = length (concat vs)"
    using assms by (intro length_filter_one) (auto simp: view_inv_def)
  then have "of_nat (length (filter (\<lambda>p. fst p \<noteq> a) (concat vs))) = n - 1"
    using assms(1) unfolding view_inv_def by (metis add_diff_cancel_left' of_nat_Suc)
  moreover have "\<forall>i < length (map (filter (\<lambda>p. fst p \<noteq> a)) vs). \<forall>p \<in> set (map (filter (\<lambda>p. fst p \<noteq> a)) vs ! i).
      unat (key_rss_hash (snd p) AND msk) = i"
  proof (intro allI impI ballI)
    fix i p
    assume "i < length (map (filter (\<lambda>p. fst p \<noteq> a)) vs)" "p \<in> set (map (filter (\<lambda>p. fst p \<noteq> a)) vs ! i)"
    then have "i < length vs" "p \<in> set (vs ! i)" by simp_all
    then show "unat (key_rss_hash (snd p) AND msk) = i" using assms(1) unfolding view_inv_def by blast
  qed
  ultimately show ?thesis
    using assms(1) unfolding view_inv_def f by (simp add: distinct_map_filter del: set_concat)
qed

lemma bview_find: "bview (snd (find_in_bucket now hz key b)) = bview b"
  by (induction b) (auto simp: bview_def simple_fwd_ft_update_expiration_def Let_def split_beta)

lemma bview_scan: "bview (snd (scan_bucket t counter b)) = bview b"
  by (induction b) (auto simp: bview_def simple_fwd_ft_update_counter_def Let_def split_beta split: option.split)

lemma scan_addr: "fst (scan_bucket t counter b) = Some a \<Longrightarrow> a \<in> fst ` set (bview b)"
  by (induction b) (auto simp: bview_def simple_fwd_ft_update_counter_def Let_def split_beta
      split: option.split_asm if_split_asm)

lemma ft_view_update: "bview b = bview (buckets ft ! i) \<Longrightarrow> ft_view (ft\<lparr>buckets := (buckets ft)[i := b]\<rparr>) = ft_view ft"
  by (cases "i < length (buckets ft)") (simp_all add: ft_view_def map_update list_update_same_conv list_update_beyond)

text \<open>Operations that only touch times and counters keep the invariant.\<close>

lemma ft_inv_same:
  "ft_inv ft \<Longrightarrow> ft_view ft' = ft_view ft \<Longrightarrow> ft_size ft' = ft_size ft \<Longrightarrow> ft_mask ft' = ft_mask ft
   \<Longrightarrow> next_addr ft' = next_addr ft \<Longrightarrow> stats_add ft' = stats_add ft \<Longrightarrow> stats_rm ft' = stats_rm ft \<Longrightarrow> ft_inv ft'"
  by (simp add: ft_inv_def)

lemma ft_inv_find:
  assumes "ft_inv ft" and "simple_fwd_ft_find now hz data pinfo ft = Some (r, ft')"
  shows "ft_inv ft'"
proof -
  have "ft' = ft \<or> (\<exists>key i. ft' = ft\<lparr>buckets := (buckets ft)[i := snd (find_in_bucket now hz key (buckets ft ! i))]\<rparr>)"
    using assms(2)
    by (auto simp: simple_fwd_ft_find_def simple_fwd_ft_find_key_def bind_eq_Some_conv Let_def split_beta
        split: if_split_asm option.split_asm)
  then show ?thesis
    using assms(1) by (auto intro!: ft_inv_same [OF assms(1)] ft_view_update bview_find)
qed

definition new_entry :: "simple_fwd_ft_key \<Rightarrow> nat \<Rightarrow> simple_fwd_ft \<Rightarrow> simple_fwd_ft_entry" where
  "new_entry key idx ft = \<lparr>ent_addr = next_addr ft, ent_key = key, expiration = 0, age_sec = 0, last_counter = 0,
     buckets_index = of_nat idx, fid = fid_ctr ft\<rparr>"

lemma add_new_parts:
  assumes "simple_fwd_ft_add_new c data pinfo ft = Some (Inr a, ft')"
  shows "\<exists>key. simple_fwd_ft_key_fill data pinfo zero_key = Some (True, key) \<and> a = next_addr ft
    \<and> unat (rss_hash pinfo AND ft_mask ft) < length (buckets ft)
    \<and> ft' = ft\<lparr>fid_ctr := fid_ctr ft + 1, next_addr := Suc (next_addr ft), stats_add := stats_add ft + 1,
         buckets := (buckets ft)[unat (rss_hash pinfo AND ft_mask ft) :=
           new_entry key (unat (rss_hash pinfo AND ft_mask ft)) ft # buckets ft ! unat (rss_hash pinfo AND ft_mask ft)]\<rparr>"
  using assms by (auto simp: simple_fwd_ft_add_new_def new_entry_def bind_eq_Some_conv Let_def split: if_split_asm)

lemma key_fill_hash: "simple_fwd_ft_key_fill data pinfo k = Some (True, key) \<Longrightarrow> key_rss_hash key = rss_hash pinfo"
  by (auto simp: simple_fwd_ft_key_fill_def Let_def bind_eq_Some_conv split: if_split_asm)

lemma ft_inv_add:
  assumes "ft_inv ft" and "simple_fwd_ft_add_new c data pinfo ft = Some (r, ft')"
  shows "ft_inv ft'"
proof (cases r)
  case (Inl e)
  then have "ft' = ft"
    using assms(2) by (auto simp: simple_fwd_ft_add_new_def bind_eq_Some_conv Let_def split: if_split_asm)
  then show ?thesis using assms(1) by simp
next
  case (Inr a)
  let ?i = "unat (rss_hash pinfo AND ft_mask ft)"
  obtain key where a: "simple_fwd_ft_key_fill data pinfo zero_key = Some (True, key)" "?i < length (buckets ft)"
      "ft' = ft\<lparr>fid_ctr := fid_ctr ft + 1, next_addr := Suc (next_addr ft), stats_add := stats_add ft + 1,
         buckets := (buckets ft)[?i := new_entry key ?i ft # buckets ft ! ?i]\<rparr>"
    using add_new_parts [of c data pinfo ft a ft'] assms(2) Inr by auto
  have v: "ft_view ft' = (ft_view ft)[?i := (next_addr ft, key) # ft_view ft ! ?i]"
    using a by (simp add: ft_view_def map_update bview_def new_entry_def)
  have "view_inv (ft_view ft') (ft_size ft) (ft_mask ft) (Suc (next_addr ft)) (stats_add ft - stats_rm ft + 1)"
    unfolding v using assms(1) key_fill_hash [OF a(1)] a(2)
    by (intro view_inv_insert) (simp_all add: ft_inv_def ft_view_def)
  then show ?thesis using a(3) by (simp add: ft_inv_def algebra_simps)
qed

lemma ft_inv_destroy:
  assumes "ft_inv ft" and "ft_destroy_entry a ft = Some ft'"
  shows "ft_inv ft'"
proof -
  obtain e es where f: "filter (\<lambda>e. ent_addr e = a) (concat (buckets ft)) = e # es"
    using assms(2) by (auto simp: ft_destroy_entry_def split: list.split_asm)
  have ft': "ft' = ft\<lparr>buckets := map (filter (\<lambda>e. ent_addr e \<noteq> a)) (buckets ft), aged := aged ft @ [fid e], stats_rm := stats_rm ft + 1\<rparr>"
    using assms(2) f by (simp add: ft_destroy_entry_def)
  have v: "ft_view ft' = map (filter (\<lambda>p. fst p \<noteq> a)) (ft_view ft)"
    by (simp add: ft' ft_view_def bview_def filter_map comp_def)
  have "e \<in> set (concat (buckets ft))" "ent_addr e = a"
    using f by (auto simp: filter_eq_Cons_iff simp del: set_concat)
  then have "\<exists>p \<in> set (concat (ft_view ft)). fst p = a"
    by (auto simp: ft_view_def bview_def)
  then have "view_inv (ft_view ft') (ft_size ft) (ft_mask ft) (next_addr ft) (stats_add ft - stats_rm ft - 1)"
    unfolding v using assms(1) by (intro view_inv_remove) (simp_all add: ft_inv_def)
  then show ?thesis by (simp add: ft_inv_def ft' algebra_simps)
qed

lemma ft_inv_aging:
  assumes "ft_inv ft" and "simple_fwd_ft_aging_ft_entry t counter l i ft = Some (b, ft')"
  shows "ft_inv ft'"
proof -
  let ?ft = "ft\<lparr>buckets := (buckets ft)[i := snd (scan_bucket t counter (buckets ft ! i))]\<rparr>"
  have "ft_inv ?ft"
    by (rule ft_inv_same [OF assms(1)]) (simp_all add: ft_view_update bview_scan)
  moreover have "ft' = ft \<or> ft' = ?ft \<or> (\<exists>a. ft_destroy_entry a ?ft = Some ft')"
    using assms(2)
    by (auto simp: simple_fwd_ft_aging_ft_entry_def bind_eq_Some_conv Let_def split_beta
        split: if_split_asm option.split_asm)
  ultimately show ?thesis using assms(1) ft_inv_destroy by auto
qed

text \<open>A table for at most \<open>2 ^ 26\<close> flows has all its buckets.\<close>

lemma align_bounds:
  assumes "pow2_laws api" and "unat n \<le> 2 ^ 26" and "n \<noteq> 0"
  shows "0 < unat (rte_align32pow2 api n) \<and> unat (rte_align32pow2 api n) \<le> 2 ^ 26"
proof -
  obtain k where k: "unat (rte_align32pow2 api n) = 2 ^ k" "2 ^ k < 2 * unat n"
    using assms unfolding pow2_laws_def by fastforce
  then have "(2 :: nat) ^ k < 2 ^ 27" using assms(2) by simp
  then have "k \<le> 26" using power_less_imp_less_exp [of "2 :: nat" k 27] by simp
  then have "(2 :: nat) ^ k \<le> 2 ^ 26" by (rule power_increasing) simp
  then show ?thesis using k(1) by simp
qed

lemma ft_inv_create:
  assumes "pow2_laws api" and "simple_fwd_ft_create api nb ag c th = Some (Some ft)" and "unat nb \<le> 2 ^ 26"
  shows "ft_inv ft"
proof -
  define n where "n = (if rte_is_power_of_2 api nb then nb else rte_align32pow2 api nb)"
  have nb: "nb \<noteq> 0" using assms(2) by (auto simp: simple_fwd_ft_create_def)
  then have n: "0 < unat n" "unat n \<le> 2 ^ 26"
    using align_bounds [OF assms(1,3) nb] assms(3) by (simp_all add: n_def unat_gt_0)
  define m where "m = push_bit 1 n"
  have sz: "unat m = 2 * unat n"
    using n by (simp add: m_def push_bit_eq_mult unat_word_ariths)
  then have al: "unat (80 + 16 * m) = 80 + 16 * (2 * unat n)"
    using n by (simp add: unat_word_ariths)
  have "ft = \<lparr>ft_size = m, ft_mask = m - 1, stats_add = 0, stats_rm = 0, has_age_thread = ag, stop_aging_thread = False, fid_ctr = 0,
      buckets = replicate ((unat (80 + 16 * m) - 80) div 16) [], next_addr = 1, aged = []\<rparr>"
    using assms(2) unfolding simple_fwd_ft_create_def Let_def n_def m_def by (simp split: if_split_asm)
  moreover have "m \<noteq> 0" using sz n(1) by auto
  ultimately show ?thesis
    unfolding al by (simp add: ft_inv_def view_inv_def ft_view_def bview_def sz)
qed

lemma destroy_entry_unlinks:
  "simple_fwd_ft_destroy_entry a ft = Some ft' \<Longrightarrow> ft_destroy_entry a ft = Some ft'"
  by (auto simp: simple_fwd_ft_destroy_entry_def split: list.split_asm if_split_asm)

lemma ft_session_inv:
  assumes "ft_session api ft" and "pow2_laws api"
  shows "ft_inv ft"
  using assms(1)
proof (induction rule: ft_session.induct)
  case (age_set ft a s)
  show ?case
    by (rule ft_inv_same [OF age_set.IH])
      (auto simp: ft_view_def bview_def simple_fwd_ft_update_age_sec_def)
qed (blast intro: ft_inv_create [OF assms(2)] ft_inv_add ft_inv_find ft_inv_destroy [OF _ destroy_entry_unlinks] ft_inv_aging)+

section \<open>Destruction\<close>

lemma distinct_map_apart:
  "distinct (map f (xs @ ys)) \<Longrightarrow> x \<in> set xs \<Longrightarrow> y \<in> set ys \<Longrightarrow> f x \<noteq> f y"
  by (auto simp del: set_concat)

lemma filter_concat_one:
  "distinct (map f (concat bs)) \<Longrightarrow> i < length bs \<Longrightarrow> bs ! i = e # es \<Longrightarrow>
   filter (\<lambda>x. f x = f e) (concat bs) = [e] \<and> map (filter (\<lambda>x. f x \<noteq> f e)) bs = bs[i := es]"
proof (induction bs arbitrary: i)
  case (Cons b bs)
  show ?case
  proof (cases i)
    case 0
    then have b: "b = e # es" using Cons.prems(3) by simp
    have n: "f x \<noteq> f e" if "x \<in> set (es @ concat bs)" for x
      using distinct_map_apart [of f "[e]" "es @ concat bs" e x] Cons.prems(1) that b by (simp del: set_concat)
    then have "filter (\<lambda>x. f x \<noteq> f e) es = es" "\<forall>c \<in> set bs. filter (\<lambda>x. f x \<noteq> f e) c = c"
        "filter (\<lambda>x. f x = f e) (es @ concat bs) = []"
      by (auto simp: filter_id_conv filter_empty_conv)
    then show ?thesis by (simp add: b 0 map_idI)
  next
    case (Suc j)
    then have j: "j < length bs" "bs ! j = e # es" using Cons.prems by simp_all
    then have "e # es \<in> set bs" using nth_mem [OF j(1)] by simp
    then have "e \<in> set (concat bs)" by (simp, intro bexI [of _ "e # es"]) simp_all
    then have "f x \<noteq> f e" if "x \<in> set b" for x
      using distinct_map_apart [of f b "concat bs" x e] Cons.prems(1) that by (simp del: set_concat)
    then have "filter (\<lambda>x. f x \<noteq> f e) b = b" "filter (\<lambda>x. f x = f e) b = []"
      by (auto simp: filter_id_conv filter_empty_conv)
    then show ?thesis using Cons.IH [of j] Cons.prems Suc by simp
  qed
qed simp

lemma distinct_concat_tail:
  assumes "distinct (map f (concat bs))" and "i < length bs" and "bs ! i = e # es"
  shows "distinct (map f (concat (bs[i := es])))"
proof -
  have "concat (bs[i := es]) = filter (\<lambda>x. f x \<noteq> f e) (concat bs)"
    using filter_concat_one [OF assms] by (simp add: filter_concat)
  then show ?thesis using assms(1) by (simp add: distinct_map_filter)
qed

lemma destroy_first:
  assumes "distinct (map ent_addr (concat (buckets ft)))" and "i < length (buckets ft)" and "buckets ft ! i = e # es"
  shows "ft_destroy_entry (ent_addr e) ft
    = Some (ft\<lparr>buckets := (buckets ft)[i := es], aged := aged ft @ [fid e], stats_rm := stats_rm ft + 1\<rparr>)"
  using filter_concat_one [OF assms] by (simp add: ft_destroy_entry_def)

lemma destroy_nodes_bucket:
  "distinct (map ent_addr (concat (buckets ft))) \<Longrightarrow> i < length (buckets ft) \<Longrightarrow> buckets ft ! i = es \<Longrightarrow>
   destroy_nodes (map ent_addr es) ft = Some (ft\<lparr>buckets := (buckets ft)[i := []], aged := aged ft @ map fid es,
     stats_rm := stats_rm ft + of_nat (length es)\<rparr>) \<and> distinct (map ent_addr (concat ((buckets ft)[i := []])))"
proof (induction es arbitrary: ft)
  case Nil
  then have "(buckets ft)[i := []] = buckets ft" by (metis list_update_id)
  then show ?case using Nil by simp
next
  case (Cons e es)
  let ?ft = "ft\<lparr>buckets := (buckets ft)[i := es], aged := aged ft @ [fid e], stats_rm := stats_rm ft + 1\<rparr>"
  show ?case
    using Cons.IH [of ?ft] Cons.prems destroy_first [OF Cons.prems] distinct_concat_tail [OF Cons.prems]
    by (simp add: add.assoc)
qed

lemma destroy_buckets_from:
  "distinct (map ent_addr (concat (buckets ft))) \<Longrightarrow> k \<le> length (buckets ft) \<Longrightarrow>
   \<exists>ft'. destroy_buckets [k..<length (buckets ft)] ft = Some ft'
     \<and> buckets ft' = take k (buckets ft) @ replicate (length (buckets ft) - k) []
     \<and> aged ft' = aged ft @ map fid (concat (drop k (buckets ft)))
     \<and> stats_add ft' = stats_add ft \<and> stats_rm ft' = stats_rm ft + of_nat (length (concat (drop k (buckets ft))))"
proof (induction "length (buckets ft) - k" arbitrary: ft k)
  case 0
  then show ?case by simp
next
  case (Suc n)
  then have k: "k < length (buckets ft)" by simp
  note d = destroy_nodes_bucket [OF Suc.prems(1) k refl]
  let ?es = "buckets ft ! k"
  define ft1 where "ft1 = ft\<lparr>buckets := (buckets ft)[k := []], aged := aged ft @ map fid ?es,
    stats_rm := stats_rm ft + of_nat (length ?es)\<rparr>"
  have l: "length (buckets ft1) = length (buckets ft)" by (simp add: ft1_def)
  have t: "take (Suc k) (buckets ft1) = take k (buckets ft) @ [[]]" "drop (Suc k) (buckets ft1) = drop (Suc k) (buckets ft)"
    using k by (simp_all add: ft1_def take_Suc_conv_app_nth take_update_cancel)
  have r: "length (buckets ft) - k = Suc (length (buckets ft) - Suc k)" using k by simp
  have c: "concat (drop k (buckets ft)) = ?es @ concat (drop (Suc k) (buckets ft))" using k by (simp flip: Cons_nth_drop_Suc)
  have h: "n = length (buckets ft1) - Suc k" "distinct (map ent_addr (concat (buckets ft1)))" "Suc k \<le> length (buckets ft1)"
    using Suc.hyps(2) d k by (simp_all add: ft1_def)
  obtain ft' where "destroy_buckets [Suc k..<length (buckets ft1)] ft1 = Some ft'"
      "buckets ft' = take (Suc k) (buckets ft1) @ replicate (length (buckets ft1) - Suc k) []"
      "aged ft' = aged ft1 @ map fid (concat (drop (Suc k) (buckets ft1)))" "stats_add ft' = stats_add ft1"
      "stats_rm ft' = stats_rm ft1 + of_nat (length (concat (drop (Suc k) (buckets ft1))))"
    using Suc.hyps(1) [OF h] by blast
  then show ?case
    using d k unfolding ft1_def [symmetric] l t c r
    by (simp add: upt_conv_Cons) (simp add: ft1_def add.assoc)
qed

lemma destroy_calls_back:
  assumes "ft_inv ft"
  shows "\<exists>ft'. simple_fwd_ft_destroy (Some ft) = Some (DOCA_SUCCESS, Some ft')
    \<and> aged ft' = aged ft @ map fid (concat (buckets ft)) \<and> (\<forall>b \<in> set (buckets ft'). b = []) \<and> stats_rm ft' = stats_add ft'"
proof -
  let ?ft = "if has_age_thread ft then ft\<lparr>stop_aging_thread := True\<rparr> else ft"
  have b: "buckets ?ft = buckets ft" "ft_size ?ft = ft_size ft" "aged ?ft = aged ft" "stats_rm ?ft = stats_rm ft" "stats_add ?ft = stats_add ft"
    by simp_all
  have i: "length (buckets ft) = unat (ft_size ft)" "distinct (map ent_addr (concat (buckets ft)))"
      "of_nat (length (concat (buckets ft))) = stats_add ft - stats_rm ft"
    using assms by (auto simp: ft_inv_def view_inv_def ft_view_def bview_def map_concat comp_def length_concat)
  show ?thesis
    using destroy_buckets_from [of ?ft 0] i unfolding b by (auto simp: simple_fwd_ft_destroy_def Let_def)
qed

section \<open>Search\<close>

lemma key_equal_refl [simp]: "simple_fwd_ft_key_equal k k"
  by (simp add: simple_fwd_ft_key_equal_def)

lemma find_after_add:
  assumes "simple_fwd_ft_add_new c data pinfo ft = Some (Inr a, ft')"
  shows "simple_fwd_ft_find now hz data pinfo ft' = Some (Inr a, ft')"
proof -
  let ?i = "unat (rss_hash pinfo AND ft_mask ft)"
  obtain key where a: "simple_fwd_ft_key_fill data pinfo zero_key = Some (True, key)" "a = next_addr ft" "?i < length (buckets ft)"
      "ft' = ft\<lparr>fid_ctr := fid_ctr ft + 1, next_addr := Suc (next_addr ft), stats_add := stats_add ft + 1,
         buckets := (buckets ft)[?i := new_entry key ?i ft # buckets ft ! ?i]\<rparr>"
    using add_new_parts [OF assms] by blast
  then show ?thesis
    by (simp add: simple_fwd_ft_find_def simple_fwd_ft_find_key_def key_fill_hash [OF a(1)] Let_def
        new_entry_def simple_fwd_ft_update_expiration_def)
qed

lemma find_other_after_add:
  assumes "simple_fwd_ft_add_new c data pinfo ft = Some (Inr a, ft')"
    and "simple_fwd_ft_key_fill data pinfo zero_key = Some (True, key)"
    and "simple_fwd_ft_key_fill data' pinfo' zero_key = Some (True, key')" and "\<not> simple_fwd_ft_key_equal key key'"
  shows "map_option fst (simple_fwd_ft_find now hz data' pinfo' ft') = map_option fst (simple_fwd_ft_find now hz data' pinfo' ft)"
proof -
  let ?i = "unat (rss_hash pinfo AND ft_mask ft)" and ?j = "unat (rss_hash pinfo' AND ft_mask ft)"
  have a: "?i < length (buckets ft)"
      "ft' = ft\<lparr>fid_ctr := fid_ctr ft + 1, next_addr := Suc (next_addr ft), stats_add := stats_add ft + 1,
         buckets := (buckets ft)[?i := new_entry key ?i ft # buckets ft ! ?i]\<rparr>"
    using add_new_parts [OF assms(1)] assms(2) by auto
  have "fst (find_in_bucket now hz key' (buckets ft' ! ?j)) = fst (find_in_bucket now hz key' (buckets ft ! ?j))"
    using a assms(4) by (cases "?i = ?j") (simp_all add: new_entry_def split_beta)
  then show ?thesis
    using a by (simp add: simple_fwd_ft_find_def simple_fwd_ft_find_key_def assms(3) key_fill_hash [OF assms(3)] Let_def
        split_beta split: option.split)
qed

section \<open>The key of GTP-U packets\<close>

lemma gtp_tunnel_store:
  assumes "simple_fwd_parse_is_tun data pinfo = Some (off, p)" and "pi_tun_type p = DOCA_FLOW_TUN_GTPU"
    and "pi_tun_type pinfo = DOCA_FLOW_TUN_NONE" and "tf_store (pi_tun pinfo) = replicate 8 0"
  shows "pi_outer p = pi_outer pinfo \<and> (\<exists>l4 info msg_type. fmt_l4 (pi_outer pinfo) = Some l4
    \<and> at8 data (l4 + 8) = Some info \<and> at8 data (l4 + 9) = Some msg_type
    \<and> tun_vni (pi_tun p) = Some (ucast msg_type OR push_bit 8 (ucast info)))"
  using assms
  by (auto simp: simple_fwd_parse_is_tun_def bind_eq_Some_conv Let_def store_bytes_def tun_vni_def at32_def at8_def
      add.assoc numeral_eq_Suc split: if_split_asm)

lemma parse_packet_tunnel:
  assumes "simple_fwd_parse_packet data len pinfo = Some (ok, p)" and "pi_tun_type p \<noteq> pi_tun_type pinfo"
  shows "\<exists>outer_fmt off p1. simple_fwd_parse_is_tun data (pinfo\<lparr>pi_len := len, pi_outer := outer_fmt\<rparr>) = Some (off, p1)
    \<and> pi_tun_type p = pi_tun_type p1 \<and> pi_tun p = pi_tun p1 \<and> pi_outer p = pi_outer p1"
  using assms
  apply (auto simp: simple_fwd_parse_packet_def bind_eq_Some_conv Let_def split: if_split_asm option.split_asm)
  subgoal for _ b p1 y
    by (rule exI [of _ b], rule exI [of _ "Some y"], rule exI [of _ p1], drule spec [of _ y],
        cases "pi_tun_type p1 = DOCA_FLOW_TUN_NONE") auto
  done

lemma key_fill_vni:
  "simple_fwd_ft_key_fill data p k = Some (True, key) \<Longrightarrow> pi_tun_type p \<noteq> DOCA_FLOW_TUN_NONE
   \<Longrightarrow> tun_vni (pi_tun p) = Some (key_vni key)"
  by (auto simp: simple_fwd_ft_key_fill_def Let_def bind_eq_Some_conv split: if_split_asm)

section \<open>Properties\<close>

definition udp_packet :: "u8 list" where
  "udp_packet = replicate 12 0 @ [0x08, 0x00] @ [0x45, 0, 0, 28, 0, 0, 0, 0, 64, 17, 0, 0, 10, 0, 0, 1, 10, 0, 0, 2]
     @ [0, 7, 0, 9, 0, 8, 0, 0]"

definition udp_pinfo :: simple_fwd_pkt_info where
  "udp_pinfo = snd (the (simple_fwd_parse_packet udp_packet 42 (zero_pinfo\<lparr>rss_hash := 7\<rparr>)))"

definition rounding :: pow2_api where
  "rounding = \<lparr>rte_is_power_of_2 = (\<lambda>n. n \<noteq> 0 \<and> (n - 1) AND n = 0),
     rte_align32pow2 = (\<lambda>n. of_nat (2 ^ floorlog 2 (unat n - 1)))\<rparr>"

definition table_1 :: simple_fwd_ft where
  "table_1 = the (the (simple_fwd_ft_create rounding 3 False True True))"

definition table_2 :: simple_fwd_ft where
  "table_2 = snd (the (simple_fwd_ft_add_new True udp_packet udp_pinfo table_1))"

definition gtp_packet :: "u8 list \<Rightarrow> u8 list" where
  "gtp_packet teid = replicate 12 0 @ [0x08, 0x00] @ [0x45, 0, 0, 64, 0, 0, 0, 0, 64, 17, 0, 0, 10, 0, 0, 1, 10, 0, 0, 2]
     @ [0, 7, 0x08, 0x68, 0, 44, 0, 0] @ [0x30, 0xff, 0, 28] @ teid
     @ [0x45, 0, 0, 28, 0, 0, 0, 0, 64, 17, 0, 0, 10, 1, 0, 1, 10, 1, 0, 2] @ [0, 7, 0, 9, 0, 8, 0, 0]"

text \<open>C15. Whatever a session does with a flow table for up to \<open>2 ^ 26\<close> flows, every hash value has a bucket, an
  entry is in the bucket of its hash value, no entry is there twice, and the statistics differ by the number of
  entries; destroying the table hands every entry to the aging callback exactly once.\<close>

theorem flow_table_invariant:
  assumes "ft_session api ft" and "pow2_laws api"
  shows "(\<forall>h. unat (h AND ft_mask ft) < length (buckets ft))
    \<and> (\<forall>i < length (buckets ft). \<forall>e \<in> set (buckets ft ! i). unat (key_rss_hash (ent_key e) AND ft_mask ft) = i)
    \<and> distinct (map ent_addr (concat (buckets ft))) \<and> of_nat (length (concat (buckets ft))) = stats_add ft - stats_rm ft
    \<and> (\<exists>ft'. simple_fwd_ft_destroy (Some ft) = Some (DOCA_SUCCESS, Some ft')
          \<and> aged ft' = aged ft @ map fid (concat (buckets ft)) \<and> stats_rm ft' = stats_add ft')"
proof -
  have inv: "ft_inv ft" using ft_session_inv [OF assms] .
  have v: "map fst (concat (ft_view ft)) = map ent_addr (concat (buckets ft))"
      "length (concat (ft_view ft)) = length (concat (buckets ft))"
    by (simp_all add: ft_view_def bview_def map_concat comp_def length_concat)
  have "unat (key_rss_hash (ent_key e) AND ft_mask ft) = i" if "i < length (buckets ft)" "e \<in> set (buckets ft ! i)" for i e
  proof -
    have "i < length (ft_view ft)" "(ent_addr e, ent_key e) \<in> set (ft_view ft ! i)"
      using that by (auto simp: ft_view_def bview_def)
    then have "unat (key_rss_hash (snd (ent_addr e, ent_key e)) AND ft_mask ft) = i"
      using inv unfolding ft_inv_def view_inv_def by blast
    then show ?thesis by simp
  qed
  then show ?thesis
    using index_in_range [OF inv] destroy_calls_back [OF inv] inv unfolding ft_inv_def view_inv_def v by blast
qed

lemma rounding_laws: "pow2_laws rounding"
proof -
  have "\<exists>k. unat (of_nat (2 ^ floorlog 2 (unat n - 1)) :: u32) = 2 ^ k \<and> unat n \<le> 2 ^ k \<and> 2 ^ k < 2 * unat n"
    if n: "n \<noteq> 0" "unat n \<le> 2 ^ 31" for n :: u32
  proof -
    let ?m = "unat n - 1" and ?k = "floorlog 2 (unat n - 1)"
    have p: "0 < unat n" using n(1) by (simp add: unat_gt_0)
    have b: "unat n \<le> 2 ^ ?k \<and> 2 ^ ?k < 2 * unat n"
    proof (cases "?m = 0")
      case True
      then show ?thesis using p by (simp add: floorlog_def)
    next
      case False
      then have f: "2 ^ (?k - 1) \<le> ?m" "?m < 2 ^ ?k" using floorlog_bounds [where b = 2 and x = ?m] by simp_all
      have "?k \<noteq> 0" using False f(2) by (intro notI) simp
      then have "(2 :: nat) ^ ?k = 2 * 2 ^ (?k - 1)" by (simp flip: power_Suc)
      then show ?thesis using f p by linarith
    qed
    then have "(2 :: nat) ^ ?k < 2 ^ 32" using n(2) by simp
    then have "unat (of_nat (2 ^ ?k) :: u32) = 2 ^ ?k" by (simp add: unat_of_nat del: of_nat_power)
    then show ?thesis using b by blast
  qed
  then show ?thesis by (simp add: pow2_laws_def rounding_def)
qed

theorem flow_table_invariant_witness:
  "map length (buckets table_2) = [0, 0, 0, 0, 0, 0, 0, 1] \<and> unat (7 AND ft_mask table_2) < length (buckets table_2)
   \<and> (\<exists>ft'. simple_fwd_ft_destroy (Some table_2) = Some (DOCA_SUCCESS, Some ft')
        \<and> aged ft' = aged table_2 @ map fid (concat (buckets table_2)))"
proof -
  have c: "simple_fwd_ft_create rounding 3 False True True = Some (Some table_1)" by code_simp
  have a: "simple_fwd_ft_add_new True udp_packet udp_pinfo table_1 = Some (Inr 1, table_2)" by code_simp
  have l: "map length (buckets table_2) = [0, 0, 0, 0, 0, 0, 0, 1]" by code_simp
  have "ft_session rounding table_2" by (rule ft_session.added [OF ft_session.created [OF c] a]) simp
  from flow_table_invariant [OF this rounding_laws] l show ?thesis by blast
qed

text \<open>C16. An added packet is found: searching for it right after \<^verbatim>\<open>simple_fwd_ft_add_new\<close> gives the context of the
  new entry and changes nothing, and for a packet with another key the result is what it was before.\<close>

theorem flow_table_add_find:
  assumes "simple_fwd_ft_add_new c data pinfo ft = Some (Inr a, ft')"
    and "simple_fwd_ft_key_fill data pinfo zero_key = Some (True, key)"
  shows "simple_fwd_ft_find now hz data pinfo ft' = Some (Inr a, ft')
    \<and> (\<forall>data' pinfo' key'. simple_fwd_ft_key_fill data' pinfo' zero_key = Some (True, key')
          \<and> \<not> simple_fwd_ft_key_equal key key'
        \<longrightarrow> map_option fst (simple_fwd_ft_find now hz data' pinfo' ft') = map_option fst (simple_fwd_ft_find now hz data' pinfo' ft))"
  using find_after_add [OF assms(1)] find_other_after_add [OF assms] by blast

theorem flow_table_add_find_witness:
  "simple_fwd_ft_add_new True udp_packet udp_pinfo table_1 = Some (Inr 1, table_2)
   \<and> simple_fwd_ft_find 5 1 udp_packet udp_pinfo table_2 = Some (Inr 1, table_2)
   \<and> map_option fst (simple_fwd_ft_find 5 1 udp_packet (udp_pinfo\<lparr>orig_port_id := 1\<rparr>) table_2) = Some (Inl DOCA_ERROR_NOT_FOUND)"
proof -
  let ?q = "udp_pinfo\<lparr>orig_port_id := 1\<rparr>"
  have a: "simple_fwd_ft_add_new True udp_packet udp_pinfo table_1 = Some (Inr 1, table_2)" by code_simp
  obtain key where k: "simple_fwd_ft_key_fill udp_packet udp_pinfo zero_key = Some (True, key)"
      "key = snd (the (simple_fwd_ft_key_fill udp_packet udp_pinfo zero_key))"
    by (rule that [OF _ refl]) code_simp
  obtain key' where k': "simple_fwd_ft_key_fill udp_packet ?q zero_key = Some (True, key')"
      "key' = snd (the (simple_fwd_ft_key_fill udp_packet ?q zero_key))"
    by (rule that [OF _ refl]) code_simp
  have "\<not> simple_fwd_ft_key_equal key key'" unfolding k(2) k'(2) by code_simp
  moreover have "map_option fst (simple_fwd_ft_find 5 1 udp_packet ?q table_1) = Some (Inl DOCA_ERROR_NOT_FOUND)" by code_simp
  ultimately show ?thesis
    using flow_table_add_find [OF a k(1), of 5 1] k'(1) a by metis
qed



end
