(* ===== verification/Pcc.thy ===== *)
theory Pcc
  imports Flow_Types
begin

text \<open>
  The congestion control programs of the PCC application: the round trip time template
  (\<^verbatim>\<open>pcc/device/rp/algo/rtt_template.c\<close>) and the reaction point around it
  (\<^verbatim>\<open>pcc/device/rp/pcc_rp_dev.c\<close>). An event is the words the hardware delivers, in network order. The
  options of the preprocessor are the fields of \<open>pcc_build\<close>; the reciprocal instruction of the processor
  is a parameter. A shift by the width of the shifted value is undefined.
\<close>

section \<open>Events\<close>

definition DOCA_PCC_DEV_EVNT_ROCE_CNP :: u32 where "DOCA_PCC_DEV_EVNT_ROCE_CNP = 2"
definition DOCA_PCC_DEV_EVNT_ROCE_TX :: u32 where "DOCA_PCC_DEV_EVNT_ROCE_TX = 3"
definition DOCA_PCC_DEV_EVNT_ROCE_NACK :: u32 where "DOCA_PCC_DEV_EVNT_ROCE_NACK = 5"
definition DOCA_PCC_DEV_EVNT_RTT :: u32 where "DOCA_PCC_DEV_EVNT_RTT = 6"
definition DOCA_PCC_DEV_TX_FLAG_RTT_REQ_SENT :: u32 where "DOCA_PCC_DEV_TX_FLAG_RTT_REQ_SENT = push_bit 2 1"
definition DOCA_PCC_DEV_MAX_RATE :: u32 where "DOCA_PCC_DEV_MAX_RATE = push_bit 20 1"
definition DOCA_PCC_DEV_MAX_NUM_PORTS :: nat where "DOCA_PCC_DEV_MAX_NUM_PORTS = 4"

text \<open>The union of the specific attributes is its first three words.\<close>

record mlnx_cc_event =
  raw_attr :: u32
  raw_timestamp :: u32
  spec_0 :: u32
  spec_1 :: u32
  spec_2 :: u32

record mlnx_cc_event_general_attr =
  ev_type :: u32
  port_num :: u32
  flags :: u32

definition doca_pcc_dev_get_ev_attr :: "mlnx_cc_event \<Rightarrow> mlnx_cc_event_general_attr" where
  "doca_pcc_dev_get_ev_attr event =
     (let v = be32 (raw_attr event)
      in \<lparr>ev_type = v AND 0xff, port_num = drop_bit 16 v AND 0xff, flags = drop_bit 24 v\<rparr>)"

definition doca_pcc_dev_get_timestamp :: "mlnx_cc_event \<Rightarrow> u32" where
  "doca_pcc_dev_get_timestamp event = be32 (raw_timestamp event)"

definition doca_pcc_dev_get_rtt_req_send_timestamp :: "mlnx_cc_event \<Rightarrow> u32" where
  "doca_pcc_dev_get_rtt_req_send_timestamp event = be32 (spec_0 event)"

definition doca_pcc_dev_get_rtt_req_recv_timestamp :: "mlnx_cc_event \<Rightarrow> u32" where
  "doca_pcc_dev_get_rtt_req_recv_timestamp event = be32 (spec_1 event)"

record mlnx_cc_results =
  rate :: u32
  rtt_req :: u32

section \<open>Fixed point arithmetic\<close>

definition doca_pcc_dev_mult :: "u32 \<Rightarrow> u32 \<Rightarrow> u64" where
  "doca_pcc_dev_mult a b = ucast a * ucast b"

definition doca_pcc_dev_fxp_mult :: "u32 \<Rightarrow> u32 \<Rightarrow> u32" where
  "doca_pcc_dev_fxp_mult a b = ucast (drop_bit 16 (doca_pcc_dev_mult a b) AND 0xffffffff)"

section \<open>Parameters\<close>

definition UPDATE_FACTOR :: u32 where "UPDATE_FACTOR = (push_bit 16 1 * 10) div 100"
definition AI :: u32 where "AI = (push_bit 20 1 * 5) div 100"
definition BASE_RTT :: u32 where "BASE_RTT = 13000"
definition NEW_FLOW_RATE :: u32 where "NEW_FLOW_RATE = push_bit 20 1"
definition MIN_RATE :: u32 where "MIN_RATE = push_bit (20 - 14) 1"
definition MAX_DELAY :: u32 where "MAX_DELAY = 150000"
definition UPDATE_FACTOR_MAX :: u32 where "UPDATE_FACTOR_MAX = 10 * push_bit 16 1"
definition AI_MAX :: u32 where "AI_MAX = push_bit 20 1"
definition RATE_MAX :: u32 where "RATE_MAX = push_bit 20 1"
definition BW_MB_DEFAULT :: u32 where "BW_MB_DEFAULT = 25000"
definition UINT32_MAX :: u32 where "UINT32_MAX = 0xffffffff"

definition RTT_TEMPLATE_UPDATE_FACTOR :: nat where "RTT_TEMPLATE_UPDATE_FACTOR = 0"
definition RTT_TEMPLATE_AI :: nat where "RTT_TEMPLATE_AI = 1"
definition RTT_TEMPLATE_BASE_RTT :: nat where "RTT_TEMPLATE_BASE_RTT = 2"
definition RTT_TEMPLATE_NEW_FLOW_RATE :: nat where "RTT_TEMPLATE_NEW_FLOW_RATE = 3"
definition RTT_TEMPLATE_MIN_RATE :: nat where "RTT_TEMPLATE_MIN_RATE = 4"
definition RTT_TEMPLATE_MAX_DELAY :: nat where "RTT_TEMPLATE_MAX_DELAY = 5"
definition RTT_TEMPLATE_PARAM_NUM :: nat where "RTT_TEMPLATE_PARAM_NUM = 6"
definition RTT_TEMPLATE_COUNTER_TX_EVENT :: nat where "RTT_TEMPLATE_COUNTER_TX_EVENT = 0"
definition RTT_TEMPLATE_COUNTER_RTT_EVENT :: nat where "RTT_TEMPLATE_COUNTER_RTT_EVENT = 1"

text \<open>What the initialisation declares of a parameter to the library, which keeps the value in its range.\<close>

record algo_param =
  default_value :: u32
  max_value :: u32
  min_value :: u32
  permissions :: u32

definition rtt_template_init :: "algo_param list" where
  "rtt_template_init =
     [\<lparr>default_value = UPDATE_FACTOR, max_value = UPDATE_FACTOR_MAX, min_value = 1, permissions = 1\<rparr>,
      \<lparr>default_value = AI, max_value = AI_MAX, min_value = 1, permissions = 1\<rparr>,
      \<lparr>default_value = BASE_RTT, max_value = UINT32_MAX, min_value = 1, permissions = 1\<rparr>,
      \<lparr>default_value = NEW_FLOW_RATE, max_value = RATE_MAX, min_value = 1, permissions = 1\<rparr>,
      \<lparr>default_value = MIN_RATE, max_value = RATE_MAX, min_value = 1, permissions = 1\<rparr>,
      \<lparr>default_value = MAX_DELAY, max_value = UINT32_MAX, min_value = 1, permissions = 1\<rparr>]"

definition in_range :: "u32 list \<Rightarrow> bool" where
  "in_range param \<longleftrightarrow> list_all2 (\<lambda>v d. min_value d \<le> v \<and> v \<le> max_value d) param rtt_template_init"

definition FF32BIT :: u32 where "FF32BIT = 0xffffffff"
definition ABORT_TIME :: u32 where "ABORT_TIME = 300000"
definition BW_MB_DEFAULT_FXP16 :: u32 where "BW_MB_DEFAULT_FXP16 = push_bit 16 BW_MB_DEFAULT"
definition NP_RX_RATE_TH :: u32 where "NP_RX_RATE_TH = 58982"
definition HIGH_UTIL_THRESHOLD :: u32 where "HIGH_UTIL_THRESHOLD = 55704"

definition DEC_FACTOR :: "u32 list \<Rightarrow> u32" where
  "DEC_FACTOR param = push_bit 16 1 - param ! RTT_TEMPLATE_UPDATE_FACTOR"
definition CNP_DEC_FACTOR :: "u32 list \<Rightarrow> u32" where
  "CNP_DEC_FACTOR param = push_bit 16 1 - 2 * param ! RTT_TEMPLATE_UPDATE_FACTOR"
definition NACK_DEC_FACTOR :: "u32 list \<Rightarrow> u32" where
  "NACK_DEC_FACTOR param = push_bit 16 1 - 5 * param ! RTT_TEMPLATE_UPDATE_FACTOR"
definition HIGH_UTIL_DEC_FACTOR :: "u32 list \<Rightarrow> u32" where
  "HIGH_UTIL_DEC_FACTOR param = push_bit 16 1 - 2 * param ! RTT_TEMPLATE_UPDATE_FACTOR"
definition HIGH_UTIL_CNP_DEC_FACTOR :: "u32 list \<Rightarrow> u32" where
  "HIGH_UTIL_CNP_DEC_FACTOR param = push_bit 16 1 - 4 * param ! RTT_TEMPLATE_UPDATE_FACTOR"
definition HIGH_UTIL_NACK_DEC_FACTOR :: "u32 list \<Rightarrow> u32" where
  "HIGH_UTIL_NACK_DEC_FACTOR param = push_bit 16 1 - 10 * param ! RTT_TEMPLATE_UPDATE_FACTOR"

section \<open>The algorithm\<close>

record cc_ctxt_rtt_template =
  cur_rate :: u32
  start_delay :: u32
  ctx_rtt :: u32
  was_nack :: bool
  was_cnp :: bool
  abort_cnt :: u8
  rtt_meas_psn :: u8
  rtt_req_to_rtt_sent :: u8
  last_np_rx_bytes :: u32
  last_np_rx_bytes_timestamp_us :: u32

record pcc_build =
  SAMPLE_TX_BYTES :: bool
  NP_RX_RATE :: bool
  TIME_SYNC :: bool

type_synonym recip = "u32 \<Rightarrow> u32"

text \<open>The three kinds of reaction, and the bounds of the rate.\<close>

definition adjust_rate ::
    "pcc_build \<Rightarrow> recip \<Rightarrow> cc_ctxt_rtt_template \<Rightarrow> u32 \<Rightarrow> u32 \<Rightarrow> u32 list \<Rightarrow> bool \<Rightarrow> u32 \<Rightarrow> u32 \<times> cc_ctxt_rtt_template" where
  "adjust_rate build rcp ccctx rtt cur param is_high_util norm_np_rx_rate =
     (if was_nack ccctx \<and> param ! RTT_TEMPLATE_MAX_DELAY \<le> rtt then
        (doca_pcc_dev_fxp_mult (if is_high_util then HIGH_UTIL_NACK_DEC_FACTOR param else NACK_DEC_FACTOR param) cur,
         ccctx\<lparr>was_nack := False\<rparr>)
      else if was_cnp ccctx \<or> param ! RTT_TEMPLATE_MAX_DELAY \<le> rtt then
        (doca_pcc_dev_fxp_mult (if is_high_util then HIGH_UTIL_CNP_DEC_FACTOR param else CNP_DEC_FACTOR param) cur,
         ccctx\<lparr>was_cnp := False\<rparr>)
      else if param ! RTT_TEMPLATE_BASE_RTT < rtt then
        (doca_pcc_dev_fxp_mult (if is_high_util then HIGH_UTIL_DEC_FACTOR param else DEC_FACTOR param) cur, ccctx)
      else if NP_RX_RATE build \<and> norm_np_rx_rate < NP_RX_RATE_TH then
        (doca_pcc_dev_fxp_mult (rcp norm_np_rx_rate) cur, ccctx)
      else (cur + param ! RTT_TEMPLATE_AI, ccctx))"

definition algorithm_core ::
    "pcc_build \<Rightarrow> recip \<Rightarrow> cc_ctxt_rtt_template \<Rightarrow> u32 \<Rightarrow> u32 \<Rightarrow> u32 list \<Rightarrow> bool \<Rightarrow> u32 \<Rightarrow> u32 \<times> cc_ctxt_rtt_template" where
  "algorithm_core build rcp ccctx rtt cur param is_high_util norm_np_rx_rate =
     (let (cur, ccctx) = adjust_rate build rcp ccctx rtt cur param is_high_util norm_np_rx_rate;
          cur = (if DOCA_PCC_DEV_MAX_RATE < cur then DOCA_PCC_DEV_MAX_RATE else cur);
          cur = (if cur < param ! RTT_TEMPLATE_MIN_RATE then param ! RTT_TEMPLATE_MIN_RATE else cur)
      in (cur, ccctx))"

text \<open>The time after which a request for a round trip time is given up.\<close>

definition abort_time :: "u8 \<Rightarrow> u32 option" where
  "abort_time cnt = (if unat cnt < 32 then Some (push_bit (unat cnt) ABORT_TIME) else None)"

definition rtt_template_handle_roce_tx ::
    "mlnx_cc_event \<Rightarrow> u32 \<Rightarrow> cc_ctxt_rtt_template \<Rightarrow> (cc_ctxt_rtt_template \<times> mlnx_cc_results) option" where
  "rtt_template_handle_roce_tx event cur ccctx =
     (let psn = rtt_meas_psn ccctx; timestamp = doca_pcc_dev_get_timestamp event;
          ev_attr = doca_pcc_dev_get_ev_attr event
      in do { (req, ccctx) \<leftarrow>
                (if flags ev_attr AND DOCA_PCC_DEV_TX_FLAG_RTT_REQ_SENT \<noteq> 0 \<and> psn = 0
                 then Some (0, ccctx\<lparr>rtt_meas_psn := 1, rtt_req_to_rtt_sent := 0, start_delay := timestamp\<rparr>)
                 else let till_now = timestamp - start_delay ccctx;
                          till_now = (if timestamp < start_delay ccctx then till_now + UINT32_MAX else till_now);
                          (till_now, ccctx) =
                            (if psn = 0 then (0, ccctx\<lparr>rtt_req_to_rtt_sent := rtt_req_to_rtt_sent ccctx + 1\<rparr>)
                             else (till_now, ccctx))
                      in do { limit \<leftarrow> abort_time (abort_cnt ccctx);
                              if limit < till_now \<or> 2 < rtt_req_to_rtt_sent ccctx
                              then Some (1, (if limit < till_now then ccctx\<lparr>abort_cnt := abort_cnt ccctx + 1\<rparr> else ccctx)
                                              \<lparr>rtt_req_to_rtt_sent := 1\<rparr>)
                              else Some (0, ccctx) });
              Some (ccctx\<lparr>cur_rate := cur\<rparr>, \<lparr>rate = cur, rtt_req = req\<rparr>) })"

text \<open>The receive rate that the other side reports in the raw data of the event.\<close>

definition np_rx_norm :: "recip \<Rightarrow> mlnx_cc_event \<Rightarrow> cc_ctxt_rtt_template \<Rightarrow> u32 \<times> cc_ctxt_rtt_template" where
  "np_rx_norm rcp event ccctx =
     (let np_rx_bytes = spec_1 event;
          delta = np_rx_bytes - last_np_rx_bytes ccctx;
          delta = (if np_rx_bytes < last_np_rx_bytes ccctx then delta + FF32BIT else delta);
          delta_256 = drop_bit 8 delta;
          ts = spec_2 event;
          delta_ts = ts - last_np_rx_bytes_timestamp_us ccctx;
          delta_ts = (if ts < last_np_rx_bytes_timestamp_us ccctx then delta_ts + FF32BIT else delta_ts);
          np_rx_rate = (ucast (drop_bit 8 (doca_pcc_dev_mult delta_256 (rcp delta_ts))) :: u32);
          norm = (if np_rx_rate < BW_MB_DEFAULT_FXP16
                  then ucast (drop_bit 32 (doca_pcc_dev_mult np_rx_rate (rcp BW_MB_DEFAULT))) else push_bit 16 1)
      in (norm, ccctx\<lparr>last_np_rx_bytes := np_rx_bytes, last_np_rx_bytes_timestamp_us := ts\<rparr>))"

text \<open>\<open>util\<close> is the table of the port utilisations.\<close>

definition rtt_get_last_tx_port_util :: "u32 list \<Rightarrow> u32 \<Rightarrow> u32 option" where
  "rtt_get_last_tx_port_util util port = (if unat port < length util then Some (util ! unat port) else None)"

definition rtt_template_handle_roce_rtt ::
    "pcc_build \<Rightarrow> recip \<Rightarrow> u32 list \<Rightarrow> mlnx_cc_event \<Rightarrow> u32 \<Rightarrow> u32 list \<Rightarrow> cc_ctxt_rtt_template
     \<Rightarrow> (cc_ctxt_rtt_template \<times> mlnx_cc_results) option" where
  "rtt_template_handle_roce_rtt build rcp util event cur param ccctx =
     (if rtt_meas_psn ccctx = 0 \<and> rtt_req_to_rtt_sent ccctx = 0 then Some (ccctx, \<lparr>rate = cur, rtt_req = 0\<rparr>)
      else
        let ccctx = ccctx\<lparr>rtt_meas_psn := 0, abort_cnt := 0\<rparr>;
            start_rtt = doca_pcc_dev_get_rtt_req_send_timestamp event;
            end_rtt = (if TIME_SYNC build then doca_pcc_dev_get_rtt_req_recv_timestamp event
                       else doca_pcc_dev_get_timestamp event);
            rtt = end_rtt - start_rtt;
            rtt = (if end_rtt < start_rtt then rtt + UINT32_MAX else rtt);
            ccctx = ccctx\<lparr>ctx_rtt := rtt\<rparr>
        in do { is_high_tx_util \<leftarrow>
                  (if SAMPLE_TX_BYTES build
                   then do { u \<leftarrow> rtt_get_last_tx_port_util util (port_num (doca_pcc_dev_get_ev_attr event));
                             Some (HIGH_UTIL_THRESHOLD < u) }
                   else Some False);
                let (norm, ccctx) = (if NP_RX_RATE build then np_rx_norm rcp event ccctx else (push_bit 16 1, ccctx));
                    (cur, ccctx) = algorithm_core build rcp ccctx rtt cur param is_high_tx_util norm
                in Some (ccctx\<lparr>rtt_req_to_rtt_sent := 1, cur_rate := cur\<rparr>, \<lparr>rate = cur, rtt_req = 1\<rparr>) })"

definition rtt_template_handle_roce_cnp :: "u32 \<Rightarrow> cc_ctxt_rtt_template \<Rightarrow> cc_ctxt_rtt_template \<times> mlnx_cc_results" where
  "rtt_template_handle_roce_cnp cur ccctx = (ccctx\<lparr>was_cnp := True, cur_rate := cur\<rparr>, \<lparr>rate = cur, rtt_req = 0\<rparr>)"

text \<open>The request bit of the results stays as it was.\<close>

definition rtt_template_handle_roce_nack ::
    "u32 \<Rightarrow> cc_ctxt_rtt_template \<Rightarrow> mlnx_cc_results \<Rightarrow> cc_ctxt_rtt_template \<times> mlnx_cc_results" where
  "rtt_template_handle_roce_nack cur ccctx results = (ccctx\<lparr>was_nack := True, cur_rate := cur\<rparr>, results\<lparr>rate := cur\<rparr>)"

definition rtt_template_handle_new_flow ::
    "mlnx_cc_event \<Rightarrow> u32 list \<Rightarrow> cc_ctxt_rtt_template \<Rightarrow> cc_ctxt_rtt_template \<times> mlnx_cc_results" where
  "rtt_template_handle_new_flow event param ccctx =
     (ccctx\<lparr>cur_rate := param ! RTT_TEMPLATE_NEW_FLOW_RATE, start_delay := doca_pcc_dev_get_timestamp event,
            rtt_meas_psn := 0, rtt_req_to_rtt_sent := 1, abort_cnt := 0, was_nack := False\<rparr>,
      \<lparr>rate = param ! RTT_TEMPLATE_NEW_FLOW_RATE, rtt_req = 1\<rparr>)"

text \<open>\<open>counter\<close> is nothing for the null pointer.\<close>

definition count_event :: "nat \<Rightarrow> u32 list option \<Rightarrow> u32 list option option" where
  "count_event i counter =
     (case counter of None \<Rightarrow> Some None
      | Some cs \<Rightarrow> if i < length cs then Some (Some (cs[i := cs ! i + 1])) else None)"

definition rtt_template_algo ::
    "pcc_build \<Rightarrow> recip \<Rightarrow> u32 list \<Rightarrow> mlnx_cc_event \<Rightarrow> u32 list \<Rightarrow> u32 list option \<Rightarrow> cc_ctxt_rtt_template \<Rightarrow> mlnx_cc_results
     \<Rightarrow> (cc_ctxt_rtt_template \<times> mlnx_cc_results \<times> u32 list option) option" where
  "rtt_template_algo build rcp util event param counter ctx results =
     (let ty = ev_type (doca_pcc_dev_get_ev_attr event); cur = cur_rate ctx in
      if length param < RTT_TEMPLATE_PARAM_NUM then None
      else if cur = 0 then let (ctx, results) = rtt_template_handle_new_flow event param ctx in Some (ctx, results, counter)
      else if ty = DOCA_PCC_DEV_EVNT_ROCE_TX then
        do { (ctx, results) \<leftarrow> rtt_template_handle_roce_tx event cur ctx;
             counter \<leftarrow> count_event RTT_TEMPLATE_COUNTER_TX_EVENT counter;
             Some (ctx, results, counter) }
      else if ty = DOCA_PCC_DEV_EVNT_RTT then
        do { (ctx, results) \<leftarrow> rtt_template_handle_roce_rtt build rcp util event cur param ctx;
             counter \<leftarrow> count_event RTT_TEMPLATE_COUNTER_RTT_EVENT counter;
             Some (ctx, results, counter) }
      else if ty = DOCA_PCC_DEV_EVNT_ROCE_CNP then
        let (ctx, results) = rtt_template_handle_roce_cnp cur ctx in Some (ctx, results, counter)
      else if ty = DOCA_PCC_DEV_EVNT_ROCE_NACK then
        let (ctx, results) = rtt_template_handle_roce_nack cur ctx results in Some (ctx, results, counter)
      else Some (ctx, \<lparr>rate = cur, rtt_req = 0\<rparr>, counter))"

datatype doca_pcc_dev_error = DOCA_PCC_DEV_STATUS_OK | DOCA_PCC_DEV_STATUS_FAIL

text \<open>A null pointer is \<open>None\<close>; the arrays are not written.\<close>

definition rtt_template_set_algo_params ::
    "u32 \<Rightarrow> u32 \<Rightarrow> u32 list option \<Rightarrow> u32 list option \<Rightarrow> doca_pcc_dev_error" where
  "rtt_template_set_algo_params param_id_base param_number new_param_values params =
     (if unat param_number > RTT_TEMPLATE_PARAM_NUM \<or> unat param_id_base \<ge> RTT_TEMPLATE_PARAM_NUM then DOCA_PCC_DEV_STATUS_FAIL
      else if new_param_values = None \<or> params = None then DOCA_PCC_DEV_STATUS_FAIL
      else DOCA_PCC_DEV_STATUS_OK)"

section \<open>The reaction point\<close>

definition SAMPLER_THREAD_RANK :: u32 where "SAMPLER_THREAD_RANK = 0"
definition COUNTERS_SAMPLE_WINDOW_IN_MICROSEC :: u32 where "COUNTERS_SAMPLE_WINDOW_IN_MICROSEC = 10"
definition NUM_AVAILABLE_PORTS :: nat where "NUM_AVAILABLE_PORTS = 4"

record pcc_rp_dev =
  current_sampled_tx_bytes :: "u32 list"
  previous_sampled_tx_bytes :: "u32 list"
  last_sample_ts :: u32
  ports_bw :: "u32 list"
  g_utilized_bw :: "u32 list"
  mailbox_done :: bool

text \<open>The globals before anything has run.\<close>

definition rp_globals :: pcc_rp_dev where
  "rp_globals = \<lparr>current_sampled_tx_bytes = replicate NUM_AVAILABLE_PORTS 0,
     previous_sampled_tx_bytes = replicate NUM_AVAILABLE_PORTS 0, last_sample_ts = 0,
     ports_bw = replicate NUM_AVAILABLE_PORTS 0, g_utilized_bw = replicate NUM_AVAILABLE_PORTS 0, mailbox_done = False\<rparr>"

text \<open>
  What one call finds outside: the rank of its thread, the timer, and the values of the configured counters
  should it sample them.
\<close>

record rp_call =
  thread_rank :: u32
  timer :: u64
  nic_counters :: "u32 list"

definition doca_pcc_dev_get_timer_lo :: "rp_call \<Rightarrow> u32" where
  "doca_pcc_dev_get_timer_lo c = ucast (timer c AND 0xffffffff)"

definition diff_with_wrap32 :: "u32 \<Rightarrow> u32 \<Rightarrow> u32" where
  "diff_with_wrap32 greater_num smaller_num =
     (if greater_num < smaller_num then UINT32_MAX - smaller_num + greater_num + 1 else greater_num - smaller_num)"

text \<open>The loop over the ports from port \<open>i\<close> on.\<close>

function port_loop :: "recip \<Rightarrow> u32 \<Rightarrow> nat \<Rightarrow> pcc_rp_dev \<Rightarrow> pcc_rp_dev" where
  "port_loop rcp ts_delta i dev =
     (if i < NUM_AVAILABLE_PORTS
      then let tx_bytes_delta = diff_with_wrap32 (current_sampled_tx_bytes dev ! i) (previous_sampled_tx_bytes dev ! i);
               dev = dev\<lparr>previous_sampled_tx_bytes := (previous_sampled_tx_bytes dev)[i := current_sampled_tx_bytes dev ! i]\<rparr>;
               current_bw = drop_bit 16 (doca_pcc_dev_fxp_mult tx_bytes_delta (rcp ts_delta));
               util = (if current_bw < ports_bw dev ! i
                       then doca_pcc_dev_fxp_mult current_bw (rcp (ports_bw dev ! i)) else push_bit 16 1)
           in port_loop rcp ts_delta (Suc i) (dev\<lparr>g_utilized_bw := (g_utilized_bw dev)[i := util]\<rparr>)
      else dev)"
  by pat_completeness auto
termination by (relation "measure (\<lambda>(_, _, i, _). NUM_AVAILABLE_PORTS - i)") auto

declare port_loop.simps [simp del]

definition thread0_calc_ports_utilization :: "recip \<Rightarrow> rp_call \<Rightarrow> pcc_rp_dev \<Rightarrow> pcc_rp_dev" where
  "thread0_calc_ports_utilization rcp c dev =
     (if thread_rank c = SAMPLER_THREAD_RANK \<and> mailbox_done dev
      then let current_ts = doca_pcc_dev_get_timer_lo c; ts_delta = diff_with_wrap32 current_ts (last_sample_ts dev)
           in if COUNTERS_SAMPLE_WINDOW_IN_MICROSEC \<le> ts_delta
              then let dev = dev\<lparr>current_sampled_tx_bytes := nic_counters c\<rparr>;
                       dev = port_loop rcp ts_delta 0 dev
                   in dev\<lparr>last_sample_ts := current_ts\<rparr>
              else dev
      else dev)"

definition tx_counters_sampling_init :: "rp_call \<Rightarrow> pcc_rp_dev \<Rightarrow> pcc_rp_dev" where
  "tx_counters_sampling_init c dev =
     dev\<lparr>current_sampled_tx_bytes := nic_counters c, last_sample_ts := doca_pcc_dev_get_timer_lo c,
         previous_sampled_tx_bytes := nic_counters c\<rparr>"

text \<open>
  The state of the device with the flow contexts that the library keeps: \<open>algo_params\<close> and \<open>counters\<close> are its
  arrays of a port and a slot, \<open>internal\<close> its own algorithm.
\<close>

record rp_lib =
  algo_params :: "u32 \<Rightarrow> u32 \<Rightarrow> u32 list"
  algo_index :: "u32 \<Rightarrow> u32 \<Rightarrow> u32"
  internal :: "u32 \<Rightarrow> mlnx_cc_event \<Rightarrow> cc_ctxt_rtt_template \<Rightarrow> mlnx_cc_results \<Rightarrow> cc_ctxt_rtt_template \<times> mlnx_cc_results"

definition doca_pcc_dev_user_algo ::
    "pcc_build \<Rightarrow> recip \<Rightarrow> rp_lib \<Rightarrow> rp_call \<Rightarrow> u32 \<Rightarrow> mlnx_cc_event \<Rightarrow> u32 list option \<Rightarrow> pcc_rp_dev \<Rightarrow> cc_ctxt_rtt_template
     \<Rightarrow> mlnx_cc_results \<Rightarrow> (pcc_rp_dev \<times> cc_ctxt_rtt_template \<times> mlnx_cc_results \<times> u32 list option) option" where
  "doca_pcc_dev_user_algo build rcp lib c algo_slot event counter dev ctx results =
     (let port = port_num (doca_pcc_dev_get_ev_attr event);
          param = algo_params lib port algo_slot;
          dev = (if SAMPLE_TX_BYTES build then thread0_calc_ports_utilization rcp c dev else dev)
      in if algo_slot = 0
         then do { (ctx, results, counter) \<leftarrow> rtt_template_algo build rcp (g_utilized_bw dev) event param counter ctx results;
                   Some (dev, ctx, results, counter) }
         else let (ctx, results) = internal lib algo_slot event ctx results in Some (dev, ctx, results, counter))"

text \<open>The slots that are enabled, and the mask of the events to ignore, whose value is the library's.\<close>

definition doca_pcc_dev_user_init :: "pcc_build \<Rightarrow> u32 \<Rightarrow> rp_call \<Rightarrow> pcc_rp_dev \<Rightarrow> (nat \<times> u32 \<times> algo_param list) list \<times> u32 \<times> pcc_rp_dev" where
  "doca_pcc_dev_user_init build ack_mask c dev =
     (map (\<lambda>port. (port, 0, rtt_template_init)) [0..<DOCA_PCC_DEV_MAX_NUM_PORTS], ack_mask,
      if SAMPLE_TX_BYTES build then tx_counters_sampling_init c dev else dev)"

definition doca_pcc_dev_user_set_algo_params ::
    "rp_lib \<Rightarrow> u32 \<Rightarrow> u32 \<Rightarrow> u32 \<Rightarrow> u32 \<Rightarrow> u32 list option \<Rightarrow> u32 list option \<Rightarrow> doca_pcc_dev_error" where
  "doca_pcc_dev_user_set_algo_params lib port algo_slot param_id_base param_number new_param_values params =
     (if algo_slot = 0
      then if algo_index lib port algo_slot = 0
           then rtt_template_set_algo_params param_id_base param_number new_param_values params
           else DOCA_PCC_DEV_STATUS_FAIL
      else DOCA_PCC_DEV_STATUS_OK)"

text \<open>The request is the word it holds; its size is checked first.\<close>

definition doca_pcc_dev_user_mailbox_handle :: "u32 \<Rightarrow> u32 \<Rightarrow> pcc_rp_dev \<Rightarrow> doca_pcc_dev_error \<times> pcc_rp_dev" where
  "doca_pcc_dev_user_mailbox_handle request request_size dev =
     (if request_size \<noteq> 4 then (DOCA_PCC_DEV_STATUS_FAIL, dev)
      else (DOCA_PCC_DEV_STATUS_OK, dev\<lparr>ports_bw := replicate NUM_AVAILABLE_PORTS request, mailbox_done := True\<rparr>))"

text \<open>
  What can happen to a flow and the device: events of the flow with parameters in their declared ranges, calls
  for other flows that sample the counters, and requests of the host. The list holds the results for the flow.
\<close>

inductive rp_reach ::
    "pcc_build \<Rightarrow> recip \<Rightarrow> pcc_rp_dev \<Rightarrow> cc_ctxt_rtt_template \<Rightarrow> mlnx_cc_results list \<Rightarrow> bool" for build rcp where
  start: "doca_pcc_dev_user_init build ack_mask c rp_globals = (slots, bitmask, dev) \<Longrightarrow> length (nic_counters c) = NUM_AVAILABLE_PORTS
    \<Longrightarrow> cur_rate ctx = 0 \<Longrightarrow> rp_reach build rcp dev ctx []"
| event: "rp_reach build rcp dev ctx rs
    \<Longrightarrow> doca_pcc_dev_user_algo build rcp lib c 0 ev counter dev ctx res0 = Some (dev', ctx', res, counter')
    \<Longrightarrow> in_range (algo_params lib (port_num (doca_pcc_dev_get_ev_attr ev)) 0) \<Longrightarrow> length (nic_counters c) = NUM_AVAILABLE_PORTS
    \<Longrightarrow> rp_reach build rcp dev' ctx' (rs @ [res])"
| sampling: "rp_reach build rcp dev ctx rs \<Longrightarrow> length (nic_counters c) = NUM_AVAILABLE_PORTS
    \<Longrightarrow> rp_reach build rcp (thread0_calc_ports_utilization rcp c dev) ctx rs"
| mailbox: "rp_reach build rcp dev ctx rs \<Longrightarrow> doca_pcc_dev_user_mailbox_handle req sz dev = (e, dev')
    \<Longrightarrow> rp_reach build rcp dev' ctx rs"

section \<open>Arithmetic\<close>

lemma unat_fxp_mult: "unat (doca_pcc_dev_fxp_mult a b) = unat a * unat b div 2 ^ 16 mod 2 ^ 32"
proof -
  have a: "unat a < 2 ^ 32" "unat b < 2 ^ 32" using unat_bound [of a] unat_bound [of b] by simp_all
  then have "unat a * unat b < 2 ^ 32 * 2 ^ 32" by (intro mult_strict_mono) simp_all
  then have m: "unat (doca_pcc_dev_mult a b) = unat a * unat b"
    using a by (simp add: doca_pcc_dev_mult_def unat_word_ariths unsigned_ucast_eq take_bit_eq_mod)
  have "(0xffffffff :: u64) = mask 32" by (simp add: mask_eq_exp_minus_1)
  then have "doca_pcc_dev_fxp_mult a b = ucast (take_bit 32 (drop_bit 16 (doca_pcc_dev_mult a b)))"
    by (simp add: doca_pcc_dev_fxp_mult_def take_bit_eq_mask)
  then show ?thesis
    by (simp add: unsigned_ucast_eq m unat_div unat_mod drop_bit_eq_div take_bit_eq_mod)
qed

lemma fxp_mult_le:
  assumes "unat a \<le> 2 ^ 16"
  shows "doca_pcc_dev_fxp_mult a b \<le> b"
proof -
  have "unat a * unat b \<le> 2 ^ 16 * unat b" using assms by (rule mult_le_mono1)
  then have "unat a * unat b div 2 ^ 16 \<le> 2 ^ 16 * unat b div 2 ^ 16" by (rule div_le_mono)
  then have "unat a * unat b div 2 ^ 16 mod 2 ^ 32 \<le> unat b"
    using mod_less_eq_dividend [of "unat a * unat b div 2 ^ 16" "2 ^ 32"] by simp
  then show ?thesis by (simp add: word_le_nat_alt unat_fxp_mult)
qed

text \<open>Both branches are the difference of machine arithmetic.\<close>

lemma diff_with_wrap32_eq: "diff_with_wrap32 a b = a - b"
  by (simp add: diff_with_wrap32_def UINT32_MAX_def)

lemma clamp_bounds:
  assumes "m \<le> DOCA_PCC_DEV_MAX_RATE" and "x = fst (algorithm_core build rcp ctx rtt cur param hu norm)" and "m = param ! RTT_TEMPLATE_MIN_RATE"
  shows "m \<le> x \<and> x \<le> DOCA_PCC_DEV_MAX_RATE"
  using assms by (auto simp: algorithm_core_def Let_def split_beta)

lemma core_rate:
  "fst (algorithm_core build rcp ctx rtt cur param hu norm)
   = max (param ! RTT_TEMPLATE_MIN_RATE) (min DOCA_PCC_DEV_MAX_RATE (fst (adjust_rate build rcp ctx rtt cur param hu norm)))"
  by (auto simp: algorithm_core_def Let_def split_beta max_def min_def not_le not_less)

lemma core_keeps:
  "snd (algorithm_core build rcp ctx rtt cur param hu norm) = ctx'
   \<Longrightarrow> abort_cnt ctx' = abort_cnt ctx \<and> rtt_meas_psn ctx' = rtt_meas_psn ctx"
  by (auto simp: algorithm_core_def adjust_rate_def Let_def split_beta)

lemma in_rangeD:
  assumes "in_range param"
  shows "length param = RTT_TEMPLATE_PARAM_NUM" "1 \<le> param ! RTT_TEMPLATE_NEW_FLOW_RATE"
    "param ! RTT_TEMPLATE_NEW_FLOW_RATE \<le> DOCA_PCC_DEV_MAX_RATE" "1 \<le> param ! RTT_TEMPLATE_MIN_RATE"
    "param ! RTT_TEMPLATE_MIN_RATE \<le> DOCA_PCC_DEV_MAX_RATE" "1 \<le> param ! RTT_TEMPLATE_AI" "param ! RTT_TEMPLATE_AI \<le> AI_MAX"
  using assms
  by (auto simp: in_range_def rtt_template_init_def list_all2_conv_all_nth RTT_TEMPLATE_PARAM_NUM_def nth_Cons' numeral_eq_Suc
      RTT_TEMPLATE_NEW_FLOW_RATE_def RTT_TEMPLATE_MIN_RATE_def RTT_TEMPLATE_AI_def RATE_MAX_def DOCA_PCC_DEV_MAX_RATE_def All_less_Suc)

section \<open>The rate\<close>

definition rate_ok :: "u32 \<Rightarrow> bool" where
  "rate_ok r \<longleftrightarrow> 1 \<le> r \<and> r \<le> DOCA_PCC_DEV_MAX_RATE"

lemma handle_rtt_rate:
  assumes "rtt_template_handle_roce_rtt build rcp util ev cur param ctx = Some (ctx', res)"
    and "in_range param" and "rate_ok cur" and "cur_rate ctx = cur"
  shows "rate_ok (rate res) \<and> cur_rate ctx' = rate res"
proof (cases "rtt_meas_psn ctx = 0 \<and> rtt_req_to_rtt_sent ctx = 0")
  case True
  then show ?thesis using assms by (auto simp: rtt_template_handle_roce_rtt_def)
next
  case False
  then obtain ccctx rtt hu norm where
    "rate res = fst (algorithm_core build rcp ccctx rtt cur param hu norm)" "cur_rate ctx' = rate res"
    using assms(1)
    unfolding rtt_template_handle_roce_rtt_def Let_def bind_eq_Some_conv split_beta if_not_P [OF False] by fastforce
  then show ?thesis
    using clamp_bounds [OF in_rangeD(5) [OF assms(2)] _ refl] in_rangeD(4) [OF assms(2)] order_trans unfolding rate_ok_def by metis
qed

lemma handle_tx_rate:
  assumes "rtt_template_handle_roce_tx ev cur ctx = Some (ctx', res)"
  shows "rate res = cur \<and> cur_rate ctx' = cur"
  using assms by (auto simp: rtt_template_handle_roce_tx_def Let_def bind_eq_Some_conv split_beta)

lemma algo_rate:
  assumes "rtt_template_algo build rcp util ev param counter ctx res0 = Some (ctx', res, counter')"
    and "in_range param" and "cur_rate ctx = 0 \<or> rate_ok (cur_rate ctx)"
  shows "rate_ok (rate res) \<and> cur_rate ctx' = rate res"
proof -
  note r = in_rangeD [OF assms(2)]
  show ?thesis
    using assms(1,3) handle_rtt_rate [OF _ assms(2) _ refl, of build rcp util ev ctx ctx' res] handle_tx_rate [of ev _ ctx ctx' res] r(1-3)
    by (auto simp: rtt_template_algo_def Let_def split_beta bind_eq_Some_conv rtt_template_handle_new_flow_def
        rtt_template_handle_roce_cnp_def rtt_template_handle_roce_nack_def rate_ok_def split: if_split_asm)
qed

section \<open>Utilisation\<close>

text \<open>The reciprocal is not rounded up.\<close>

definition recip_laws :: "recip \<Rightarrow> bool" where
  "recip_laws rcp \<longleftrightarrow> (\<forall>a. unat (rcp a) * unat a \<le> 2 ^ 32)"

definition rp_inv :: "pcc_rp_dev \<Rightarrow> bool" where
  "rp_inv dev \<longleftrightarrow> length (current_sampled_tx_bytes dev) = NUM_AVAILABLE_PORTS \<and> length (previous_sampled_tx_bytes dev) = NUM_AVAILABLE_PORTS
     \<and> length (ports_bw dev) = NUM_AVAILABLE_PORTS \<and> length (g_utilized_bw dev) = NUM_AVAILABLE_PORTS
     \<and> (\<forall>u \<in> set (g_utilized_bw dev). unat u \<le> 2 ^ 16)"

lemma utilisation_le:
  assumes "recip_laws rcp" and "a < b"
  shows "unat (doca_pcc_dev_fxp_mult a (rcp b)) \<le> 2 ^ 16"
proof -
  have "unat a \<le> unat b" using assms(2) by (simp add: word_less_nat_alt)
  then have "unat a * unat (rcp b) \<le> unat b * unat (rcp b)" by (rule mult_le_mono1)
  also have "\<dots> \<le> 2 ^ 32" using assms(1) by (simp add: recip_laws_def mult.commute)
  finally have "unat a * unat (rcp b) div 2 ^ 16 \<le> 2 ^ 32 div 2 ^ 16" by (rule div_le_mono)
  then show ?thesis
    using mod_less_eq_dividend [of "unat a * unat (rcp b) div 2 ^ 16" "2 ^ 32"] by (simp add: unat_fxp_mult)
qed

lemma port_loop_inv: "recip_laws rcp \<Longrightarrow> rp_inv dev \<Longrightarrow> rp_inv (port_loop rcp ts i dev)"
proof (induction rcp ts i dev rule: port_loop.induct)
  case (1 rcp ts i dev)
  have inv: "rp_inv (dev\<lparr>previous_sampled_tx_bytes := p, g_utilized_bw := (g_utilized_bw dev)[i := u]\<rparr>)"
    if "length p = NUM_AVAILABLE_PORTS" "unat u \<le> 2 ^ 16" for p u
    using 1(3) that set_update_subset_insert [of "g_utilized_bw dev" i u] by (auto simp: rp_inv_def)
  have l: "length (previous_sampled_tx_bytes dev) = NUM_AVAILABLE_PORTS" using 1(3) by (simp add: rp_inv_def)
  show ?case
  proof (cases "i < NUM_AVAILABLE_PORTS")
    case True
    show ?thesis
      unfolding port_loop.simps [of rcp ts i dev] Let_def if_P [OF True]
      by (rule 1(1) [OF True refl refl refl refl, unfolded Let_def, OF 1(2)])
        (use 1(2) l in \<open>simp add: inv utilisation_le [simplified]\<close>)
  qed (use 1(3) in \<open>simp add: port_loop.simps\<close>)
qed

lemma sampling_inv:
  assumes "recip_laws rcp" and "rp_inv dev" and "length (nic_counters c) = NUM_AVAILABLE_PORTS"
  shows "rp_inv (thread0_calc_ports_utilization rcp c dev)"
proof -
  have "rp_inv (dev\<lparr>current_sampled_tx_bytes := nic_counters c\<rparr>)" using assms(2,3) by (simp add: rp_inv_def)
  from port_loop_inv [OF assms(1) this] assms(2) show ?thesis
    by (auto simp: thread0_calc_ports_utilization_def Let_def rp_inv_def)
qed

lemma user_algo_parts:
  assumes "doca_pcc_dev_user_algo build rcp lib c 0 ev counter dev ctx res0 = Some (dev', ctx', res, counter')"
  shows "dev' = (if SAMPLE_TX_BYTES build then thread0_calc_ports_utilization rcp c dev else dev)
    \<and> rtt_template_algo build rcp (g_utilized_bw dev') ev (algo_params lib (port_num (doca_pcc_dev_get_ev_attr ev)) 0) counter ctx res0
        = Some (ctx', res, counter')"
  using assms by (auto simp: doca_pcc_dev_user_algo_def Let_def bind_eq_Some_conv)

lemma reach_inv:
  assumes "rp_reach build rcp dev ctx rs" and "recip_laws rcp"
  shows "rp_inv dev"
  using assms(1)
proof (induction rule: rp_reach.induct)
  case (start am c slots bm dev ctx)
  then show ?case
    by (auto simp: doca_pcc_dev_user_init_def tx_counters_sampling_init_def rp_globals_def rp_inv_def split: if_split_asm)
next
  case (event dev ctx rs lib c ev counter res0 dev' ctx' res counter')
  then show ?case using user_algo_parts sampling_inv [OF assms(2)] by metis
next
  case (mailbox dev ctx rs req sz e dev')
  then show ?case by (auto simp: doca_pcc_dev_user_mailbox_handle_def rp_inv_def split: if_split_asm)
qed (simp add: sampling_inv [OF assms(2)])

lemma reach_rates:
  assumes "rp_reach build rcp dev ctx rs"
  shows "(\<forall>r \<in> set rs. rate_ok (rate r)) \<and> cur_rate ctx = (if rs = [] then 0 else rate (last rs))"
  using assms
proof (induction rule: rp_reach.induct)
  case (event dev ctx rs lib c ev counter res0 dev' ctx' res counter')
  then have "cur_rate ctx = 0 \<or> rate_ok (cur_rate ctx)" by (auto split: if_split_asm)
  then have "rate_ok (rate res) \<and> cur_rate ctx' = rate res"
    by (rule algo_rate [OF conjunct2 [OF user_algo_parts [OF event.hyps(2)]] event.hyps(3)])
  then show ?case using event.IH by auto
qed auto

section \<open>Aborted requests\<close>

lemma handle_tx_abort:
  assumes "rtt_template_handle_roce_tx ev cur ctx = Some (ctx', res)"
  shows "unat (abort_cnt ctx') \<le> Suc (unat (abort_cnt ctx))"
proof -
  have "unat (abort_cnt ctx + 1) \<le> Suc (unat (abort_cnt ctx))"
    by (simp add: unat_word_ariths)
  then show ?thesis
    using assms by (auto simp: rtt_template_handle_roce_tx_def Let_def bind_eq_Some_conv split_beta split: if_split_asm)
qed

lemma handle_rtt_abort:
  assumes "rtt_template_handle_roce_rtt build rcp util ev cur param ctx = Some (ctx', res)"
  shows "unat (abort_cnt ctx') \<le> Suc (unat (abort_cnt ctx))"
  using assms core_keeps [OF refl]
  by (auto simp: rtt_template_handle_roce_rtt_def np_rx_norm_def Let_def bind_eq_Some_conv split_beta split: if_split_asm)

lemma reach_abort:
  assumes "rp_reach build rcp dev ctx rs"
  shows "rs \<noteq> [] \<longrightarrow> unat (abort_cnt ctx) \<le> length rs"
  using assms
proof (induction rule: rp_reach.induct)
  case (event dev ctx rs lib c ev counter res0 dev' ctx' res counter')
  note rates = reach_rates [OF event.hyps(1)]
  note algo = conjunct2 [OF user_algo_parts [OF event.hyps(2)]]
  show ?case
  proof (cases "rs = []")
    case True
    then have "cur_rate ctx = 0" using rates by simp
    then have "abort_cnt ctx' = 0"
      using algo by (auto simp: rtt_template_algo_def rtt_template_handle_new_flow_def Let_def split: if_split_asm)
    then show ?thesis by simp
  next
    case False
    then have "rate_ok (cur_rate ctx)" using rates last_in_set [OF False] by simp
    then have "cur_rate ctx \<noteq> 0" by (auto simp: rate_ok_def)
    then have "unat (abort_cnt ctx') \<le> Suc (unat (abort_cnt ctx))"
      using algo handle_tx_abort [of ev _ ctx ctx' res] handle_rtt_abort [of build rcp _ ev _ _ ctx ctx' res]
      by (auto simp: rtt_template_algo_def Let_def split_beta bind_eq_Some_conv
          rtt_template_handle_roce_cnp_def rtt_template_handle_roce_nack_def split: if_split_asm)
    then show ?thesis using event.IH False by simp
  qed
qed auto

lemma tx_defined:
  assumes "unat (abort_cnt ctx) < 32"
  shows "rtt_template_handle_roce_tx ev cur ctx \<noteq> None"
  using assms by (auto simp: rtt_template_handle_roce_tx_def abort_time_def Let_def split_beta bind_eq_None_conv)

lemma rtt_defined:
  assumes "unat (port_num (doca_pcc_dev_get_ev_attr ev)) < length util"
  shows "rtt_template_handle_roce_rtt build rcp util ev cur param ctx \<noteq> None"
  using assms by (auto simp: rtt_template_handle_roce_rtt_def rtt_get_last_tx_port_util_def Let_def split_beta bind_eq_None_conv)

lemma algo_defined:
  assumes "unat (port_num (doca_pcc_dev_get_ev_attr ev)) < length util" and "in_range param" and "length cs = 2"
    and "cur_rate ctx = 0 \<or> unat (abort_cnt ctx) < 32"
  shows "rtt_template_algo build rcp util ev param (Some cs) ctx res0 \<noteq> None"
proof -
  obtain c1 c2 where c: "count_event RTT_TEMPLATE_COUNTER_TX_EVENT (Some cs) = Some c1" "count_event RTT_TEMPLATE_COUNTER_RTT_EVENT (Some cs) = Some c2"
    using assms(3) by (simp add: count_event_def RTT_TEMPLATE_COUNTER_TX_EVENT_def RTT_TEMPLATE_COUNTER_RTT_EVENT_def)
  obtain rr where rr: "rtt_template_handle_roce_rtt build rcp util ev (cur_rate ctx) param ctx = Some rr"
    using rtt_defined [OF assms(1)] by fastforce
  show ?thesis
  proof (cases "cur_rate ctx = 0")
    case True
    then show ?thesis using in_rangeD(1) [OF assms(2)] by (simp add: rtt_template_algo_def Let_def split_beta)
  next
    case False
    then obtain rt where rt: "rtt_template_handle_roce_tx ev (cur_rate ctx) ctx = Some rt"
      using tx_defined [of ctx] assms(4) by fastforce
    show ?thesis using False in_rangeD(1) [OF assms(2)] by (simp add: rtt_template_algo_def Let_def split_beta c rr rt)
  qed
qed

section \<open>Properties\<close>

text \<open>A run of events of one flow, all with the same parameters and sampled values.\<close>

fun feed ::
    "pcc_build \<Rightarrow> recip \<Rightarrow> rp_lib \<Rightarrow> rp_call \<Rightarrow> mlnx_cc_event list \<Rightarrow> pcc_rp_dev \<times> cc_ctxt_rtt_template \<times> mlnx_cc_results list
     \<Rightarrow> (pcc_rp_dev \<times> cc_ctxt_rtt_template \<times> mlnx_cc_results list) option" where
  "feed build rcp lib c [] s = Some s"
| "feed build rcp lib c (ev # evs) s =
     do { (dev, ctx, res, _) \<leftarrow> doca_pcc_dev_user_algo build rcp lib c 0 ev (Some [0, 0]) (fst s) (fst (snd s)) \<lparr>rate = 0, rtt_req = 0\<rparr>;
          feed build rcp lib c evs (dev, ctx, snd (snd s) @ [res]) }"

lemma feed_reach:
  assumes "\<And>port. in_range (algo_params lib port 0)" and "length (nic_counters c) = NUM_AVAILABLE_PORTS"
  shows "feed build rcp lib c evs s = Some (dev', ctx', rs') \<Longrightarrow> rp_reach build rcp (fst s) (fst (snd s)) (snd (snd s))
    \<Longrightarrow> rp_reach build rcp dev' ctx' rs'"
proof (induction evs arbitrary: s)
  case (Cons ev evs)
  then obtain dev ctx res cnt where
    a: "doca_pcc_dev_user_algo build rcp lib c 0 ev (Some [0, 0]) (fst s) (fst (snd s)) \<lparr>rate = 0, rtt_req = 0\<rparr> = Some (dev, ctx, res, cnt)"
      "feed build rcp lib c evs (dev, ctx, snd (snd s) @ [res]) = Some (dev', ctx', rs')"
    by (auto simp: bind_eq_Some_conv)
  show ?case
    by (rule Cons.IH [OF a(2)]) (simp add: rp_reach.event [OF Cons.prems(2) a(1) assms])
qed auto

definition rcp_div :: recip where "rcp_div a = of_nat (2 ^ 32 div unat a)"

lemma rcp_div_laws: "recip_laws rcp_div"
proof -
  have "unat (rcp_div a) * unat a \<le> 2 ^ 32" for a
  proof -
    have "unat (rcp_div a) \<le> 2 ^ 32 div unat a" by (simp add: rcp_div_def unat_of_nat)
    then have "unat (rcp_div a) * unat a \<le> 2 ^ 32 div unat a * unat a" by (rule mult_le_mono1)
    also have "\<dots> \<le> 2 ^ 32" by (rule div_times_less_eq_dividend)
    finally show ?thesis .
  qed
  then show ?thesis by (simp add: recip_laws_def)
qed

definition default_params :: "u32 list" where "default_params = map default_value rtt_template_init"

lemma default_params_in_range: "in_range default_params"
  unfolding in_range_def default_params_def by code_simp

definition default_lib :: rp_lib where
  "default_lib = \<lparr>algo_params = (\<lambda>_ _. default_params), algo_index = (\<lambda>_ _. 0), internal = (\<lambda>_ _ ctx res. (ctx, res))\<rparr>"

definition some_call :: rp_call where
  "some_call = \<lparr>thread_rank = 0, timer = 100, nic_counters = [4000, 0, 0, 0]\<rparr>"

definition plain_build :: pcc_build where
  "plain_build = \<lparr>SAMPLE_TX_BYTES = True, NP_RX_RATE = False, TIME_SYNC = False\<rparr>"

definition zero_ctx :: cc_ctxt_rtt_template where
  "zero_ctx = \<lparr>cur_rate = 0, start_delay = 0, ctx_rtt = 0, was_nack = False, was_cnp = False, abort_cnt = 0, rtt_meas_psn = 0,
     rtt_req_to_rtt_sent = 0, last_np_rx_bytes = 0, last_np_rx_bytes_timestamp_us = 0\<rparr>"

definition start_state :: "pcc_rp_dev \<times> cc_ctxt_rtt_template \<times> mlnx_cc_results list" where
  "start_state = (snd (snd (doca_pcc_dev_user_init plain_build 16 (some_call\<lparr>timer := 0\<rparr>) rp_globals)), zero_ctx, [])"

lemma start_reach: "rp_reach plain_build rcp_div (fst start_state) (fst (snd start_state)) (snd (snd start_state))"
proof -
  obtain slots bm dev where i: "doca_pcc_dev_user_init plain_build 16 (some_call\<lparr>timer := 0\<rparr>) rp_globals = (slots, bm, dev)"
    by (cases "doca_pcc_dev_user_init plain_build 16 (some_call\<lparr>timer := 0\<rparr>) rp_globals") auto
  show ?thesis
    unfolding start_state_def i by (simp add: rp_reach.start [OF i] some_call_def NUM_AVAILABLE_PORTS_def zero_ctx_def)
qed

lemma feed_start_reach:
  "feed plain_build rcp_div default_lib some_call evs start_state = Some (dev, ctx, rs) \<Longrightarrow> rp_reach plain_build rcp_div dev ctx rs"
  by (rule feed_reach [OF _ _ _ start_reach])
    (simp_all add: default_lib_def default_params_in_range some_call_def NUM_AVAILABLE_PORTS_def)

definition mk_event :: "u32 \<Rightarrow> u32 \<Rightarrow> u32 \<Rightarrow> u32 \<Rightarrow> mlnx_cc_event" where
  "mk_event ty fl ts sent = \<lparr>raw_attr = be32 (ty OR push_bit 24 fl), raw_timestamp = be32 ts, spec_0 = be32 sent, spec_1 = 0, spec_2 = 0\<rparr>"


definition short_run :: "mlnx_cc_event list" where
  "short_run = [mk_event 3 0 1000 0, mk_event 2 0 1200 0, mk_event 6 0 30000 1100, mk_event 6 0 39000 31000]"




definition quiet_build :: pcc_build where
  "quiet_build = \<lparr>SAMPLE_TX_BYTES = False, NP_RX_RATE = False, TIME_SYNC = False\<rparr>"

definition late_event :: mlnx_cc_event where "late_event = mk_event 3 0 0xfffffff0 0"

lemma late_event_parts:
  "ev_type (doca_pcc_dev_get_ev_attr late_event) = DOCA_PCC_DEV_EVNT_ROCE_TX" "port_num (doca_pcc_dev_get_ev_attr late_event) = 0"
  "flags (doca_pcc_dev_get_ev_attr late_event) = 0" "doca_pcc_dev_get_timestamp late_event = 0xfffffff0"
  by code_simp+

lemma abort_time_late: "k < 32 \<Longrightarrow> push_bit k ABORT_TIME < 0xfffffff0"
proof -
  have "\<forall>k \<in> set [0..<32]. push_bit k ABORT_TIME < (0xfffffff0 :: u32)" by code_simp
  then show "k < 32 \<Longrightarrow> push_bit k ABORT_TIME < 0xfffffff0" by simp
qed

text \<open>A flow that has sent its request at time 0 and seen \<open>k\<close> aborts.\<close>

definition aborted :: "nat \<Rightarrow> cc_ctxt_rtt_template" where
  "aborted k = zero_ctx\<lparr>cur_rate := 1048576, rtt_meas_psn := 1, rtt_req_to_rtt_sent := (if k = 0 then 0 else 1), abort_cnt := of_nat k\<rparr>"

lemma late_event_step:
  assumes "k \<le> 32"
  shows "doca_pcc_dev_user_algo quiet_build rcp default_lib c 0 late_event (Some [0, 0]) dev (aborted k) r0
    = (if k < 32 then Some (dev, aborted (Suc k), \<lparr>rate = 1048576, rtt_req = 1\<rparr>, Some [1, 0]) else None)"
proof -
  have "unat (of_nat k :: u8) = k" using assms by (simp add: unat_of_nat)
  then have t: "abort_time (of_nat k) = (if k < 32 then Some (push_bit k ABORT_TIME) else None)" by (simp add: abort_time_def)
  have l: "length default_params = RTT_TEMPLATE_PARAM_NUM" by (rule in_rangeD(1) [OF default_params_in_range])
  show ?thesis
    using abort_time_late [of k]
    by (simp add: doca_pcc_dev_user_algo_def quiet_build_def default_lib_def rtt_template_algo_def l late_event_parts aborted_def zero_ctx_def
        rtt_template_handle_roce_tx_def t count_event_def RTT_TEMPLATE_COUNTER_TX_EVENT_def)
qed

lemma late_events_reach:
  assumes "rp_reach quiet_build rcp dev (aborted 0) rs" and "k \<le> 32"
  shows "\<exists>rs'. rp_reach quiet_build rcp dev (aborted k) (rs @ rs') \<and> length rs' = k"
  using assms(2)
proof (induction k)
  case (Suc k)
  then obtain rs' where r: "rp_reach quiet_build rcp dev (aborted k) (rs @ rs')" "length rs' = k" by auto
  have s: "doca_pcc_dev_user_algo quiet_build rcp default_lib some_call 0 late_event (Some [0, 0]) dev (aborted k) r0
      = Some (dev, aborted (Suc k), \<lparr>rate = 1048576, rtt_req = 1\<rparr>, Some [1, 0])" for r0
    using late_event_step [of k] Suc.prems by simp
  have "rp_reach quiet_build rcp dev (aborted (Suc k)) ((rs @ rs') @ [\<lparr>rate = 1048576, rtt_req = 1\<rparr>])"
    by (rule rp_reach.event [OF r(1) s]) (simp_all add: default_lib_def default_params_in_range some_call_def NUM_AVAILABLE_PORTS_def)
  then show ?case using r(2) by (intro exI [of _ "rs' @ [\<lparr>rate = 1048576, rtt_req = 1\<rparr>]"]) simp
qed (use assms(1) in auto)

text \<open>C35. A flow whose round trip times stay lost runs into undefined behaviour: the count of aborted requests is not
  bounded, and after 34 events the next transmission shifts a 32 bit value by 32.\<close>

theorem pcc_abort_shift_overflow:
  "\<exists>dev ctx rs ev. rp_reach quiet_build rcp_div dev ctx rs \<and> length rs = 34
     \<and> unat (port_num (doca_pcc_dev_get_ev_attr ev)) < NUM_AVAILABLE_PORTS
     \<and> doca_pcc_dev_user_algo quiet_build rcp_div default_lib some_call 0 ev (Some [0, 0]) dev ctx \<lparr>rate = 0, rtt_req = 0\<rparr> = None"
proof -
  have i: "doca_pcc_dev_user_init quiet_build 16 some_call rp_globals = (map (\<lambda>p. (p, 0, rtt_template_init)) [0..<DOCA_PCC_DEV_MAX_NUM_PORTS], 16, rp_globals)"
    by (simp add: doca_pcc_dev_user_init_def quiet_build_def)
  have r0: "rp_reach quiet_build rcp_div rp_globals zero_ctx []"
    by (rule rp_reach.start [OF i]) (simp_all add: some_call_def NUM_AVAILABLE_PORTS_def zero_ctx_def)
  have "map_option (\<lambda>s. (fst s, fst (snd s), length (snd (snd s))))
      (feed quiet_build rcp_div default_lib some_call [mk_event 3 0 0 0, mk_event 3 4 0 0] (rp_globals, zero_ctx, []))
    = Some (rp_globals, aborted 0, 2)" by code_simp
  then obtain rs where f: "feed quiet_build rcp_div default_lib some_call [mk_event 3 0 0 0, mk_event 3 4 0 0] (rp_globals, zero_ctx, [])
      = Some (rp_globals, aborted 0, rs)" "length rs = 2"
    by auto
  have "rp_reach quiet_build rcp_div rp_globals (aborted 0) rs"
    by (rule feed_reach [OF _ _ f(1)]) (simp_all add: r0 default_lib_def default_params_in_range some_call_def NUM_AVAILABLE_PORTS_def)
  from late_events_reach [OF this, of 32] f(2) obtain rs' where
    "rp_reach quiet_build rcp_div rp_globals (aborted 32) rs'" "length rs' = 34" by auto
  moreover have "unat (port_num (doca_pcc_dev_get_ev_attr late_event)) < NUM_AVAILABLE_PORTS"
    by (simp add: late_event_parts NUM_AVAILABLE_PORTS_def)
  ultimately show ?thesis using late_event_step [of 32] by fastforce
qed

lemma factor_le:
  assumes "unat k * unat uf \<le> 2 ^ 16"
  shows "unat (push_bit 16 1 - k * uf :: u32) \<le> 2 ^ 16"
proof -
  have "unat (k * uf) \<le> 2 ^ 16"
    using assms by (simp add: unat_word_ariths)
  then have "k * uf \<le> push_bit 16 1" by (simp add: word_le_nat_alt push_bit_eq_mult)
  then show ?thesis by (simp add: unat_sub push_bit_eq_mult)
qed

lemma adjust_lowers:
  assumes "10 * unat (param ! RTT_TEMPLATE_UPDATE_FACTOR) \<le> 2 ^ 16"
    and "was_cnp ctx \<or> param ! RTT_TEMPLATE_MAX_DELAY \<le> rtt \<or> param ! RTT_TEMPLATE_BASE_RTT < rtt"
  shows "fst (adjust_rate build rcp ctx rtt cur param hu norm) \<le> cur"
proof -
  let ?uf = "param ! RTT_TEMPLATE_UPDATE_FACTOR"
  have m: "doca_pcc_dev_fxp_mult (push_bit 16 1 - k * ?uf) cur \<le> cur" if "unat k \<le> 10" for k
    by (rule fxp_mult_le, rule factor_le, rule order_trans [OF mult_le_mono1 [OF that] assms(1)])
  have f: "doca_pcc_dev_fxp_mult (DEC_FACTOR param) cur \<le> cur" "doca_pcc_dev_fxp_mult (CNP_DEC_FACTOR param) cur \<le> cur"
      "doca_pcc_dev_fxp_mult (NACK_DEC_FACTOR param) cur \<le> cur" "doca_pcc_dev_fxp_mult (HIGH_UTIL_DEC_FACTOR param) cur \<le> cur"
      "doca_pcc_dev_fxp_mult (HIGH_UTIL_CNP_DEC_FACTOR param) cur \<le> cur" "doca_pcc_dev_fxp_mult (HIGH_UTIL_NACK_DEC_FACTOR param) cur \<le> cur"
    unfolding DEC_FACTOR_def CNP_DEC_FACTOR_def NACK_DEC_FACTOR_def HIGH_UTIL_DEC_FACTOR_def HIGH_UTIL_CNP_DEC_FACTOR_def
      HIGH_UTIL_NACK_DEC_FACTOR_def
    using m [of 1] m [of 2] m [of 4] m [of 5] m [of 10] by simp_all
  show ?thesis using assms(2) f by (auto simp: adjust_rate_def)
qed



text \<open>
  The largest update factor that the declared range allows turns a notification of congestion into an
  increase, because the factor wraps below zero.
\<close>

lemma pcc_update_factor_wraps:
  "in_range (default_params[RTT_TEMPLATE_UPDATE_FACTOR := 65536])
   \<and> fst (algorithm_core plain_build rcp_div (zero_ctx\<lparr>was_cnp := True\<rparr>) 9000 1000
        (default_params[RTT_TEMPLATE_UPDATE_FACTOR := 65536]) False 65536) = DOCA_PCC_DEV_MAX_RATE"
  unfolding in_range_def default_params_def by code_simp

end
