(* ===== verification/Urom_Cmd.thy ===== *)
theory Urom_Cmd
  imports Prelude
begin

text \<open>
  The commands of the RDMO plugin: how the host packs them (\<^verbatim>\<open>urom_rdmo/host/worker_rdmo.c\<close>), how the worker on
  the DPU unpacks them (\<^verbatim>\<open>urom_rdmo/dpu/worker_rdmo.c\<close>), and the notifications on the way back. Buffers are
  lists of bytes, the structures of \<^verbatim>\<open>urom_rdmo.h\<close> are their 64 bit words in little-endian order, and a pointer is
  an address in the memory of the host or in the received buffer.
\<close>

section \<open>Words in a buffer\<close>

definition le64 :: "u64 \<Rightarrow> u8 list" where
  "le64 w = map (GET_BYTE w) [0..<8]"

definition rd64 :: "u8 list \<Rightarrow> nat \<Rightarrow> u64 option" where
  "rd64 buf i =
     (if i + 8 \<le> length buf
      then Some (SET_BYTE (buf ! i) 0 OR SET_BYTE (buf ! (i + 1)) 1 OR SET_BYTE (buf ! (i + 2)) 2 OR SET_BYTE (buf ! (i + 3)) 3
             OR SET_BYTE (buf ! (i + 4)) 4 OR SET_BYTE (buf ! (i + 5)) 5 OR SET_BYTE (buf ! (i + 6)) 6 OR SET_BYTE (buf ! (i + 7)) 7)
      else None)"

definition write_at :: "nat \<Rightarrow> u8 list \<Rightarrow> u8 list \<Rightarrow> u8 list option" where
  "write_at i bs buf = (if i + length bs \<le> length buf then Some (take i buf @ bs @ drop (i + length bs) buf) else None)"

text \<open>Reading the words of a structure.\<close>

fun rd_words :: "nat \<Rightarrow> u8 list \<Rightarrow> nat \<Rightarrow> u64 list option" where
  "rd_words 0 buf i = Some []"
| "rd_words (Suc n) buf i = do { w \<leftarrow> rd64 buf i; ws \<leftarrow> rd_words n buf (i + 8); Some (w # ws) }"

text \<open>The memory of the host process; a copy from an address that is not mapped is undefined.\<close>

type_synonym host_mem = "u64 \<Rightarrow> u8 option"

fun rd_mem :: "host_mem \<Rightarrow> u64 \<Rightarrow> nat \<Rightarrow> u8 list option" where
  "rd_mem mem a 0 = Some []"
| "rd_mem mem a (Suc n) = do { b \<leftarrow> mem a; bs \<leftarrow> rd_mem mem (a + 1) n; Some (b # bs) }"

section \<open>Commands\<close>

definition UROM_WORKER_CMD_RDMO_CLIENT_INIT :: u64 where "UROM_WORKER_CMD_RDMO_CLIENT_INIT = 0"
definition UROM_WORKER_CMD_RDMO_RQ_CREATE :: u64 where "UROM_WORKER_CMD_RDMO_RQ_CREATE = 1"
definition UROM_WORKER_CMD_RDMO_RQ_DESTROY :: u64 where "UROM_WORKER_CMD_RDMO_RQ_DESTROY = 2"
definition UROM_WORKER_CMD_RDMO_MR_REG :: u64 where "UROM_WORKER_CMD_RDMO_MR_REG = 3"
definition UROM_WORKER_CMD_RDMO_MR_DEREG :: u64 where "UROM_WORKER_CMD_RDMO_MR_DEREG = 4"

lemmas cmd_types = UROM_WORKER_CMD_RDMO_CLIENT_INIT_def UROM_WORKER_CMD_RDMO_RQ_CREATE_def UROM_WORKER_CMD_RDMO_RQ_DESTROY_def
  UROM_WORKER_CMD_RDMO_MR_REG_def UROM_WORKER_CMD_RDMO_MR_DEREG_def

text \<open>
  The command is its type and the six words of the union. Client init has the words id, address and length;
  RQ create address and length; MR register the region, the remote key with its length and the memory
  handle with its length; the two others one word.
\<close>

record urom_worker_rdmo_cmd =
  cmd_type :: u64
  cmd_union :: "u64 list"

definition CMD_SIZE :: nat where "CMD_SIZE = 56"

definition cmd_words :: "urom_worker_rdmo_cmd \<Rightarrow> u64 list" where
  "cmd_words cmd = cmd_type cmd # cmd_union cmd"

definition cmd_bytes :: "urom_worker_rdmo_cmd \<Rightarrow> u8 list" where
  "cmd_bytes cmd = concat (map le64 (cmd_words cmd))"

definition rd_cmd :: "u8 list \<Rightarrow> urom_worker_rdmo_cmd option" where
  "rd_cmd buf = do { ws \<leftarrow> rd_words 7 buf 0; Some \<lparr>cmd_type = hd ws, cmd_union = tl ws\<rparr> }"

definition urom_worker_rdmo_cmd_packed_len :: "urom_worker_rdmo_cmd \<Rightarrow> u64" where
  "urom_worker_rdmo_cmd_packed_len cmd =
     (let u = cmd_union cmd; pack_len = of_nat CMD_SIZE in
      if cmd_type cmd = UROM_WORKER_CMD_RDMO_CLIENT_INIT then pack_len + u ! 2
      else if cmd_type cmd = UROM_WORKER_CMD_RDMO_RQ_CREATE then pack_len + u ! 1
      else if cmd_type cmd = UROM_WORKER_CMD_RDMO_MR_REG then pack_len + u ! 3 + u ! 5
      else pack_len)"

text \<open>A piece of memory is copied behind what is packed so far.\<close>

definition pack_raw :: "host_mem \<Rightarrow> u64 \<Rightarrow> u64 \<Rightarrow> u64 \<times> u8 list \<Rightarrow> (u64 \<times> u8 list) option" where
  "pack_raw mem addr len s =
     do { bs \<leftarrow> rd_mem mem addr (unat len); buf \<leftarrow> write_at (unat (fst s)) bs (snd s); Some (fst s + len, buf) }"

definition urom_worker_rdmo_cmd_pack ::
    "host_mem \<Rightarrow> urom_worker_rdmo_cmd \<Rightarrow> u64 \<Rightarrow> u8 list \<Rightarrow> (doca_error \<times> u64 \<times> u8 list) option" where
  "urom_worker_rdmo_cmd_pack mem cmd packed_cmd_len packed_cmd =
     (if urom_worker_rdmo_cmd_packed_len cmd > packed_cmd_len then Some (DOCA_ERROR_INITIALIZATION, packed_cmd_len, packed_cmd)
      else
        do { buf \<leftarrow> write_at 0 (cmd_bytes cmd) packed_cmd;
             let u = cmd_union cmd;
             let s = (of_nat CMD_SIZE, buf);
             (len, buf) \<leftarrow>
               (if cmd_type cmd = UROM_WORKER_CMD_RDMO_CLIENT_INIT then pack_raw mem (u ! 1) (u ! 2) s
                else if cmd_type cmd = UROM_WORKER_CMD_RDMO_RQ_CREATE then pack_raw mem (u ! 0) (u ! 1) s
                else if cmd_type cmd = UROM_WORKER_CMD_RDMO_MR_REG then
                  do { s \<leftarrow> pack_raw mem (u ! 2) (u ! 3) s; pack_raw mem (u ! 4) (u ! 5) s }
                else Some s);
             Some (DOCA_SUCCESS, len, buf) })"

section \<open>The tasks of the host\<close>

text \<open>
  What the library answers for one task: the results of the allocation, of the two accesses to the payload
  and of the submission, and the payload, whose length is the capacity. A task is submitted with its payload
  or released.
\<close>

record task_env =
  task_alloc :: doca_error
  task_get_data :: doca_error
  task_get_len :: doca_error
  task_payload :: "u8 list"
  task_submit :: doca_error

datatype task_out = Not_allocated | Released | Submitted "u8 list"

text \<open>
  The common frame of the task functions: the fields of the command are set in the payload, whose other
  words stay, it is packed in place, and whatever packing returns the payload gets the length it left.
\<close>

definition populate :: "u64 \<Rightarrow> (nat \<times> u64) list \<Rightarrow> urom_worker_rdmo_cmd \<Rightarrow> urom_worker_rdmo_cmd" where
  "populate ty args cmd = \<lparr>cmd_type = ty, cmd_union = fold (\<lambda>(i, v) u. u[i := v]) args (cmd_union cmd)\<rparr>"

definition rdmo_task :: "task_env \<Rightarrow> host_mem \<Rightarrow> u64 \<Rightarrow> (nat \<times> u64) list \<Rightarrow> (doca_error \<times> task_out) option" where
  "rdmo_task env mem ty args =
     (if task_alloc env \<noteq> DOCA_SUCCESS then Some (task_alloc env, Not_allocated)
      else if task_get_data env \<noteq> DOCA_SUCCESS then Some (task_get_data env, Released)
      else if task_get_len env \<noteq> DOCA_SUCCESS then Some (task_get_len env, Released)
      else
        do { cmd0 \<leftarrow> rd_cmd (task_payload env);
             let cmd = populate ty args cmd0;
             buf \<leftarrow> write_at 0 (cmd_bytes cmd) (task_payload env);
             (_, pack_len, buf) \<leftarrow> urom_worker_rdmo_cmd_pack mem cmd (of_nat (length (task_payload env))) buf;
             if task_submit env \<noteq> DOCA_SUCCESS then Some (task_submit env, Released)
             else Some (DOCA_SUCCESS, Submitted (take (unat pack_len) buf)) })"

definition urom_rdmo_task_client_init :: "task_env \<Rightarrow> host_mem \<Rightarrow> u64 \<Rightarrow> u64 \<Rightarrow> u64 \<Rightarrow> (doca_error \<times> task_out) option" where
  "urom_rdmo_task_client_init env mem client_id addr addr_len =
     rdmo_task env mem UROM_WORKER_CMD_RDMO_CLIENT_INIT [(0, client_id), (1, addr), (2, addr_len)]"

definition urom_rdmo_task_rq_create :: "task_env \<Rightarrow> host_mem \<Rightarrow> u64 \<Rightarrow> u64 \<Rightarrow> (doca_error \<times> task_out) option" where
  "urom_rdmo_task_rq_create env mem addr addr_len =
     rdmo_task env mem UROM_WORKER_CMD_RDMO_RQ_CREATE [(0, addr), (1, addr_len)]"

definition urom_rdmo_task_rq_destroy :: "task_env \<Rightarrow> host_mem \<Rightarrow> u64 \<Rightarrow> (doca_error \<times> task_out) option" where
  "urom_rdmo_task_rq_destroy env mem rq_id = rdmo_task env mem UROM_WORKER_CMD_RDMO_RQ_DESTROY [(0, rq_id)]"

definition urom_rdmo_task_mr_register ::
    "task_env \<Rightarrow> host_mem \<Rightarrow> u64 \<Rightarrow> u64 \<Rightarrow> u64 \<Rightarrow> u64 \<Rightarrow> u64 \<Rightarrow> u64 \<Rightarrow> (doca_error \<times> task_out) option" where
  "urom_rdmo_task_mr_register env mem va len rkey rkey_len memh memh_len =
     rdmo_task env mem UROM_WORKER_CMD_RDMO_MR_REG [(0, va), (1, len), (2, rkey), (3, rkey_len), (4, memh), (5, memh_len)]"

definition urom_rdmo_task_mr_deregister :: "task_env \<Rightarrow> host_mem \<Rightarrow> u64 \<Rightarrow> (doca_error \<times> task_out) option" where
  "urom_rdmo_task_mr_deregister env mem rkey_id = rdmo_task env mem UROM_WORKER_CMD_RDMO_MR_DEREG [(0, rkey_id)]"

section \<open>Unpacking on the worker\<close>

text \<open>
  \<open>base\<close> is the address of the plugin command in the received buffer and \<open>len\<close> the length in its header. The
  pointers are set to the inline data behind the command before the length is compared.
\<close>

definition urom_worker_rdmo_cmd_unpack ::
    "u64 \<Rightarrow> u64 \<Rightarrow> u8 list \<Rightarrow> (doca_error \<times> urom_worker_rdmo_cmd option) option" where
  "urom_worker_rdmo_cmd_unpack base len buf =
     (if len < of_nat CMD_SIZE then Some (DOCA_ERROR_INVALID_VALUE, None)
      else
        do { cmd \<leftarrow> rd_cmd buf;
             let u = cmd_union cmd;
             let ptr = base + of_nat CMD_SIZE;
             let (u, extended_mem) =
                   (if cmd_type cmd = UROM_WORKER_CMD_RDMO_CLIENT_INIT then (u[1 := ptr], u ! 2)
                    else if cmd_type cmd = UROM_WORKER_CMD_RDMO_RQ_CREATE then (u[0 := ptr], u ! 1)
                    else if cmd_type cmd = UROM_WORKER_CMD_RDMO_MR_REG then (u[2 := ptr, 4 := ptr + u ! 3], u ! 3 + u ! 5)
                    else (u, 0));
             let cmd = cmd\<lparr>cmd_union := u\<rparr>;
             if len \<noteq> extended_mem + of_nat CMD_SIZE then Some (DOCA_ERROR_INVALID_VALUE, Some cmd)
             else Some (DOCA_SUCCESS, Some cmd) })"

text \<open>What the worker reads through a pointer of an unpacked command.\<close>

definition rd_buf :: "u64 \<Rightarrow> u8 list \<Rightarrow> u64 \<Rightarrow> u64 \<Rightarrow> u8 list option" where
  "rd_buf base buf addr len =
     (let i = unat (addr - base) in if i + unat len \<le> length buf then Some (take (unat len) (drop i buf)) else None)"

section \<open>Words and bytes\<close>

lemma length_le64 [simp]: "length (le64 w) = 8"
  by (simp add: le64_def)

lemma bit_SET_GET: "bit (SET_BYTE (GET_BYTE w k) k :: u64) n \<longleftrightarrow> n div 8 = k \<and> n < 64 \<and> bit (w :: u64) n"
proof (cases "k * 8 \<le> n")
  case True
  then have "n - k * 8 < 8 \<longleftrightarrow> n div 8 = k" by linarith
  with True show ?thesis by (simp add: bit_SET_BYTE bit_GET_BYTE conj_ac)
next
  case False
  then have "n div 8 \<noteq> k" by linarith
  with False show ?thesis by (simp add: bit_SET_BYTE)
qed

lemma le64_bytes: "SET_BYTE (GET_BYTE w 0) 0 OR SET_BYTE (GET_BYTE w 1) 1 OR SET_BYTE (GET_BYTE w 2) 2 OR SET_BYTE (GET_BYTE w 3) 3
   OR SET_BYTE (GET_BYTE w 4) 4 OR SET_BYTE (GET_BYTE w 5) 5 OR SET_BYTE (GET_BYTE w 6) 6 OR SET_BYTE (GET_BYTE w 7) 7 = (w :: u64)"
  (is "?l = w")
proof (rule bit_word_eqI)
  fix n assume n: "n < LENGTH(64)"
  then have "n div 8 < 8" by simp
  then have "n div 8 = 0 \<or> n div 8 = 1 \<or> n div 8 = 2 \<or> n div 8 = 3 \<or> n div 8 = 4 \<or> n div 8 = 5 \<or> n div 8 = 6 \<or> n div 8 = 7"
    by linarith
  moreover have "n < 64" using n by simp
  ultimately show "bit ?l n = bit w n"
    unfolding bit_or_iff bit_SET_GET by blast
qed

lemma rd64_le64: "rd64 (xs @ le64 w @ ys) (length xs) = Some w"
proof -
  have "le64 w = [GET_BYTE w 0, GET_BYTE w 1, GET_BYTE w 2, GET_BYTE w 3, GET_BYTE w 4, GET_BYTE w 5, GET_BYTE w 6, GET_BYTE w 7]"
    by (simp add: le64_def upt_rec numeral_eq_Suc)
  then show ?thesis using le64_bytes [of w] by (simp add: rd64_def nth_append numeral_eq_Suc)
qed

lemma rd_words_concat:
  "rd_words (length ws) (xs @ concat (map le64 ws) @ ys) (length xs) = Some ws"
proof (induction ws arbitrary: xs)
  case (Cons w ws)
  have "rd_words (length ws) ((xs @ le64 w) @ concat (map le64 ws) @ ys) (length (xs @ le64 w)) = Some ws" by (rule Cons)
  then show ?case using rd64_le64 [of xs w "concat (map le64 ws) @ ys"] by simp
qed simp

lemma length_concat_le64: "length (concat (map le64 ws)) = 8 * length ws"
  by (induction ws) simp_all

lemma rd_cmd_bytes:
  assumes "length (cmd_union cmd) = 6"
  shows "rd_cmd (cmd_bytes cmd @ ys) = Some cmd"
  using rd_words_concat [of "cmd_words cmd" "[]" ys] assms by (simp add: rd_cmd_def cmd_bytes_def cmd_words_def eval_nat_numeral)

lemma length_cmd_bytes: "length (cmd_union cmd) = 6 \<Longrightarrow> length (cmd_bytes cmd) = CMD_SIZE"
  by (simp add: cmd_bytes_def length_concat_le64 cmd_words_def CMD_SIZE_def)

lemma rd_words_length: "rd_words n buf i = Some ws \<Longrightarrow> length ws = n"
  by (induction n arbitrary: i ws) (auto simp: bind_eq_Some_conv)

lemma rd_cmd_union: "rd_cmd buf = Some cmd \<Longrightarrow> length (cmd_union cmd) = 6"
  by (auto simp: rd_cmd_def bind_eq_Some_conv dest: rd_words_length)

lemma rd_words_some: "i + 8 * n \<le> length buf \<Longrightarrow> \<exists>ws. rd_words n buf i = Some ws"
proof (induction n arbitrary: i)
  case (Suc n)
  have "i + 8 + 8 * n \<le> length buf" using Suc.prems by simp
  then obtain ws where "rd_words n buf (i + 8) = Some ws" using Suc.IH by blast
  then show ?case using Suc.prems by (simp add: rd64_def)
qed simp

lemma rd_cmd_some: "CMD_SIZE \<le> length buf \<Longrightarrow> \<exists>cmd. rd_cmd buf = Some cmd"
  using rd_words_some [of 0 7 buf] by (auto simp: rd_cmd_def CMD_SIZE_def)

lemma length_rd_mem: "rd_mem mem a n = Some bs \<Longrightarrow> length bs = n"
  by (induction n arbitrary: a bs) (auto simp: bind_eq_Some_conv)

section \<open>Requests and their meaning\<close>

text \<open>What a caller asks for with pointers into its memory, and what that means.\<close>

datatype host_request =
    Client_init u64 u64 u64
  | Rq_create u64 u64
  | Rq_destroy u64
  | Mr_register u64 u64 u64 u64 u64 u64
  | Mr_deregister u64

fun issue :: "task_env \<Rightarrow> host_mem \<Rightarrow> host_request \<Rightarrow> (doca_error \<times> task_out) option" where
  "issue env mem (Client_init client_id addr addr_len) = urom_rdmo_task_client_init env mem client_id addr addr_len"
| "issue env mem (Rq_create addr addr_len) = urom_rdmo_task_rq_create env mem addr addr_len"
| "issue env mem (Rq_destroy rq_id) = urom_rdmo_task_rq_destroy env mem rq_id"
| "issue env mem (Mr_register va len rkey rkey_len memh memh_len) = urom_rdmo_task_mr_register env mem va len rkey rkey_len memh memh_len"
| "issue env mem (Mr_deregister rkey_id) = urom_rdmo_task_mr_deregister env mem rkey_id"

datatype request =
    Req_client_init u64 "u8 list"
  | Req_rq_create "u8 list"
  | Req_rq_destroy u64
  | Req_mr_reg u64 u64 "u8 list" "u8 list"
  | Req_mr_dereg u64

fun meaning :: "host_mem \<Rightarrow> host_request \<Rightarrow> request option" where
  "meaning mem (Client_init client_id addr addr_len) = map_option (Req_client_init client_id) (rd_mem mem addr (unat addr_len))"
| "meaning mem (Rq_create addr addr_len) = map_option Req_rq_create (rd_mem mem addr (unat addr_len))"
| "meaning mem (Rq_destroy rq_id) = Some (Req_rq_destroy rq_id)"
| "meaning mem (Mr_register va len rkey rkey_len memh memh_len) =
     do { rk \<leftarrow> rd_mem mem rkey (unat rkey_len); mh \<leftarrow> rd_mem mem memh (unat memh_len); Some (Req_mr_reg va len rk mh) }"
| "meaning mem (Mr_deregister rkey_id) = Some (Req_mr_dereg rkey_id)"

fun inline_len :: "request \<Rightarrow> nat" where
  "inline_len (Req_client_init _ bs) = length bs"
| "inline_len (Req_rq_create bs) = length bs"
| "inline_len (Req_mr_reg _ _ rk mh) = length rk + length mh"
| "inline_len _ = 0"

text \<open>What the handlers of the worker see: the fields of the unpacked command and the bytes its pointers lead to.\<close>

definition received :: "u64 \<Rightarrow> u8 list \<Rightarrow> urom_worker_rdmo_cmd \<Rightarrow> request option" where
  "received base buf cmd =
     (let u = cmd_union cmd in
      if cmd_type cmd = UROM_WORKER_CMD_RDMO_CLIENT_INIT then map_option (Req_client_init (u ! 0)) (rd_buf base buf (u ! 1) (u ! 2))
      else if cmd_type cmd = UROM_WORKER_CMD_RDMO_RQ_CREATE then map_option Req_rq_create (rd_buf base buf (u ! 0) (u ! 1))
      else if cmd_type cmd = UROM_WORKER_CMD_RDMO_RQ_DESTROY then Some (Req_rq_destroy (u ! 0))
      else if cmd_type cmd = UROM_WORKER_CMD_RDMO_MR_REG
        then do { rk \<leftarrow> rd_buf base buf (u ! 2) (u ! 3); mh \<leftarrow> rd_buf base buf (u ! 4) (u ! 5); Some (Req_mr_reg (u ! 0) (u ! 1) rk mh) }
      else if cmd_type cmd = UROM_WORKER_CMD_RDMO_MR_DEREG then Some (Req_mr_dereg (u ! 0))
      else None)"

section \<open>Packing\<close>

lemma write_at_append:
  "length bs \<le> length rest \<Longrightarrow> write_at (length xs) bs (xs @ rest) = Some (xs @ bs @ drop (length bs) rest)"
  by (simp add: write_at_def)

lemma pack_raw_append:
  assumes "rd_mem mem a (unat l) = Some bs" and "length bs \<le> length rest" and "length xs + length rest < 2 ^ 64"
  shows "pack_raw mem a l (of_nat (length xs), xs @ rest) = Some (of_nat (length (xs @ bs)), (xs @ bs) @ drop (length bs) rest)"
proof -
  have l: "length bs = unat l" by (rule length_rd_mem [OF assms(1)])
  have "unat (of_nat (length xs) :: u64) = length xs" using assms(3) by (simp add: unat_of_nat)
  then show ?thesis
    using write_at_append [OF assms(2), of xs] assms(1) by (simp add: pack_raw_def l)
qed

definition task_ready :: "task_env \<Rightarrow> bool" where
  "task_ready env \<longleftrightarrow> task_alloc env = DOCA_SUCCESS \<and> task_get_data env = DOCA_SUCCESS \<and> task_get_len env = DOCA_SUCCESS
     \<and> task_submit env = DOCA_SUCCESS"

lemma length_populate: "length (cmd_union (populate ty args cmd)) = length (cmd_union cmd)"
proof -
  have "length (fold (\<lambda>(i, v) u. u[i := v]) args u) = length u" for u :: "u64 list"
    by (induction args arbitrary: u) auto
  then show ?thesis by (simp add: populate_def)
qed

text \<open>The inline parts of a command: pointer and length of each.\<close>

definition inline_parts :: "urom_worker_rdmo_cmd \<Rightarrow> (u64 \<times> u64) list" where
  "inline_parts cmd =
     (let u = cmd_union cmd in
      if cmd_type cmd = UROM_WORKER_CMD_RDMO_CLIENT_INIT then [(u ! 1, u ! 2)]
      else if cmd_type cmd = UROM_WORKER_CMD_RDMO_RQ_CREATE then [(u ! 0, u ! 1)]
      else if cmd_type cmd = UROM_WORKER_CMD_RDMO_MR_REG then [(u ! 2, u ! 3), (u ! 4, u ! 5)]
      else [])"

fun rd_parts :: "host_mem \<Rightarrow> (u64 \<times> u64) list \<Rightarrow> u8 list option" where
  "rd_parts mem [] = Some []"
| "rd_parts mem ((a, l) # ps) = do { bs \<leftarrow> rd_mem mem a (unat l); rest \<leftarrow> rd_parts mem ps; Some (bs @ rest) }"

lemma packed_len:
  assumes "rd_parts mem (inline_parts cmd) = Some bs"
  shows "urom_worker_rdmo_cmd_packed_len cmd = of_nat (CMD_SIZE + length bs)"
  using assms
  by (auto simp: inline_parts_def Let_def bind_eq_Some_conv urom_worker_rdmo_cmd_packed_len_def dest!: length_rd_mem split: if_split_asm)

lemma pack_parts:
  assumes "length (cmd_union cmd) = 6" and "rd_parts mem (inline_parts cmd) = Some bs"
    and "CMD_SIZE + length bs \<le> length buf" and "length buf < 2 ^ 64"
  shows "urom_worker_rdmo_cmd_pack mem cmd (of_nat (length buf)) buf
    = Some (DOCA_SUCCESS, of_nat (CMD_SIZE + length bs), cmd_bytes cmd @ bs @ drop (CMD_SIZE + length bs) buf)"
proof -
  let ?cb = "cmd_bytes cmd" and ?rest = "drop CMD_SIZE buf" and ?u = "cmd_union cmd"
  note lc = length_cmd_bytes [OF assms(1)]
  have fits: "\<not> of_nat (length buf) < urom_worker_rdmo_cmd_packed_len cmd"
    using assms(3,4) by (simp add: packed_len [OF assms(2)] word_less_nat_alt unat_of_nat not_less del: of_nat_add)
  have w: "write_at 0 ?cb buf = Some (?cb @ ?rest)" using assms(3) by (simp add: write_at_def lc)
  note step = pack_raw_append [where xs = ?cb and rest = ?rest, unfolded lc]
  have e: "length ?cb + length ?rest < 2 ^ 64" using assms(3,4) by (simp add: lc)
  have p1: "pack_raw mem a l (of_nat CMD_SIZE, ?cb @ ?rest) = Some (of_nat (CMD_SIZE + length b1), (?cb @ b1) @ drop (length b1) ?rest)"
    if "rd_mem mem a (unat l) = Some b1" "length b1 \<le> length ?rest" for a l b1
    using step [OF that] e by (simp add: lc)
  have p2: "pack_raw mem a l (of_nat (CMD_SIZE + length b1), (?cb @ b1) @ drop (length b1) ?rest)
      = Some (of_nat (CMD_SIZE + length (b1 @ b2)), (?cb @ b1 @ b2) @ drop (length (b1 @ b2)) ?rest)"
    if "rd_mem mem a (unat l) = Some b2" "length (b1 @ b2) \<le> length ?rest" for a l b1 b2
    using pack_raw_append [OF that(1), of "drop (length b1) ?rest" "?cb @ b1"] that(2) e by (simp add: lc add_ac)
  have r: "length ?rest = length buf - CMD_SIZE" by simp
  show ?thesis
    using assms(2,3) p1 p2
    by (auto simp: urom_worker_rdmo_cmd_pack_def fits w inline_parts_def Let_def bind_eq_Some_conv add_ac cmd_types split: if_split_asm)
qed

lemma task_parts:
  assumes "task_ready env" and "length (task_payload env) < 2 ^ 64"
    and "\<And>cmd0. length (cmd_union cmd0) = 6 \<Longrightarrow> rd_parts mem (inline_parts (populate ty args cmd0)) = Some bs"
    and "CMD_SIZE + length bs \<le> length (task_payload env)"
  shows "\<exists>cmd0. length (cmd_union cmd0) = 6
    \<and> rdmo_task env mem ty args = Some (DOCA_SUCCESS, Submitted (cmd_bytes (populate ty args cmd0) @ bs))"
proof -
  obtain cmd0 where c: "rd_cmd (task_payload env) = Some cmd0"
    using rd_cmd_some [of "task_payload env"] assms(4) by auto
  let ?cmd = "populate ty args cmd0"
  have l: "length (cmd_union ?cmd) = 6" using rd_cmd_union [OF c] by (simp add: length_populate)
  note lc = length_cmd_bytes [OF l]
  have w: "write_at 0 (cmd_bytes ?cmd) (task_payload env) = Some (cmd_bytes ?cmd @ drop CMD_SIZE (task_payload env))"
    using assms(4) by (simp add: write_at_def lc)
  have lb: "length (cmd_bytes ?cmd @ drop CMD_SIZE (task_payload env)) = length (task_payload env)"
    using assms(4) by (simp add: lc)
  have p: "urom_worker_rdmo_cmd_pack mem ?cmd (of_nat (length (task_payload env))) (cmd_bytes ?cmd @ drop CMD_SIZE (task_payload env))
      = Some (DOCA_SUCCESS, of_nat (CMD_SIZE + length bs), cmd_bytes ?cmd @ bs @ drop (length bs) (drop CMD_SIZE (task_payload env)))"
    using pack_parts [OF l assms(3) [OF rd_cmd_union [OF c]], of "cmd_bytes ?cmd @ drop CMD_SIZE (task_payload env)"] assms(2,4)
    unfolding lb by (simp add: lc add.commute)
  have "unat (of_nat (CMD_SIZE + length bs) :: u64) = CMD_SIZE + length bs"
    using assms(2,4) by (simp add: unat_of_nat del: of_nat_add)
  then have "rdmo_task env mem ty args = Some (DOCA_SUCCESS, Submitted (cmd_bytes ?cmd @ bs))"
    using assms(1) by (simp add: rdmo_task_def task_ready_def c w p lc)
  then show ?thesis using rd_cmd_union [OF c] by blast
qed

text \<open>Unpacking what was packed: the words come back, with the pointers set to the inline data.\<close>

lemma unat_CMD_SIZE: "unat (of_nat CMD_SIZE :: u64) = CMD_SIZE"
  by (simp add: CMD_SIZE_def)

lemma unpack_packed:
  assumes "length (cmd_union cmd) = 6" and "rd_parts mem (inline_parts cmd) = Some bs" and "CMD_SIZE + length bs < 2 ^ 64"
  shows "\<exists>u. urom_worker_rdmo_cmd_unpack base (of_nat (length (cmd_bytes cmd @ bs))) (cmd_bytes cmd @ bs)
      = Some (DOCA_SUCCESS, Some (cmd\<lparr>cmd_union := u\<rparr>))
    \<and> u = (let u = cmd_union cmd; ptr = base + of_nat CMD_SIZE in
           if cmd_type cmd = UROM_WORKER_CMD_RDMO_CLIENT_INIT then u[1 := ptr]
           else if cmd_type cmd = UROM_WORKER_CMD_RDMO_RQ_CREATE then u[0 := ptr]
           else if cmd_type cmd = UROM_WORKER_CMD_RDMO_MR_REG then u[2 := ptr, 4 := ptr + u ! 3] else u)"
proof -
  note lc = length_cmd_bytes [OF assms(1)]
  have n: "\<not> of_nat (length (cmd_bytes cmd @ bs)) < (of_nat CMD_SIZE :: u64)"
    using assms(3) by (simp add: lc word_less_nat_alt unat_of_nat not_less CMD_SIZE_def del: of_nat_add)
  have "of_nat (length bs) = (let u = cmd_union cmd in
      if cmd_type cmd = UROM_WORKER_CMD_RDMO_CLIENT_INIT then u ! 2
      else if cmd_type cmd = UROM_WORKER_CMD_RDMO_RQ_CREATE then u ! 1
      else if cmd_type cmd = UROM_WORKER_CMD_RDMO_MR_REG then u ! 3 + u ! 5 else 0)"
    using assms(2) by (auto simp: inline_parts_def Let_def bind_eq_Some_conv dest!: length_rd_mem split: if_split_asm)
  then show ?thesis using n
    by (auto simp: urom_worker_rdmo_cmd_unpack_def rd_cmd_bytes [OF assms(1)] Let_def lc cmd_types split: if_split_asm)
qed

lemma rd_buf_at:
  assumes "length xs + length bs < 2 ^ 64"
  shows "rd_buf base (xs @ bs @ ys) (base + of_nat (length xs)) (of_nat (length bs)) = Some bs"
proof -
  have "unat (of_nat (length xs) :: u64) = length xs" "unat (of_nat (length bs) :: u64) = length bs"
    using assms by (simp_all add: unat_of_nat)
  then show ?thesis by (simp add: rd_buf_def)
qed

section \<open>What the host asks for is what the worker sees\<close>

fun req_type :: "host_request \<Rightarrow> u64" where
  "req_type (Client_init _ _ _) = UROM_WORKER_CMD_RDMO_CLIENT_INIT"
| "req_type (Rq_create _ _) = UROM_WORKER_CMD_RDMO_RQ_CREATE"
| "req_type (Rq_destroy _) = UROM_WORKER_CMD_RDMO_RQ_DESTROY"
| "req_type (Mr_register _ _ _ _ _ _) = UROM_WORKER_CMD_RDMO_MR_REG"
| "req_type (Mr_deregister _) = UROM_WORKER_CMD_RDMO_MR_DEREG"

fun req_args :: "host_request \<Rightarrow> (nat \<times> u64) list" where
  "req_args (Client_init client_id addr addr_len) = [(0, client_id), (1, addr), (2, addr_len)]"
| "req_args (Rq_create addr addr_len) = [(0, addr), (1, addr_len)]"
| "req_args (Rq_destroy rq_id) = [(0, rq_id)]"
| "req_args (Mr_register va len rkey rkey_len memh memh_len) =
     [(0, va), (1, len), (2, rkey), (3, rkey_len), (4, memh), (5, memh_len)]"
| "req_args (Mr_deregister rkey_id) = [(0, rkey_id)]"

fun inline_bytes :: "request \<Rightarrow> u8 list" where
  "inline_bytes (Req_client_init _ bs) = bs"
| "inline_bytes (Req_rq_create bs) = bs"
| "inline_bytes (Req_mr_reg _ _ rk mh) = rk @ mh"
| "inline_bytes _ = []"

lemma issue_task: "issue env mem h = rdmo_task env mem (req_type h) (req_args h)"
  by (cases h) (simp_all add: urom_rdmo_task_client_init_def urom_rdmo_task_rq_create_def urom_rdmo_task_rq_destroy_def
      urom_rdmo_task_mr_register_def urom_rdmo_task_mr_deregister_def)

lemma length_inline_bytes: "length (inline_bytes m) = inline_len m"
  by (cases m) simp_all

lemma meaning_parts:
  assumes "meaning mem h = Some m" and "length (cmd_union cmd0) = 6"
  shows "rd_parts mem (inline_parts (populate (req_type h) (req_args h) cmd0)) = Some (inline_bytes m)"
  using assms by (cases h) (auto simp: inline_parts_def populate_def cmd_types Let_def bind_eq_Some_conv)

lemma rd_buf_part:
  assumes "length cb = CMD_SIZE" and "unat l = length bs" and "CMD_SIZE + length xs + length bs < 2 ^ 64"
  shows "rd_buf base (cb @ xs @ bs @ ys) (base + of_nat CMD_SIZE + of_nat (length xs)) l = Some bs"
proof -
  have "l = of_nat (length bs)" by (simp flip: assms(2))
  then show ?thesis using rd_buf_at [of "cb @ xs" bs base ys] assms(1,3) by (simp add: add.assoc)
qed

lemma rd_buf_only:
  assumes "length (cmd_union cmd) = 6" and "length bs = unat l" and "CMD_SIZE + unat l < 2 ^ 64"
  shows "rd_buf base (cmd_bytes cmd @ bs) (base + of_nat CMD_SIZE) l = Some bs"
  using rd_buf_part [OF length_cmd_bytes [OF assms(1)], where xs = "[]" and ys = "[]" and bs = bs] assms(2,3) by simp

lemma received_populate:
  assumes "length (cmd_union cmd0) = 6" and "meaning mem h = Some m" and "CMD_SIZE + inline_len m < 2 ^ 64"
    and "cmd = populate (req_type h) (req_args h) cmd0"
    and "u = (let u = cmd_union cmd; ptr = base + of_nat CMD_SIZE in
           if cmd_type cmd = UROM_WORKER_CMD_RDMO_CLIENT_INIT then u[1 := ptr]
           else if cmd_type cmd = UROM_WORKER_CMD_RDMO_RQ_CREATE then u[0 := ptr]
           else if cmd_type cmd = UROM_WORKER_CMD_RDMO_MR_REG then u[2 := ptr, 4 := ptr + u ! 3] else u)"
  shows "received base (cmd_bytes cmd @ inline_bytes m) (cmd\<lparr>cmd_union := u\<rparr>) = Some m"
proof -
  have lc: "length (cmd_bytes cmd) = CMD_SIZE"
    using assms(1,4) by (simp add: length_cmd_bytes length_populate)
  note fst = rd_buf_part [OF lc, where xs = "[]", simplified]
  note snd = rd_buf_part [OF lc, where ys = "[]", simplified]
  show ?thesis
  proof (cases h)
    case (Mr_register va len rkey rkey_len memh memh_len)
    then obtain rk mh where r: "rd_mem mem rkey (unat rkey_len) = Some rk" "rd_mem mem memh (unat memh_len) = Some mh"
      and m: "m = Req_mr_reg va len rk mh" using assms(2) by (auto simp: bind_eq_Some_conv)
    have l: "unat rkey_len = length rk" "unat memh_len = length mh" using r by (auto dest: length_rd_mem)
    then have "of_nat (length rk) = rkey_len" by (simp flip: l(1))
    then show ?thesis
      using fst [of rkey_len rk base mh] snd [of memh_len mh rk base] l assms(1,3)
      by (simp add: assms(4,5) Mr_register m received_def populate_def cmd_types Let_def)
  qed (use assms(1-3) in \<open>auto simp: assms(4,5) received_def populate_def cmd_types Let_def dest!: length_rd_mem intro!: rd_buf_only\<close>)
qed

lemma issue_unpack:
  assumes "task_ready env" and "length (task_payload env) < 2 ^ 64" and "meaning mem h = Some m"
    and "CMD_SIZE + inline_len m \<le> length (task_payload env)"
  shows "\<exists>buf cmd. issue env mem h = Some (DOCA_SUCCESS, Submitted buf)
    \<and> urom_worker_rdmo_cmd_unpack base (of_nat (length buf)) buf = Some (DOCA_SUCCESS, Some cmd)
    \<and> received base buf cmd = Some m"
proof -
  have b: "CMD_SIZE + length (inline_bytes m) \<le> length (task_payload env)" using assms(4) by (simp add: length_inline_bytes)
  obtain cmd0 where c: "length (cmd_union cmd0) = 6"
    and t: "issue env mem h = Some (DOCA_SUCCESS, Submitted (cmd_bytes (populate (req_type h) (req_args h) cmd0) @ inline_bytes m))"
    using task_parts [OF assms(1,2) meaning_parts [OF assms(3)] b] by (auto simp: issue_task)
  let ?cmd = "populate (req_type h) (req_args h) cmd0"
  have "length (cmd_union ?cmd) = 6" using c by (simp add: length_populate)
  then show ?thesis
    using unpack_packed [of ?cmd mem "inline_bytes m" base] meaning_parts [OF assms(3) c] received_populate [OF c assms(3)]
      t assms(2,4) by (fastforce simp: length_inline_bytes)
qed

text \<open>C36. Every command of the RDMO plugin survives the way from the host to the DPU: when the library grants a task whose
  payload can hold the command and its inline data, the task function submits a buffer which the worker unpacks with
  success, and the fields and the bytes behind the pointers that its handler then sees are the arguments of the host
  call and the bytes behind the pointers of the host, whatever the payload held before and wherever the buffer arrives.
\<close>

theorem rdmo_command_roundtrip:
  assumes "task_ready env" and "length (task_payload env) < 2 ^ 64" and "meaning mem h = Some m"
    and "CMD_SIZE + inline_len m \<le> length (task_payload env)"
  shows "\<exists>buf cmd. issue env mem h = Some (DOCA_SUCCESS, Submitted buf)
    \<and> urom_worker_rdmo_cmd_unpack base (of_nat (length buf)) buf = Some (DOCA_SUCCESS, Some cmd)
    \<and> received base buf cmd = Some m"
  by (rule issue_unpack [OF assms])

lemma rd_mem_numeral:
  "rd_mem mem a (numeral k) = do { b \<leftarrow> mem a; bs \<leftarrow> rd_mem mem (a + 1) (pred_numeral k); Some (b # bs) }"
  by (simp add: numeral_eq_Suc)

theorem rdmo_command_roundtrip_witness:
  "\<exists>buf cmd. issue \<lparr>task_alloc = DOCA_SUCCESS, task_get_data = DOCA_SUCCESS, task_get_len = DOCA_SUCCESS,
        task_payload = replicate 64 7, task_submit = DOCA_SUCCESS\<rparr> (\<lambda>a. Some (ucast a)) (Mr_register 4096 512 10 2 20 3)
      = Some (DOCA_SUCCESS, Submitted buf)
    \<and> urom_worker_rdmo_cmd_unpack 77 (of_nat (length buf)) buf = Some (DOCA_SUCCESS, Some cmd)
    \<and> received 77 buf cmd = Some (Req_mr_reg 4096 512 [10, 11] [20, 21, 22])"
  by (rule rdmo_command_roundtrip)
    (simp_all add: task_ready_def CMD_SIZE_def rd_mem_numeral)

section \<open>What an unpacked command points to\<close>

lemma rd_buf_Some_iff:
  assumes "n \<le> length buf" and "length buf < 2 ^ 64"
  shows "rd_buf base buf (base + of_nat n) l \<noteq> None \<longleftrightarrow> n + unat l \<le> length buf"
proof -
  have "unat (of_nat n :: u64) = n" using assms by (simp add: unat_of_nat)
  then show ?thesis by (simp add: rd_buf_def)
qed

lemma rd_buf_next_Some_iff:
  assumes "n + unat k \<le> length buf" and "length buf < 2 ^ 64"
  shows "rd_buf base buf (base + of_nat n + k) l \<noteq> None \<longleftrightarrow> n + unat k + unat l \<le> length buf"
  using rd_buf_Some_iff [OF assms, of base l] by (simp add: add.assoc)

lemma inline_length:
  assumes "of_nat n = (e :: u64) + of_nat CMD_SIZE" and "CMD_SIZE \<le> n" and "n < 2 ^ 64"
  shows "CMD_SIZE + unat e = n"
proof -
  have "e = of_nat (n - CMD_SIZE)" using assms(1,2) by (simp add: algebra_simps)
  then show ?thesis using assms(2,3) by (simp add: unat_of_nat del: of_nat_diff)
qed

text \<open>The fields of a command that unpacks with success, in terms of the words it arrived with.\<close>

lemma unpack_success:
  assumes "urom_worker_rdmo_cmd_unpack base (of_nat (length buf)) buf = Some (DOCA_SUCCESS, Some cmd)" and "length buf < 2 ^ 64"
  obtains u0 where "length u0 = 6" "CMD_SIZE \<le> length buf"
    "cmd_type cmd = UROM_WORKER_CMD_RDMO_CLIENT_INIT \<Longrightarrow> cmd_union cmd = u0[1 := base + of_nat CMD_SIZE]
      \<and> CMD_SIZE + unat (u0 ! 2) = length buf"
    "cmd_type cmd = UROM_WORKER_CMD_RDMO_RQ_CREATE \<Longrightarrow> cmd_union cmd = u0[0 := base + of_nat CMD_SIZE]
      \<and> CMD_SIZE + unat (u0 ! 1) = length buf"
    "cmd_type cmd = UROM_WORKER_CMD_RDMO_MR_REG \<Longrightarrow>
      cmd_union cmd = u0[2 := base + of_nat CMD_SIZE, 4 := base + of_nat CMD_SIZE + u0 ! 3]
      \<and> CMD_SIZE + unat (u0 ! 3 + u0 ! 5) = length buf"
proof -
  obtain cmd0 where c: "rd_cmd buf = Some cmd0"
    using assms(1) by (auto simp: urom_worker_rdmo_cmd_unpack_def bind_eq_Some_conv split: if_split_asm)
  have "\<not> of_nat (length buf) < (of_nat CMD_SIZE :: u64)"
    using assms(1) by (auto simp: urom_worker_rdmo_cmd_unpack_def)
  then have l: "CMD_SIZE \<le> length buf" using assms(2) by (simp add: word_less_nat_alt unat_of_nat CMD_SIZE_def)
  note il = inline_length [OF _ l assms(2)]
  have "length (cmd_union cmd0) = 6" by (rule rd_cmd_union [OF c])
  then show ?thesis
    using assms(1) l
    by (intro that [of "cmd_union cmd0"])
      (auto simp: urom_worker_rdmo_cmd_unpack_def c cmd_types Let_def dest: il split: if_split_asm)
qed

text \<open>C37. The length check of the worker protects what its handlers read: in a command of a known type that unpacked with
  success, every pointer leads to data inside the received buffer, except for a memory registration exactly when
  the lengths of its remote key and its memory handle wrap around in their 64 bit sum.
\<close>

theorem rdmo_unpack_pointers:
  assumes "urom_worker_rdmo_cmd_unpack base (of_nat (length buf)) buf = Some (DOCA_SUCCESS, Some cmd)"
    and "length buf < 2 ^ 64" and "cmd_type cmd \<le> UROM_WORKER_CMD_RDMO_MR_DEREG"
  shows "received base buf cmd = None \<longleftrightarrow>
    cmd_type cmd = UROM_WORKER_CMD_RDMO_MR_REG \<and> 2 ^ 64 \<le> unat (cmd_union cmd ! 3) + unat (cmd_union cmd ! 5)"
proof (rule unpack_success [OF assms(1,2)])
  fix u0
  assume u: "length u0 = 6" and l: "CMD_SIZE \<le> length buf"
    and ci: "cmd_type cmd = UROM_WORKER_CMD_RDMO_CLIENT_INIT \<Longrightarrow> cmd_union cmd = u0[1 := base + of_nat CMD_SIZE]
      \<and> CMD_SIZE + unat (u0 ! 2) = length buf"
    and rc: "cmd_type cmd = UROM_WORKER_CMD_RDMO_RQ_CREATE \<Longrightarrow> cmd_union cmd = u0[0 := base + of_nat CMD_SIZE]
      \<and> CMD_SIZE + unat (u0 ! 1) = length buf"
    and reg: "cmd_type cmd = UROM_WORKER_CMD_RDMO_MR_REG \<Longrightarrow>
      cmd_union cmd = u0[2 := base + of_nat CMD_SIZE, 4 := base + of_nat CMD_SIZE + u0 ! 3]
      \<and> CMD_SIZE + unat (u0 ! 3 + u0 ! 5) = length buf"
  note iff = rd_buf_Some_iff [OF l assms(2), of base]
  have "cmd_type cmd \<in> {0, 1, 2, 3, 4}"
  proof -
    have "unat (cmd_type cmd) \<le> 4" using assms(3) by (simp add: cmd_types word_le_nat_alt)
    then have "unat (cmd_type cmd) \<in> {0, 1, 2, 3, 4}" by auto
    then show ?thesis by (auto simp: word_unat_eq_iff)
  qed
  then consider (ci) "cmd_type cmd = UROM_WORKER_CMD_RDMO_CLIENT_INIT" | (rc) "cmd_type cmd = UROM_WORKER_CMD_RDMO_RQ_CREATE"
    | (mr) "cmd_type cmd = UROM_WORKER_CMD_RDMO_MR_REG"
    | (none) "cmd_type cmd = UROM_WORKER_CMD_RDMO_RQ_DESTROY \<or> cmd_type cmd = UROM_WORKER_CMD_RDMO_MR_DEREG"
    by (auto simp: cmd_types)
  then show ?thesis
  proof cases
    case mr
    then have c: "cmd_union cmd = u0[2 := base + of_nat CMD_SIZE, 4 := base + of_nat CMD_SIZE + u0 ! 3]"
      and s: "CMD_SIZE + unat (u0 ! 3 + u0 ! 5) = length buf" using reg by auto
    have "unat (u0 ! 3 + u0 ! 5) = (unat (u0 ! 3) + unat (u0 ! 5)) mod 2 ^ 64" by (simp add: unat_word_ariths)
    then have fit: "CMD_SIZE + unat (u0 ! 3) + unat (u0 ! 5) \<le> length buf \<longleftrightarrow> unat (u0 ! 3) + unat (u0 ! 5) < 2 ^ 64"
      using s assms(2) by (cases "unat (u0 ! 3) + unat (u0 ! 5) < 2 ^ 64") simp_all
    have "received base buf cmd \<noteq> None \<longleftrightarrow> CMD_SIZE + unat (u0 ! 3) + unat (u0 ! 5) \<le> length buf"
    proof (cases "CMD_SIZE + unat (u0 ! 3) \<le> length buf")
      case True
      then show ?thesis
        using iff [of "u0 ! 3"] rd_buf_next_Some_iff [OF True assms(2), of base "u0 ! 5"] u mr
        by (auto simp: received_def cmd_types c Let_def)
    next
      case False
      then show ?thesis using iff [of "u0 ! 3"] u mr by (simp add: received_def cmd_types c Let_def)
    qed
    then show ?thesis using fit u mr by (auto simp: c)
  qed (use ci rc iff u in \<open>auto simp: received_def cmd_types Let_def\<close>)
qed

theorem rdmo_unpack_pointers_witness:
  "received 0 (cmd_bytes \<lparr>cmd_type = 3, cmd_union = [0, 0, 0, 2 ^ 64 - 4, 0, 4]\<rparr>)
     \<lparr>cmd_type = 3, cmd_union = [0, 0, of_nat CMD_SIZE, 2 ^ 64 - 4, of_nat CMD_SIZE + (2 ^ 64 - 4), 4]\<rparr> = None"
proof -
  let ?c = "\<lparr>cmd_type = 3, cmd_union = [0, 0, 0, 2 ^ 64 - 4, 0, 4]\<rparr>"
  have l: "length (cmd_bytes ?c) = CMD_SIZE" by (rule length_cmd_bytes) simp
  have "rd_cmd (cmd_bytes ?c) = Some ?c" using rd_cmd_bytes [of ?c "[]"] by simp
  then have "urom_worker_rdmo_cmd_unpack 0 (of_nat (length (cmd_bytes ?c))) (cmd_bytes ?c)
     = Some (DOCA_SUCCESS, Some \<lparr>cmd_type = 3, cmd_union = [0, 0, of_nat CMD_SIZE, 2 ^ 64 - 4, of_nat CMD_SIZE + (2 ^ 64 - 4), 4]\<rparr>)"
    unfolding l by (simp add: urom_worker_rdmo_cmd_unpack_def cmd_types CMD_SIZE_def)
  moreover have "length (cmd_bytes ?c) < 2 ^ 64" unfolding l by (simp add: CMD_SIZE_def)
  ultimately show ?thesis using rdmo_unpack_pointers [of 0 "cmd_bytes ?c"] by (simp add: CMD_SIZE_def cmd_types)
qed

end
