(* ===== verification/Urom_Worker.thy ===== *)
theory Urom_Worker
  imports Urom_Cmd "HOL-Library.AList"
begin

text \<open>
  The worker of the RDMO plugin on the DPU (\<^verbatim>\<open>urom_rdmo/dpu/worker_rdmo.c\<close>): its clients, endpoints, receive
  queues and memory keys, the handlers of the five commands with the notifications they queue, and the way
  of a notification back to the callback of the host (\<^verbatim>\<open>urom_rdmo/host/worker_rdmo.c\<close>).

  The hash tables are association lists of their present buckets. Where a new bucket is placed among them is
  not modelled, and nothing here depends on it. An endpoint is known by its UCX handle, the key of the table
  of endpoints. \<open>ucp_eps\<close> are the endpoints that UCX has open.
\<close>

section \<open>The state of the worker\<close>

record urom_worker_rdmo_ep =
  peer_uid :: u64
  ref_cnt :: int
  fenced_ops :: "nat list"
  oreqs :: int

record urom_worker_rdmo_mkey =
  ucp_memh :: "u64 option"
  mem_cache :: "(u64 \<times> u64) list"
  va :: u64
  mkey_len :: u64

record urom_worker_rdmo_client =
  client_id :: u64
  dest_id :: u64
  client_ep :: u64
  rqs :: "(u64 \<times> u64) list"
  next_rq_id :: u64
  mkeys :: "(u64 \<times> urom_worker_rdmo_mkey) list"
  paused_ops :: "nat list"
  pause :: bool
  get_result :: u64

text \<open>A notification descriptor: the header, and the type and the two words of the union behind it.\<close>

record urom_worker_notif_desc =
  notif_dest_id :: u64
  notif_type :: u64
  notif_context :: u64
  notif_len :: u64
  notif_status :: doca_error
  rdmo_notif_type :: u64
  rdmo_notif_union :: "u64 list"

record urom_worker_rdmo =
  worker_address :: u64
  ucp_addrlen :: u64
  clients :: "(u64 \<times> urom_worker_rdmo_client) list"
  eps :: "(u64 \<times> urom_worker_rdmo_ep) list"
  completed_reqs :: "urom_worker_notif_desc list"
  ucp_eps :: "u64 list"

record urom_worker_cmd_desc =
  desc_dest_id :: u64
  desc_type :: u64
  desc_context :: u64
  desc_len :: u64
  desc_base :: u64
  desc_plugin :: "u8 list"

text \<open>The answers of the allocator, the hash tables and UCX to the calls of one handler.\<close>

datatype mem_map_answer = Mapped u64 | Unreachable | Map_failed
datatype close_answer = Close_failed | Close_done | Close_started

record worker_env =
  nd_alloc :: bool
  obj_alloc :: bool
  ep_alloc :: bool
  ep_create :: "u64 option"
  ep_put :: bool
  init_mkeys :: bool
  init_rqs :: bool
  table_put :: bool
  rkey_unpack :: "u64 option"
  mem_map :: mem_map_answer
  init_cache :: bool
  mem_unmap :: bool
  ep_close :: close_answer

definition kh_put_ret :: "bool \<Rightarrow> ('k \<times> 'v) list \<Rightarrow> 'k \<Rightarrow> int" where
  "kh_put_ret ok tab k = (if \<not> ok then -1 else if map_of tab k \<noteq> None then 0 else 1)"

section \<open>Endpoints and clients\<close>

definition urom_worker_rdmo_ep_get :: "worker_env \<Rightarrow> urom_worker_rdmo \<Rightarrow> (doca_error + u64) \<times> urom_worker_rdmo" where
  "urom_worker_rdmo_ep_get env w =
     (if \<not> ep_alloc env then (Inl DOCA_ERROR_NO_MEMORY, w)
      else case ep_create env of
        None \<Rightarrow> (Inl DOCA_ERROR_DRIVER, w)
      | Some h \<Rightarrow>
          if kh_put_ret (ep_put env) (eps w) h \<le> 0 then (Inl DOCA_ERROR_DRIVER, w)
          else (Inr h, w\<lparr>eps := eps w @ [(h, \<lparr>peer_uid = 0, ref_cnt = 1, fenced_ops = [], oreqs = 0\<rparr>)], ucp_eps := h # ucp_eps w\<rparr>))"

definition urom_worker_rdmo_ep_del :: "worker_env \<Rightarrow> urom_worker_rdmo \<Rightarrow> u64 \<Rightarrow> (doca_error \<times> urom_worker_rdmo) option" where
  "urom_worker_rdmo_ep_del env w h =
     (if map_of (eps w) h = None then Some (DOCA_ERROR_NOT_FOUND, w)
      else case ep_close env of
        Close_failed \<Rightarrow> Some (DOCA_ERROR_DRIVER, w)
      | Close_done \<Rightarrow> None
      | Close_started \<Rightarrow> Some (DOCA_SUCCESS, w\<lparr>eps := AList.delete h (eps w), ucp_eps := remove1 h (ucp_eps w)\<rparr>))"

definition urom_worker_rdmo_dest_to_client :: "urom_worker_rdmo \<Rightarrow> u64 \<Rightarrow> urom_worker_rdmo_client option" where
  "urom_worker_rdmo_dest_to_client w d = map_option snd (List.find (\<lambda>(k, c). dest_id c = d) (clients w))"

definition put_client :: "urom_worker_rdmo \<Rightarrow> urom_worker_rdmo_client \<Rightarrow> urom_worker_rdmo" where
  "put_client w c = w\<lparr>clients := AList.update (client_id c) c (clients w)\<rparr>"

section \<open>Notifications\<close>

definition UROM_WORKER_NOTIFY_RDMO_CLIENT_INIT :: u64 where "UROM_WORKER_NOTIFY_RDMO_CLIENT_INIT = 0"
definition UROM_WORKER_NOTIFY_RDMO_RQ_CREATE :: u64 where "UROM_WORKER_NOTIFY_RDMO_RQ_CREATE = 1"
definition UROM_WORKER_NOTIFY_RDMO_RQ_DESTROY :: u64 where "UROM_WORKER_NOTIFY_RDMO_RQ_DESTROY = 2"
definition UROM_WORKER_NOTIFY_RDMO_MR_REG :: u64 where "UROM_WORKER_NOTIFY_RDMO_MR_REG = 3"
definition UROM_WORKER_NOTIFY_RDMO_MR_DEREG :: u64 where "UROM_WORKER_NOTIFY_RDMO_MR_DEREG = 4"

lemmas notify_types = UROM_WORKER_NOTIFY_RDMO_CLIENT_INIT_def UROM_WORKER_NOTIFY_RDMO_RQ_CREATE_def
  UROM_WORKER_NOTIFY_RDMO_RQ_DESTROY_def UROM_WORKER_NOTIFY_RDMO_MR_REG_def UROM_WORKER_NOTIFY_RDMO_MR_DEREG_def

definition NOTIF_SIZE :: nat where "NOTIF_SIZE = 24"
definition NOTIF_HDR_SIZE :: nat where "NOTIF_HDR_SIZE = 32"

text \<open>The notification that every handler prepares, and queueing it.\<close>

definition new_notif :: "urom_worker_cmd_desc \<Rightarrow> u64 \<Rightarrow> u64 \<Rightarrow> u64 list \<Rightarrow> doca_error \<Rightarrow> urom_worker_notif_desc" where
  "new_notif d ty ext u status = \<lparr>notif_dest_id = desc_dest_id d, notif_type = desc_type d, notif_context = desc_context d,
     notif_len = of_nat NOTIF_SIZE + ext, notif_status = status, rdmo_notif_type = ty, rdmo_notif_union = u\<rparr>"

definition push_notif :: "urom_worker_rdmo \<Rightarrow> urom_worker_notif_desc \<Rightarrow> urom_worker_rdmo" where
  "push_notif w n = w\<lparr>completed_reqs := completed_reqs w @ [n]\<rparr>"

section \<open>The handlers\<close>

definition urom_worker_rdmo_client_init_cmd ::
    "worker_env \<Rightarrow> urom_worker_rdmo \<Rightarrow> urom_worker_cmd_desc \<Rightarrow> urom_worker_rdmo_cmd \<Rightarrow> doca_error \<times> urom_worker_rdmo" where
  "urom_worker_rdmo_client_init_cmd env w d cmd =
     (let cid = cmd_union cmd ! 0;
          notif = new_notif d UROM_WORKER_NOTIFY_RDMO_CLIENT_INIT (ucp_addrlen w) [worker_address w, ucp_addrlen w];
          push_err = (\<lambda>w e. (e, push_notif w (notif e))) in
      if \<not> nd_alloc env then (DOCA_ERROR_NO_MEMORY, w)
      else if urom_worker_rdmo_dest_to_client w (desc_dest_id d) \<noteq> None then push_err w DOCA_ERROR_ALREADY_EXIST
      else if map_of (clients w) cid \<noteq> None then (DOCA_ERROR_IN_USE, w)
      else if \<not> obj_alloc env then push_err w DOCA_ERROR_NO_MEMORY
      else case urom_worker_rdmo_ep_get env w of
        (Inl e, w) \<Rightarrow> push_err w e
      | (Inr h, w) \<Rightarrow>
          let ep_destroy = (\<lambda>e. push_err (w\<lparr>ucp_eps := remove1 h (ucp_eps w)\<rparr>) e) in
          if \<not> init_mkeys env then ep_destroy DOCA_ERROR_INITIALIZATION
          else if \<not> init_rqs env then ep_destroy DOCA_ERROR_INITIALIZATION
          else if kh_put_ret (table_put env) (clients w) cid \<le> 0 then ep_destroy DOCA_ERROR_DRIVER
          else (DOCA_SUCCESS,
            push_notif (w\<lparr>clients := clients w @ [(cid, \<lparr>client_id = cid, dest_id = desc_dest_id d, client_ep = h, rqs = [],
              next_rq_id = 0, mkeys = [], paused_ops = [], pause = False, get_result = 0\<rparr>)]\<rparr>) (notif DOCA_SUCCESS)))"

definition urom_worker_rdmo_rq_create_cmd ::
    "worker_env \<Rightarrow> urom_worker_rdmo \<Rightarrow> urom_worker_cmd_desc \<Rightarrow> urom_worker_rdmo_cmd \<Rightarrow> doca_error \<times> urom_worker_rdmo" where
  "urom_worker_rdmo_rq_create_cmd env w d cmd =
     (let notif = new_notif d UROM_WORKER_NOTIFY_RDMO_RQ_CREATE 0;
          push_err = (\<lambda>w e. (e, push_notif w (notif [0, 0] e))) in
      if \<not> nd_alloc env then (DOCA_ERROR_NO_MEMORY, w)
      else case urom_worker_rdmo_dest_to_client w (desc_dest_id d) of
        None \<Rightarrow> push_err w DOCA_ERROR_NOT_FOUND
      | Some client \<Rightarrow>
          if \<not> obj_alloc env then push_err w DOCA_ERROR_NO_MEMORY
          else
            let rq_id = next_rq_id client; client = client\<lparr>next_rq_id := rq_id + 1\<rparr> in
            if kh_put_ret (table_put env) (rqs client) rq_id \<le> 0 then push_err (put_client w client) DOCA_ERROR_DRIVER
            else case urom_worker_rdmo_ep_get env w of
              (Inl e, w) \<Rightarrow> push_err (put_client w client) e
            | (Inr h, w) \<Rightarrow>
                (DOCA_SUCCESS, push_notif (put_client w (client\<lparr>rqs := rqs client @ [(rq_id, h)]\<rparr>)) (notif [rq_id, 0] DOCA_SUCCESS)))"

definition urom_worker_rdmo_rq_destroy_cmd ::
    "worker_env \<Rightarrow> urom_worker_rdmo \<Rightarrow> urom_worker_cmd_desc \<Rightarrow> urom_worker_rdmo_cmd \<Rightarrow> (doca_error \<times> urom_worker_rdmo) option" where
  "urom_worker_rdmo_rq_destroy_cmd env w d cmd =
     (let rq_id = cmd_union cmd ! 0 in
      case urom_worker_rdmo_dest_to_client w (desc_dest_id d) of
        None \<Rightarrow> Some (DOCA_ERROR_NOT_FOUND, w)
      | Some client \<Rightarrow>
          let kh_del = (\<lambda>w. put_client w (client\<lparr>rqs := AList.delete rq_id (rqs client)\<rparr>)) in
          do { (status, w) \<leftarrow>
                 (case map_of (rqs client) rq_id of
                    None \<Rightarrow> Some (DOCA_ERROR_NOT_FOUND, w)
                  | Some h \<Rightarrow>
                      do { (status, w) \<leftarrow> urom_worker_rdmo_ep_del env w h;
                           Some (status, if status = DOCA_SUCCESS then kh_del w else w) });
               if \<not> nd_alloc env then Some (DOCA_ERROR_NO_MEMORY, kh_del w)
               else Some (status, push_notif w (new_notif d UROM_WORKER_NOTIFY_RDMO_RQ_DESTROY 0 [rq_id, 0] status)) })"

definition urom_worker_rdmo_mr_reg_cmd ::
    "worker_env \<Rightarrow> urom_worker_rdmo \<Rightarrow> urom_worker_cmd_desc \<Rightarrow> urom_worker_rdmo_cmd \<Rightarrow> doca_error \<times> urom_worker_rdmo" where
  "urom_worker_rdmo_mr_reg_cmd env w d cmd =
     (let u = cmd_union cmd;
          push = (\<lambda>w r e. (DOCA_SUCCESS, push_notif w (new_notif d UROM_WORKER_NOTIFY_RDMO_MR_REG 0 [r, 0] e))) in
      if \<not> nd_alloc env then (DOCA_ERROR_NO_MEMORY, w)
      else if \<not> obj_alloc env then push w 0 DOCA_ERROR_NO_MEMORY
      else case urom_worker_rdmo_dest_to_client w (desc_dest_id d) of
        None \<Rightarrow> push w 0 DOCA_ERROR_NOT_FOUND
      | Some client \<Rightarrow>
          (case rkey_unpack env of
             None \<Rightarrow> push w 0 DOCA_ERROR_DRIVER
           | Some rkey \<Rightarrow>
               if u ! 4 \<noteq> 0 \<and> mem_map env = Map_failed then push w 0 DOCA_ERROR_DRIVER
               else if \<not> init_cache env then push w 0 DOCA_ERROR_INITIALIZATION
               else if kh_put_ret (table_put env) (mkeys client) rkey \<le> 0 then push w 0 DOCA_ERROR_DRIVER
               else
                 let memh = (if u ! 4 = 0 then None else case mem_map env of Mapped h \<Rightarrow> Some h | _ \<Rightarrow> None) in
                 push (put_client w (client\<lparr>mkeys := mkeys client @
                   [(rkey, \<lparr>ucp_memh = memh, mem_cache = [], va = u ! 0, mkey_len = u ! 1\<rparr>)]\<rparr>)) rkey DOCA_SUCCESS))"

text \<open>
  When the notification of a deregistration cannot be allocated, the bucket of the memory key is deleted from the
  table of the receive queues, which has other bounds: undefined.
\<close>

definition urom_worker_rdmo_mr_dereg_cmd ::
    "worker_env \<Rightarrow> urom_worker_rdmo \<Rightarrow> urom_worker_cmd_desc \<Rightarrow> urom_worker_rdmo_cmd \<Rightarrow> (doca_error \<times> urom_worker_rdmo) option" where
  "urom_worker_rdmo_mr_dereg_cmd env w d cmd =
     (let rkey = cmd_union cmd ! 0 in
      case urom_worker_rdmo_dest_to_client w (desc_dest_id d) of
        None \<Rightarrow> Some (DOCA_ERROR_NOT_FOUND, w)
      | Some client \<Rightarrow>
          let (status, w) =
            (case map_of (mkeys client) rkey of
               None \<Rightarrow> (DOCA_ERROR_NOT_FOUND, w)
             | Some mkey \<Rightarrow>
                 if ucp_memh mkey \<noteq> None \<and> \<not> mem_unmap env then (DOCA_ERROR_DRIVER, w)
                 else (DOCA_SUCCESS, put_client w (client\<lparr>mkeys := AList.delete rkey (mkeys client)\<rparr>))) in
          if \<not> nd_alloc env then None
          else Some (status, push_notif w (new_notif d UROM_WORKER_NOTIFY_RDMO_MR_DEREG 0 [rkey, 0] status)))"

text \<open>One command of the list, and the loop, which leaves the rest of the list at the first failure.\<close>

definition worker_cmd_one :: "worker_env \<Rightarrow> urom_worker_rdmo \<Rightarrow> urom_worker_cmd_desc \<Rightarrow> (doca_error \<times> urom_worker_rdmo) option" where
  "worker_cmd_one env w d =
     do { (status, cmd) \<leftarrow> urom_worker_rdmo_cmd_unpack (desc_base d) (desc_len d) (desc_plugin d);
          if status \<noteq> DOCA_SUCCESS then Some (status, w)
          else do { cmd \<leftarrow> cmd;
              if cmd_type cmd = UROM_WORKER_CMD_RDMO_CLIENT_INIT then Some (urom_worker_rdmo_client_init_cmd env w d cmd)
              else if cmd_type cmd = UROM_WORKER_CMD_RDMO_RQ_CREATE then Some (urom_worker_rdmo_rq_create_cmd env w d cmd)
              else if cmd_type cmd = UROM_WORKER_CMD_RDMO_RQ_DESTROY then urom_worker_rdmo_rq_destroy_cmd env w d cmd
              else if cmd_type cmd = UROM_WORKER_CMD_RDMO_MR_REG then Some (urom_worker_rdmo_mr_reg_cmd env w d cmd)
              else if cmd_type cmd = UROM_WORKER_CMD_RDMO_MR_DEREG then urom_worker_rdmo_mr_dereg_cmd env w d cmd
              else Some (DOCA_ERROR_INVALID_VALUE, w) } }"

fun urom_worker_rdmo_worker_cmd ::
    "urom_worker_rdmo \<Rightarrow> (worker_env \<times> urom_worker_cmd_desc) list
       \<Rightarrow> (doca_error \<times> urom_worker_rdmo \<times> (worker_env \<times> urom_worker_cmd_desc) list) option" where
  "urom_worker_rdmo_worker_cmd w [] = Some (DOCA_SUCCESS, w, [])"
| "urom_worker_rdmo_worker_cmd w ((env, d) # ds) =
     do { (status, w) \<leftarrow> worker_cmd_one env w d;
          if status \<noteq> DOCA_SUCCESS then Some (status, w, ds) else urom_worker_rdmo_worker_cmd w ds }"

definition urom_worker_rdmo_progress ::
    "urom_worker_rdmo \<Rightarrow> urom_worker_notif_desc list \<Rightarrow> doca_error \<times> urom_worker_rdmo \<times> urom_worker_notif_desc list" where
  "urom_worker_rdmo_progress w notif_list =
     (if completed_reqs w = [] then (DOCA_ERROR_EMPTY, w, notif_list)
      else (DOCA_SUCCESS, w\<lparr>completed_reqs := []\<rparr>, notif_list @ completed_reqs w))"

section \<open>Opening and closing the worker\<close>

text \<open>What the worker holds of the library, and the answers to the calls that acquire it.\<close>

datatype worker_resource = Worker_struct | Ucp_context | Ucp_worker | Worker_address | Clients_table | Eps_table | Req_mpool

record open_env =
  worker_calloc :: bool
  config_read :: bool
  config_modify :: bool
  context_init :: bool
  worker_create :: bool
  get_address :: "(u64 \<times> u64) option"
  set_am_handler :: bool
  init_clients :: bool
  init_eps :: bool
  mpool_init :: bool

definition new_worker :: "u64 \<times> u64 \<Rightarrow> urom_worker_rdmo" where
  "new_worker a = \<lparr>worker_address = fst a, ucp_addrlen = snd a, clients = [], eps = [], completed_reqs = [], ucp_eps = []\<rparr>"

text \<open>The result is the status, what is held, and the worker; the error labels release in turn what was acquired.\<close>

definition urom_worker_rdmo_open :: "open_env \<Rightarrow> doca_error \<times> worker_resource list \<times> urom_worker_rdmo option" where
  "urom_worker_rdmo_open env =
     (let err = (\<lambda>held rel. (DOCA_ERROR_DRIVER, foldl (\<lambda>hs r. remove1 r hs) held rel, None));
          err_cfg = [Worker_struct];
          err_worker_create = [Ucp_context] @ err_cfg;
          err_worker_address = [Ucp_worker] @ err_worker_create;
          err_am = [Worker_address] @ err_worker_address;
          err_eps = [Clients_table] @ err_am;
          err_reqs = [Eps_table] @ err_eps in
      if \<not> worker_calloc env then (DOCA_ERROR_NO_MEMORY, [], None)
      else let held = [Worker_struct] in
      if \<not> config_read env \<or> \<not> config_modify env \<or> \<not> context_init env then err held err_cfg
      else let held = Ucp_context # held in
      if \<not> worker_create env then err held err_worker_create
      else let held = Ucp_worker # held in
      case get_address env of
        None \<Rightarrow> err held err_worker_address
      | Some a \<Rightarrow>
          let held = Worker_address # held in
          if \<not> set_am_handler env then err held err_am
          else if \<not> init_clients env then err held err_am
          else let held = Clients_table # held in
          if \<not> init_eps env then err held err_eps
          else let held = Eps_table # held in
          if \<not> mpool_init env then err held err_reqs
          else (DOCA_SUCCESS, Req_mpool # held, Some (new_worker a)))"

definition urom_worker_rdmo_close :: "worker_resource list \<Rightarrow> worker_resource list" where
  "urom_worker_rdmo_close held =
     foldl (\<lambda>hs r. remove1 r hs) held [Eps_table, Clients_table, Req_mpool, Worker_address, Ucp_worker, Ucp_context, Worker_struct]"

definition urom_worker_rdmo_addr :: "host_mem \<Rightarrow> urom_worker_rdmo \<Rightarrow> u64 \<Rightarrow> (doca_error \<times> u64 \<times> u8 list) option" where
  "urom_worker_rdmo_addr mem w addr_len =
     (if addr_len < ucp_addrlen w then Some (DOCA_ERROR_INVALID_VALUE, ucp_addrlen w, [])
      else do { bs \<leftarrow> rd_mem mem (worker_address w) (unat (ucp_addrlen w)); Some (DOCA_SUCCESS, ucp_addrlen w, bs) })"

section \<open>The way back to the host\<close>

fun doca_error_code :: "doca_error \<Rightarrow> u64" where
  "doca_error_code DOCA_SUCCESS = 0"
| "doca_error_code DOCA_ERROR_UNKNOWN = 1"
| "doca_error_code DOCA_ERROR_NOT_PERMITTED = 2"
| "doca_error_code DOCA_ERROR_IN_USE = 3"
| "doca_error_code DOCA_ERROR_NOT_SUPPORTED = 4"
| "doca_error_code DOCA_ERROR_AGAIN = 5"
| "doca_error_code DOCA_ERROR_INVALID_VALUE = 6"
| "doca_error_code DOCA_ERROR_NO_MEMORY = 7"
| "doca_error_code DOCA_ERROR_INITIALIZATION = 8"
| "doca_error_code DOCA_ERROR_TIME_OUT = 9"
| "doca_error_code DOCA_ERROR_SHUTDOWN = 10"
| "doca_error_code DOCA_ERROR_CONNECTION_RESET = 11"
| "doca_error_code DOCA_ERROR_CONNECTION_ABORTED = 12"
| "doca_error_code DOCA_ERROR_CONNECTION_INPROGRESS = 13"
| "doca_error_code DOCA_ERROR_NOT_CONNECTED = 14"
| "doca_error_code DOCA_ERROR_NO_LOCK = 15"
| "doca_error_code DOCA_ERROR_NOT_FOUND = 16"
| "doca_error_code DOCA_ERROR_IO_FAILED = 17"
| "doca_error_code DOCA_ERROR_BAD_STATE = 18"
| "doca_error_code DOCA_ERROR_UNSUPPORTED_VERSION = 19"
| "doca_error_code DOCA_ERROR_OPERATING_SYSTEM = 20"
| "doca_error_code DOCA_ERROR_DRIVER = 21"
| "doca_error_code DOCA_ERROR_UNEXPECTED = 22"
| "doca_error_code DOCA_ERROR_ALREADY_EXIST = 23"
| "doca_error_code DOCA_ERROR_FULL = 24"
| "doca_error_code DOCA_ERROR_EMPTY = 25"
| "doca_error_code DOCA_ERROR_IN_PROGRESS = 26"
| "doca_error_code DOCA_ERROR_TOO_BIG = 27"

definition notif_words :: "urom_worker_notif_desc \<Rightarrow> u64 list" where
  "notif_words n = [notif_type n, notif_context n, notif_len n, doca_error_code (notif_status n), rdmo_notif_type n] @ rdmo_notif_union n"

text \<open>Packing on the worker: the length of the inline data passes through an \<open>int\<close>.\<close>

definition urom_worker_rdmo_notif_pack ::
    "host_mem \<Rightarrow> urom_worker_notif_desc \<Rightarrow> u8 list \<Rightarrow> (doca_error \<times> u64 \<times> u8 list) option" where
  "urom_worker_rdmo_notif_pack mem n packed_notif =
     do { let pack_len = NOTIF_HDR_SIZE + NOTIF_SIZE;
          buf \<leftarrow> write_at 0 (concat (map le64 (notif_words n))) packed_notif;
          if rdmo_notif_type n = UROM_WORKER_NOTIFY_RDMO_CLIENT_INIT
          then do { let len = (scast (ucast (rdmo_notif_union n ! 1) :: u32) :: u64);
                    (packed_len, buf) \<leftarrow> pack_raw mem (rdmo_notif_union n ! 0) len (of_nat pack_len, buf);
                    Some (DOCA_SUCCESS, packed_len, buf) }
          else Some (DOCA_SUCCESS, of_nat pack_len, buf) }"

record urom_worker_notify_rdmo =
  notify_type :: u64
  notify_union :: "u64 list"

definition rd_notify :: "u8 list \<Rightarrow> urom_worker_notify_rdmo option" where
  "rd_notify buf = do { ws \<leftarrow> rd_words 3 buf 0; Some \<lparr>notify_type = hd ws, notify_union = tl ws\<rparr> }"

definition urom_worker_rdmo_notif_unpack :: "u64 \<Rightarrow> u8 list \<Rightarrow> urom_worker_notify_rdmo option" where
  "urom_worker_rdmo_notif_unpack base buf =
     do { n \<leftarrow> rd_notify buf;
          Some (if notify_type n = UROM_WORKER_CMD_RDMO_CLIENT_INIT
                then n\<lparr>notify_union := (notify_union n)[0 := base + of_nat NOTIF_SIZE]\<rparr> else n) }"

text \<open>The completed task as the library presents it, and the callback of the user that is called.\<close>

record completed_task =
  has_user_data :: bool
  response_data :: "(u64 \<times> u8 list) option"
  get_data :: doca_error
  get_data_len :: doca_error
  task_status :: doca_error

datatype user_callback =
    Client_init_cb doca_error u64 u64
  | Rq_create_cb doca_error u64
  | Rq_destroy_cb doca_error u64
  | Mr_reg_cb doca_error u64
  | Mr_dereg_cb doca_error u64
  | No_callback

definition notify_callback :: "doca_error \<Rightarrow> urom_worker_notify_rdmo \<Rightarrow> user_callback" where
  "notify_callback result n =
     (let u = notify_union n in
      if notify_type n = UROM_WORKER_NOTIFY_RDMO_CLIENT_INIT then Client_init_cb result (u ! 0) (u ! 1)
      else if notify_type n = UROM_WORKER_NOTIFY_RDMO_RQ_CREATE then Rq_create_cb result (u ! 0)
      else if notify_type n = UROM_WORKER_NOTIFY_RDMO_RQ_DESTROY then Rq_destroy_cb result (u ! 0)
      else if notify_type n = UROM_WORKER_NOTIFY_RDMO_MR_REG then Mr_reg_cb result (u ! 0)
      else if notify_type n = UROM_WORKER_NOTIFY_RDMO_MR_DEREG then Mr_dereg_cb result (u ! 0)
      else No_callback)"

definition urom_rdmo_completion :: "completed_task \<Rightarrow> u64 \<Rightarrow> user_callback option" where
  "urom_rdmo_completion t ty =
     (let notify_error = \<lparr>notify_type = ty, notify_union = [0, 0]\<rparr> in
      if \<not> has_user_data t then Some No_callback
      else case response_data t of
        None \<Rightarrow> Some (notify_callback DOCA_ERROR_INVALID_VALUE notify_error)
      | Some (base, buf) \<Rightarrow>
          if get_data t \<noteq> DOCA_SUCCESS then Some (notify_callback (get_data t) notify_error)
          else
            do { n \<leftarrow> urom_worker_rdmo_notif_unpack base buf;
                 let extended_mem = (if notify_type n = UROM_WORKER_NOTIFY_RDMO_CLIENT_INIT then notify_union n ! 1 else 0);
                 let result =
                   (if get_data_len t \<noteq> DOCA_SUCCESS then get_data_len t
                    else if task_status t \<noteq> DOCA_SUCCESS then task_status t
                    else if of_nat (length buf) \<noteq> of_nat NOTIF_SIZE + extended_mem then DOCA_ERROR_INVALID_VALUE
                    else DOCA_SUCCESS);
                 Some (notify_callback result n) })"

section \<open>Every command is answered\<close>

text \<open>The commands that get no notification.\<close>

definition silent :: "worker_env \<Rightarrow> urom_worker_rdmo \<Rightarrow> urom_worker_cmd_desc \<Rightarrow> urom_worker_rdmo_cmd \<Rightarrow> bool" where
  "silent env w d cmd \<longleftrightarrow>
     \<not> nd_alloc env
     \<or> urom_worker_rdmo_dest_to_client w (desc_dest_id d) = None
       \<and> (cmd_type cmd = UROM_WORKER_CMD_RDMO_CLIENT_INIT \<and> map_of (clients w) (cmd_union cmd ! 0) \<noteq> None
          \<or> cmd_type cmd = UROM_WORKER_CMD_RDMO_RQ_DESTROY \<or> cmd_type cmd = UROM_WORKER_CMD_RDMO_MR_DEREG)"

definition answers :: "urom_worker_cmd_desc \<Rightarrow> urom_worker_rdmo_cmd \<Rightarrow> doca_error \<Rightarrow> urom_worker_notif_desc \<Rightarrow> bool" where
  "answers d cmd st n \<longleftrightarrow>
     notif_dest_id n = desc_dest_id d \<and> notif_type n = desc_type d \<and> notif_context n = desc_context d
     \<and> rdmo_notif_type n = cmd_type cmd
     \<and> (if cmd_type cmd = UROM_WORKER_CMD_RDMO_MR_REG then st = DOCA_SUCCESS else notif_status n = st)"

named_theorems answered

lemma new_notif_sel [simp]:
  "notif_dest_id (new_notif d ty ext u st) = desc_dest_id d" "notif_type (new_notif d ty ext u st) = desc_type d"
  "notif_context (new_notif d ty ext u st) = desc_context d" "rdmo_notif_type (new_notif d ty ext u st) = ty"
  "notif_status (new_notif d ty ext u st) = st" "rdmo_notif_union (new_notif d ty ext u st) = u"
  "notif_len (new_notif d ty ext u st) = of_nat NOTIF_SIZE + ext"
  by (simp_all add: new_notif_def)

lemma completed_reqs_sel [simp]:
  "completed_reqs (push_notif w n) = completed_reqs w @ [n]"
  "completed_reqs (put_client w c) = completed_reqs w"
  by (simp_all add: push_notif_def put_client_def)

lemma ep_get_completed: "urom_worker_rdmo_ep_get env w = (r, w') \<Longrightarrow> completed_reqs w' = completed_reqs w"
  by (auto simp: urom_worker_rdmo_ep_get_def split: if_split_asm option.split_asm)

lemma ep_del_completed: "urom_worker_rdmo_ep_del env w h = Some (r, w') \<Longrightarrow> completed_reqs w' = completed_reqs w"
  by (auto simp: urom_worker_rdmo_ep_del_def split: if_split_asm option.split_asm close_answer.split_asm)

definition answered_by :: "bool \<Rightarrow> urom_worker_rdmo \<Rightarrow> urom_worker_cmd_desc \<Rightarrow> urom_worker_rdmo_cmd \<Rightarrow> doca_error \<Rightarrow> urom_worker_rdmo \<Rightarrow> bool" where
  "answered_by sil w d cmd st w' \<longleftrightarrow>
     (if sil then completed_reqs w' = completed_reqs w \<and> st \<noteq> DOCA_SUCCESS
      else \<exists>n. completed_reqs w' = completed_reqs w @ [n] \<and> answers d cmd st n)"

lemmas answer_defs = answered_by_def answers_def silent_def cmd_types notify_types

lemma client_init_answered [answered]:
  assumes "cmd_type cmd = UROM_WORKER_CMD_RDMO_CLIENT_INIT" and "urom_worker_rdmo_client_init_cmd env w d cmd = (st, w')"
  shows "answered_by (silent env w d cmd) w d cmd st w'"
  using assms
  by (auto simp: urom_worker_rdmo_client_init_cmd_def Let_def answer_defs dest: ep_get_completed
      split: if_split_asm prod.split_asm sum.split_asm)

lemma rq_create_answered [answered]:
  assumes "cmd_type cmd = UROM_WORKER_CMD_RDMO_RQ_CREATE" and "urom_worker_rdmo_rq_create_cmd env w d cmd = (st, w')"
  shows "answered_by (silent env w d cmd) w d cmd st w'"
  using assms
  by (auto simp: urom_worker_rdmo_rq_create_cmd_def Let_def answer_defs dest: ep_get_completed
      split: if_split_asm prod.split_asm sum.split_asm option.split_asm)

lemma rq_destroy_answered [answered]:
  assumes "cmd_type cmd = UROM_WORKER_CMD_RDMO_RQ_DESTROY" and "urom_worker_rdmo_rq_destroy_cmd env w d cmd = Some (st, w')"
  shows "answered_by (silent env w d cmd) w d cmd st w'"
  using assms
  by (cases "nd_alloc env") (auto simp: urom_worker_rdmo_rq_destroy_cmd_def Let_def answer_defs bind_eq_Some_conv
      dest: ep_del_completed split: if_split_asm prod.split_asm option.split_asm)

lemma mr_reg_answered [answered]:
  assumes "cmd_type cmd = UROM_WORKER_CMD_RDMO_MR_REG" and "urom_worker_rdmo_mr_reg_cmd env w d cmd = (st, w')"
  shows "answered_by (silent env w d cmd) w d cmd st w'"
  using assms
  by (auto simp: urom_worker_rdmo_mr_reg_cmd_def Let_def answer_defs split: if_split_asm option.split_asm)

lemma mr_dereg_answered [answered]:
  assumes "cmd_type cmd = UROM_WORKER_CMD_RDMO_MR_DEREG" and "urom_worker_rdmo_mr_dereg_cmd env w d cmd = Some (st, w')"
  shows "answered_by (silent env w d cmd) w d cmd st w'"
  using assms
  by (auto simp: urom_worker_rdmo_mr_dereg_cmd_def Let_def answer_defs split: if_split_asm option.split_asm prod.split_asm)

lemma worker_cmd_one_handler:
  assumes "urom_worker_rdmo_cmd_unpack (desc_base d) (desc_len d) (desc_plugin d) = Some (DOCA_SUCCESS, Some cmd)"
  shows "worker_cmd_one env w d =
     (if cmd_type cmd = UROM_WORKER_CMD_RDMO_CLIENT_INIT then Some (urom_worker_rdmo_client_init_cmd env w d cmd)
      else if cmd_type cmd = UROM_WORKER_CMD_RDMO_RQ_CREATE then Some (urom_worker_rdmo_rq_create_cmd env w d cmd)
      else if cmd_type cmd = UROM_WORKER_CMD_RDMO_RQ_DESTROY then urom_worker_rdmo_rq_destroy_cmd env w d cmd
      else if cmd_type cmd = UROM_WORKER_CMD_RDMO_MR_REG then Some (urom_worker_rdmo_mr_reg_cmd env w d cmd)
      else if cmd_type cmd = UROM_WORKER_CMD_RDMO_MR_DEREG then urom_worker_rdmo_mr_dereg_cmd env w d cmd
      else Some (DOCA_ERROR_INVALID_VALUE, w))"
  by (simp add: worker_cmd_one_def assms)

text \<open>C40. Every command is answered: handling a command of a known type queues exactly one notification, for the
  destination, plugin type and context of the command and of the matching notification type, and its status is
  the status that the handler returns, or for a memory registration any status while the handler returns success.
  No notification is queued exactly when its allocation fails, when a new client asks for an identifier in use, and
  when a destination without a client destroys a queue or deregisters memory, and then the handler returns an error.
\<close>

theorem rdmo_command_answered:
  assumes "urom_worker_rdmo_cmd_unpack (desc_base d) (desc_len d) (desc_plugin d) = Some (DOCA_SUCCESS, Some cmd)"
    and "cmd_type cmd \<in> {UROM_WORKER_CMD_RDMO_CLIENT_INIT, UROM_WORKER_CMD_RDMO_RQ_CREATE, UROM_WORKER_CMD_RDMO_RQ_DESTROY,
      UROM_WORKER_CMD_RDMO_MR_REG, UROM_WORKER_CMD_RDMO_MR_DEREG}"
    and "worker_cmd_one env w d = Some (st, w')"
  shows "if silent env w d cmd then completed_reqs w' = completed_reqs w \<and> st \<noteq> DOCA_SUCCESS
    else \<exists>n. completed_reqs w' = completed_reqs w @ [n] \<and> answers d cmd st n"
proof -
  have "answered_by (silent env w d cmd) w d cmd st w'"
    using assms(2,3) unfolding worker_cmd_one_handler [OF assms(1)]
    by (auto simp: cmd_types intro: answered [simplified cmd_types])
  then show ?thesis by (simp add: answered_by_def)
qed

text \<open>A worker without clients, and an environment in which every call succeeds and the endpoint 100 is created.\<close>

definition good_env :: worker_env where
  "good_env = \<lparr>nd_alloc = True, obj_alloc = True, ep_alloc = True, ep_create = Some 100, ep_put = True, init_mkeys = True,
     init_rqs = True, table_put = True, rkey_unpack = Some 7, mem_map = Unreachable, init_cache = True, mem_unmap = True,
     ep_close = Close_started\<rparr>"

definition sample_desc :: "urom_worker_rdmo_cmd \<Rightarrow> urom_worker_cmd_desc" where
  "sample_desc cmd = \<lparr>desc_dest_id = 5, desc_type = 1, desc_context = 9, desc_len = 56, desc_base = 0, desc_plugin = cmd_bytes cmd\<rparr>"

definition sample_init :: urom_worker_rdmo_cmd where
  "sample_init = \<lparr>cmd_type = 0, cmd_union = [3, 0, 0, 0, 0, 0]\<rparr>"

lemma sample_unpack:
  "urom_worker_rdmo_cmd_unpack 0 56 (cmd_bytes sample_init) = Some (DOCA_SUCCESS, Some (sample_init\<lparr>cmd_union := [3, 56, 0, 0, 0, 0]\<rparr>))"
proof -
  have "rd_cmd (cmd_bytes sample_init) = Some sample_init" using rd_cmd_bytes [of sample_init "[]"] by (simp add: sample_init_def)
  then show ?thesis by (simp add: urom_worker_rdmo_cmd_unpack_def CMD_SIZE_def sample_init_def cmd_types)
qed

lemma sample_one:
  "worker_cmd_one good_env (new_worker (64, 2)) (sample_desc sample_init) =
     Some (urom_worker_rdmo_client_init_cmd good_env (new_worker (64, 2)) (sample_desc sample_init) (sample_init\<lparr>cmd_union := [3, 56, 0, 0, 0, 0]\<rparr>))"
  by (subst worker_cmd_one_handler [where cmd = "sample_init\<lparr>cmd_union := [3, 56, 0, 0, 0, 0]\<rparr>"])
    (simp_all add: sample_desc_def sample_unpack cmd_types, simp add: sample_init_def)

theorem rdmo_command_answered_witness:
  "\<exists>w'. worker_cmd_one good_env (new_worker (64, 2)) (sample_desc sample_init) = Some (DOCA_SUCCESS, w')
    \<and> (\<exists>n. completed_reqs w' = [n] \<and> answers (sample_desc sample_init) (sample_init\<lparr>cmd_union := [3, 56, 0, 0, 0, 0]\<rparr>) DOCA_SUCCESS n)"
proof -
  let ?c = "sample_init\<lparr>cmd_union := [3, 56, 0, 0, 0, 0]\<rparr>"
  obtain st w' where w: "urom_worker_rdmo_client_init_cmd good_env (new_worker (64, 2)) (sample_desc sample_init) ?c = (st, w')" by fastforce
  have st: "st = DOCA_SUCCESS" using w by (simp add: urom_worker_rdmo_client_init_cmd_def good_env_def new_worker_def Let_def
        urom_worker_rdmo_dest_to_client_def urom_worker_rdmo_ep_get_def kh_put_ret_def)
  have "\<not> silent good_env (new_worker (64, 2)) (sample_desc sample_init) ?c"
    by (simp add: silent_def good_env_def new_worker_def sample_init_def cmd_types)
  then show ?thesis
    using rdmo_command_answered [of "sample_desc sample_init" ?c good_env "new_worker (64, 2)" st w'] sample_unpack sample_one w st
    by (simp add: sample_desc_def sample_init_def cmd_types new_worker_def)
qed

section \<open>The tables of the worker\<close>

definition owned_eps :: "urom_worker_rdmo_client \<Rightarrow> u64 list" where
  "owned_eps c = client_ep c # map snd (rqs c)"

definition all_owned :: "(u64 \<times> urom_worker_rdmo_client) list \<Rightarrow> u64 list" where
  "all_owned cs = concat (map (owned_eps \<circ> snd) cs)"

definition worker_inv :: "urom_worker_rdmo \<Rightarrow> bool" where
  "worker_inv w \<longleftrightarrow>
     distinct (map fst (clients w)) \<and> distinct (map (dest_id \<circ> snd) (clients w))
     \<and> (\<forall>(k, c) \<in> set (clients w). client_id c = k \<and> distinct (map fst (rqs c)) \<and> distinct (map fst (mkeys c)))
     \<and> distinct (map fst (eps w)) \<and> distinct (ucp_eps w)
     \<and> distinct (all_owned (clients w)) \<and> set (all_owned (clients w)) \<subseteq> set (ucp_eps w) \<inter> fst ` set (eps w)"

text \<open>UCX does not hand out the handle of an endpoint that is open.\<close>

definition fresh_ep :: "worker_env \<Rightarrow> urom_worker_rdmo \<Rightarrow> bool" where
  "fresh_ep env w \<longleftrightarrow> (\<forall>h. ep_create env = Some h \<longrightarrow> h \<notin> set (ucp_eps w))"

inductive worker_reach :: "urom_worker_rdmo \<Rightarrow> bool" where
  reach_open: "urom_worker_rdmo_open env = (DOCA_SUCCESS, held, Some w) \<Longrightarrow> worker_reach w"
| reach_cmd: "worker_reach w \<Longrightarrow> fresh_ep env w \<Longrightarrow> worker_cmd_one env w d = Some (st, w') \<Longrightarrow> worker_reach w'"
| reach_progress: "worker_reach w \<Longrightarrow> urom_worker_rdmo_progress w ns = (st, w', ns') \<Longrightarrow> worker_reach w'"

lemma all_owned_append [simp]: "all_owned (xs @ ys) = all_owned xs @ all_owned ys"
  by (simp add: all_owned_def)

lemma all_owned_Cons [simp]: "all_owned ((k, c) # ys) = owned_eps c @ all_owned ys"
  by (simp add: all_owned_def)

lemma worker_inv_push [simp]: "worker_inv (push_notif w n) = worker_inv w"
  by (simp add: worker_inv_def push_notif_def)

lemma update_split: "k \<notin> fst ` set xs \<Longrightarrow> AList.update k v (xs @ (k, v') # ys) = xs @ (k, v) # ys"
  by (induction xs) auto

text \<open>A client found by its destination, and replacing it.\<close>

lemma dest_client_split:
  assumes "worker_inv w" and "urom_worker_rdmo_dest_to_client w d = Some c"
  obtains xs ys where "clients w = xs @ (client_id c, c) # ys" and "dest_id c = d"
    "\<And>w' c'. \<lbrakk>clients w' = clients w; client_id c' = client_id c\<rbrakk> \<Longrightarrow> clients (put_client w' c') = xs @ (client_id c, c') # ys"
proof -
  obtain k where f: "List.find (\<lambda>(k, c). dest_id c = d) (clients w) = Some (k, c)"
    using assms(2) by (auto simp: urom_worker_rdmo_dest_to_client_def)
  then have "(k, c) \<in> set (clients w)" and d: "dest_id c = d" by (auto simp: find_Some_iff in_set_conv_nth)
  moreover from this have "client_id c = k" using assms(1) by (auto simp: worker_inv_def)
  ultimately obtain xs ys where s: "clients w = xs @ (client_id c, c) # ys" by (metis split_list)
  have "client_id c \<notin> fst ` set xs" using assms(1) by (auto simp: worker_inv_def s)
  then show ?thesis using s d by (intro that [of xs ys]) (auto simp: put_client_def update_split)
qed

lemma dest_none: "urom_worker_rdmo_dest_to_client w d = None \<longleftrightarrow> d \<notin> dest_id ` snd ` set (clients w)"
  by (force simp: urom_worker_rdmo_dest_to_client_def find_None_iff)

lemma put_client_sel [simp]:
  "eps (put_client w c) = eps w" "ucp_eps (put_client w c) = ucp_eps w"
  by (simp_all add: put_client_def)

lemma worker_inv_put:
  assumes inv: "worker_inv w" and c: "urom_worker_rdmo_dest_to_client w d = Some c" and w': "clients w' = clients w"
    and eps: "distinct (map fst (eps w'))" "distinct (ucp_eps w')"
    and c': "client_id c' = client_id c" "dest_id c' = dest_id c" "distinct (map fst (rqs c'))" "distinct (map fst (mkeys c'))"
    and own: "distinct (owned_eps c')" "set (owned_eps c') \<subseteq> set (ucp_eps w') \<inter> fst ` set (eps w')"
    and oth: "\<And>h. \<lbrakk>h \<in> set (all_owned (clients w)); h \<notin> set (owned_eps c)\<rbrakk>
      \<Longrightarrow> h \<in> set (ucp_eps w') \<inter> fst ` set (eps w') \<and> h \<notin> set (owned_eps c')"
  shows "worker_inv (put_client w' c')"
proof (rule dest_client_split [OF inv c])
  fix xs ys
  assume s: "clients w = xs @ (client_id c, c) # ys"
    and "\<And>w' c'. \<lbrakk>clients w' = clients w; client_id c' = client_id c\<rbrakk> \<Longrightarrow> clients (put_client w' c') = xs @ (client_id c, c') # ys"
  then have s': "clients (put_client w' c') = xs @ (client_id c, c') # ys" using w' c'(1) by blast
  have "\<And>h. h \<in> set (all_owned xs) \<union> set (all_owned ys) \<Longrightarrow> h \<notin> set (owned_eps c)"
    using inv by (auto simp: worker_inv_def s)
  then have o: "\<And>h. h \<in> set (all_owned xs) \<union> set (all_owned ys)
      \<Longrightarrow> h \<in> set (ucp_eps w') \<inter> fst ` set (eps w') \<and> h \<notin> set (owned_eps c')"
    using oth by (simp add: s)
  have i: "distinct (all_owned xs)" "distinct (all_owned ys)" "set (all_owned xs) \<inter> set (all_owned ys) = {}"
    "distinct (map fst (xs @ (client_id c, c) # ys))" "distinct (map (dest_id \<circ> snd) (xs @ (client_id c, c) # ys))"
    "\<forall>(k, c) \<in> set xs \<union> set ys. client_id c = k \<and> distinct (map fst (rqs c)) \<and> distinct (map fst (mkeys c))"
    using inv by (auto simp: worker_inv_def s)
  have "distinct (all_owned (xs @ (client_id c, c') # ys))" using i(1-3) own(1) o by auto
  moreover have "set (all_owned (xs @ (client_id c, c') # ys)) \<subseteq> set (ucp_eps w') \<inter> fst ` set (eps w')" using own(2) o by auto
  ultimately show ?thesis
    unfolding worker_inv_def s' using i(4-6) eps c' by auto
qed

lemma owned_mem:
  assumes "worker_inv w" and "urom_worker_rdmo_dest_to_client w d = Some c"
  shows "set (owned_eps c) \<subseteq> set (all_owned (clients w))" "distinct (owned_eps c)" "distinct (map fst (rqs c))" "distinct (map fst (mkeys c))"
proof -
  obtain xs ys where "clients w = xs @ (client_id c, c) # ys" using dest_client_split [OF assms] by metis
  then show "set (owned_eps c) \<subseteq> set (all_owned (clients w))" "distinct (owned_eps c)" "distinct (map fst (rqs c))"
    "distinct (map fst (mkeys c))" using assms(1) by (auto simp: worker_inv_def)
qed

lemma worker_inv_same:
  assumes "worker_inv w" and "clients w' = clients w" and "eps w' = eps w" and "ucp_eps w' = ucp_eps w"
  shows "worker_inv w'"
  using assms by (simp add: worker_inv_def)

text \<open>Changing anything but the endpoints of a client.\<close>

lemma worker_inv_put_same:
  assumes "worker_inv w" and "urom_worker_rdmo_dest_to_client w d = Some c"
    and "client_id c' = client_id c" "dest_id c' = dest_id c" "client_ep c' = client_ep c" "rqs c' = rqs c" "distinct (map fst (mkeys c'))"
  shows "worker_inv (put_client w c')"
proof -
  have "owned_eps c' = owned_eps c" using assms(5,6) by (simp add: owned_eps_def)
  moreover have "distinct (map fst (eps w))" "distinct (ucp_eps w)"
    "set (all_owned (clients w)) \<subseteq> set (ucp_eps w) \<inter> fst ` set (eps w)"
    using assms(1) by (simp_all add: worker_inv_def)
  ultimately show ?thesis
    using assms(3-7) owned_mem [OF assms(1,2)] by (intro worker_inv_put [OF assms(1,2)]) auto
qed

lemma ep_get_cases:
  assumes "urom_worker_rdmo_ep_get env w = (r, w')"
  obtains (err) e where "r = Inl e" and "w' = w"
  | (ok) h where "r = Inr h" and "ep_create env = Some h" and "h \<notin> fst ` set (eps w)"
      and "w' = w\<lparr>eps := eps w @ [(h, \<lparr>peer_uid = 0, ref_cnt = 1, fenced_ops = [], oreqs = 0\<rparr>)], ucp_eps := h # ucp_eps w\<rparr>"
proof (cases r)
  case (Inl e)
  then show ?thesis using assms by (intro err) (auto simp: urom_worker_rdmo_ep_get_def split: if_split_asm option.split_asm)
next
  case (Inr h)
  then show ?thesis using assms
    by (intro ok) (auto simp: urom_worker_rdmo_ep_get_def kh_put_ret_def map_of_eq_None_iff split: if_split_asm option.split_asm)
qed

lemma ep_get_inv:
  assumes "worker_inv w" and "fresh_ep env w" and "urom_worker_rdmo_ep_get env w = (r, w')"
  shows "worker_inv w'"
  using assms(3)
proof (cases rule: ep_get_cases)
  case (ok h)
  then show ?thesis using assms(1,2) by (auto simp: worker_inv_def fresh_ep_def)
qed (use assms(1) in simp)

lemma client_init_inv:
  assumes inv: "worker_inv w" and fr: "fresh_ep env w" and st: "urom_worker_rdmo_client_init_cmd env w d cmd = (st, w')"
  shows "worker_inv w'"
proof -
  obtain r w1 where g: "urom_worker_rdmo_ep_get env w = (r, w1)" by fastforce
  from g show ?thesis
  proof (cases rule: ep_get_cases)
    case (err e)
    then show ?thesis using inv st by (auto simp: urom_worker_rdmo_client_init_cmd_def Let_def g split: if_split_asm)
  next
    case (ok h)
    have i1: "worker_inv w1" by (rule ep_get_inv [OF inv fr g])
    have h: "h \<notin> set (ucp_eps w)" using fr ok by (simp add: fresh_ep_def)
    then have no: "h \<notin> set (all_owned (clients w))" using inv by (auto simp: worker_inv_def)
    have "worker_inv (w1\<lparr>ucp_eps := remove1 h (ucp_eps w1)\<rparr>)"
      using inv ok by (auto simp: worker_inv_def)
    moreover have "worker_inv (w1\<lparr>clients := clients w1 @ [(cid, \<lparr>client_id = cid, dest_id = desc_dest_id d, client_ep = h, rqs = [],
        next_rq_id = 0, mkeys = [], paused_ops = [], pause = False, get_result = 0\<rparr>)]\<rparr>)"
      if "urom_worker_rdmo_dest_to_client w (desc_dest_id d) = None" "map_of (clients w) cid = None" for cid
      using i1 ok no that by (auto simp: worker_inv_def owned_eps_def all_owned_def dest_none map_of_eq_None_iff)
    ultimately show ?thesis using inv st
      by (auto simp: urom_worker_rdmo_client_init_cmd_def Let_def g ok(1) split: if_split_asm)
  qed
qed

lemma rq_create_inv:
  assumes inv: "worker_inv w" and fr: "fresh_ep env w" and st: "urom_worker_rdmo_rq_create_cmd env w d cmd = (st, w')"
  shows "worker_inv w'"
proof (cases "urom_worker_rdmo_dest_to_client w (desc_dest_id d)")
  case None
  then show ?thesis using inv st by (auto simp: urom_worker_rdmo_rq_create_cmd_def Let_def split: if_split_asm)
next
  case (Some c)
  note own = owned_mem [OF inv Some]
  have next_id: "worker_inv (put_client w (c\<lparr>next_rq_id := next_rq_id c + 1\<rparr>))"
    using own by (intro worker_inv_put_same [OF inv Some]) simp_all
  obtain r w1 where g: "urom_worker_rdmo_ep_get env w = (r, w1)" by fastforce
  from g show ?thesis
  proof (cases rule: ep_get_cases)
    case (err e)
    then show ?thesis using inv st next_id
      by (auto simp: urom_worker_rdmo_rq_create_cmd_def Let_def Some g split: if_split_asm)
  next
    case (ok h)
    have i1: "worker_inv w1" by (rule ep_get_inv [OF inv fr g])
    have h: "h \<notin> set (ucp_eps w)" using fr ok by (simp add: fresh_ep_def)
    have i: "set (all_owned (clients w)) \<subseteq> set (ucp_eps w) \<inter> fst ` set (eps w)" using inv by (simp add: worker_inv_def)
    then have no: "h \<notin> set (all_owned (clients w))" using h by blast
    have "worker_inv (put_client w1 (c\<lparr>next_rq_id := next_rq_id c + 1, rqs := rqs c @ [(next_rq_id c, h)]\<rparr>))"
      if "map_of (rqs c) (next_rq_id c) = None"
    proof (rule worker_inv_put [OF inv Some])
      show "distinct (map fst (eps w1))" "distinct (ucp_eps w1)" using i1 by (simp_all add: worker_inv_def)
      show "distinct (map fst (rqs (c\<lparr>next_rq_id := next_rq_id c + 1, rqs := rqs c @ [(next_rq_id c, h)]\<rparr>)))"
        using own that by (auto simp: map_of_eq_None_iff)
      show "set (owned_eps (c\<lparr>next_rq_id := next_rq_id c + 1, rqs := rqs c @ [(next_rq_id c, h)]\<rparr>)) \<subseteq> set (ucp_eps w1) \<inter> fst ` set (eps w1)"
        using own(1) i ok by (auto simp: owned_eps_def)
    qed (use own no ok i in \<open>auto simp: owned_eps_def\<close>)
    then show ?thesis using inv st next_id
      by (auto simp: urom_worker_rdmo_rq_create_cmd_def Let_def Some g ok(1) kh_put_ret_def split: if_split_asm)
  qed
qed

lemma delete_unique_value:
  assumes "distinct (map fst al)" and "distinct (map snd al)" and "map_of al k = Some v"
  shows "v \<notin> snd ` set (AList.delete k al)"
proof
  assume "v \<in> snd ` set (AList.delete k al)"
  then obtain k' where "(k', v) \<in> set al" "k' \<noteq> k" by (auto simp: AList.delete_eq)
  moreover have "(k, v) \<in> set al" using assms(3) by (rule map_of_SomeD)
  ultimately show False using assms(2) inj_onD [of snd "set al" "(k', v)" "(k, v)"] by (simp add: distinct_map)
qed

lemma rq_destroy_inv:
  assumes inv: "worker_inv w" and st: "urom_worker_rdmo_rq_destroy_cmd env w d cmd = Some (st, w')"
  shows "worker_inv w'"
proof (cases "urom_worker_rdmo_dest_to_client w (desc_dest_id d)")
  case None
  then show ?thesis using inv st by (auto simp: urom_worker_rdmo_rq_destroy_cmd_def Let_def split: if_split_asm)
next
  case (Some c)
  let ?id = "cmd_union cmd ! 0" and ?c' = "c\<lparr>rqs := AList.delete (cmd_union cmd ! 0) (rqs c)\<rparr>"
  note own = owned_mem [OF inv Some]
  have sub: "set (owned_eps ?c') \<subseteq> set (owned_eps c)" by (auto simp: owned_eps_def AList.delete_eq)
  have dis: "distinct (owned_eps ?c')" "distinct (map fst (rqs ?c'))"
    using own(2,3) by (auto simp: owned_eps_def AList.delete_eq distinct_map_filter)
  have i: "set (all_owned (clients w)) \<subseteq> set (ucp_eps w) \<inter> fst ` set (eps w)" "distinct (map fst (eps w))" "distinct (ucp_eps w)"
    using inv by (simp_all add: worker_inv_def)
  have del: "worker_inv (put_client w ?c')"
    by (rule worker_inv_put [OF inv Some]) (use sub dis own i in auto)
  have ok: "worker_inv (put_client (w\<lparr>eps := AList.delete h (eps w), ucp_eps := remove1 h (ucp_eps w)\<rparr>) ?c')"
    if "map_of (rqs c) ?id = Some h" for h
  proof -
    have hc: "h \<in> set (owned_eps c)" using map_of_SomeD [OF that] by (force simp: owned_eps_def)
    moreover have "h \<notin> snd ` set (AList.delete ?id (rqs c))" using own(2,3) that by (intro delete_unique_value) (auto simp: owned_eps_def)
    moreover have "h \<noteq> client_ep c" using own(2) map_of_SomeD [OF that] by (force simp: owned_eps_def)
    ultimately have "h \<notin> set (owned_eps ?c')" by (auto simp: owned_eps_def)
    moreover have "fst ` set (AList.delete h (eps w)) = fst ` set (eps w) - {h}"
      using arg_cong [OF AList.delete_keys [of h "eps w"], of set] by simp
    ultimately show ?thesis
      by (intro worker_inv_put [OF inv Some])
        (use sub dis own i hc in \<open>auto simp: AList.distinct_delete set_remove1_eq\<close>)
  qed
  have ok2: "worker_inv (put_client (put_client (w\<lparr>eps := AList.delete h (eps w), ucp_eps := remove1 h (ucp_eps w)\<rparr>) ?c') ?c')"
    if "map_of (rqs c) ?id = Some h" for h
    using ok [OF that] by (simp add: put_client_def)
  show ?thesis
    using st inv del ok ok2
    by (auto simp: urom_worker_rdmo_rq_destroy_cmd_def urom_worker_rdmo_ep_del_def Let_def Some bind_eq_Some_conv
        split: if_split_asm option.split_asm close_answer.split_asm)
qed

lemma mr_reg_inv:
  assumes inv: "worker_inv w" and st: "urom_worker_rdmo_mr_reg_cmd env w d cmd = (st, w')"
  shows "worker_inv w'"
proof (cases "urom_worker_rdmo_dest_to_client w (desc_dest_id d)")
  case None
  then show ?thesis using inv st by (auto simp: urom_worker_rdmo_mr_reg_cmd_def Let_def split: if_split_asm)
next
  case (Some c)
  have "worker_inv (put_client w (c\<lparr>mkeys := mkeys c @ [(rkey, k)]\<rparr>))" if "map_of (mkeys c) rkey = None" for rkey k
    using owned_mem [OF inv Some] that by (intro worker_inv_put_same [OF inv Some]) (auto simp: map_of_eq_None_iff)
  then show ?thesis using inv st
    by (auto simp: urom_worker_rdmo_mr_reg_cmd_def Let_def Some kh_put_ret_def split: if_split_asm option.split_asm)
qed

lemma mr_dereg_inv:
  assumes inv: "worker_inv w" and st: "urom_worker_rdmo_mr_dereg_cmd env w d cmd = Some (st, w')"
  shows "worker_inv w'"
proof (cases "urom_worker_rdmo_dest_to_client w (desc_dest_id d)")
  case None
  then show ?thesis using inv st by (auto simp: urom_worker_rdmo_mr_dereg_cmd_def Let_def)
next
  case (Some c)
  have "worker_inv (put_client w (c\<lparr>mkeys := AList.delete rkey (mkeys c)\<rparr>))" for rkey
    using owned_mem [OF inv Some] by (intro worker_inv_put_same [OF inv Some]) (auto simp: AList.delete_eq distinct_map_filter)
  then show ?thesis using inv st
    by (auto simp: urom_worker_rdmo_mr_dereg_cmd_def Let_def Some split: if_split_asm option.split_asm prod.split_asm)
qed

lemma worker_cmd_one_inv:
  assumes inv: "worker_inv w" and fr: "fresh_ep env w" and st: "worker_cmd_one env w d = Some (st, w')"
  shows "worker_inv w'"
proof -
  obtain s0 c0 where u: "urom_worker_rdmo_cmd_unpack (desc_base d) (desc_len d) (desc_plugin d) = Some (s0, c0)"
    using st by (cases "urom_worker_rdmo_cmd_unpack (desc_base d) (desc_len d) (desc_plugin d)") (auto simp: worker_cmd_one_def)
  show ?thesis
  proof (cases "s0 = DOCA_SUCCESS")
    case False
    then show ?thesis using st inv by (simp add: worker_cmd_one_def u)
  next
    case True
    then obtain cmd where "c0 = Some cmd" using st by (cases c0) (auto simp: worker_cmd_one_def u)
    then have h: "urom_worker_rdmo_cmd_unpack (desc_base d) (desc_len d) (desc_plugin d) = Some (DOCA_SUCCESS, Some cmd)"
      using u True by simp
    show ?thesis
      using st inv unfolding worker_cmd_one_handler [OF h]
      by (auto split: if_split_asm dest: client_init_inv [OF inv fr] rq_create_inv [OF inv fr] rq_destroy_inv [OF inv]
          mr_reg_inv [OF inv] mr_dereg_inv [OF inv])
  qed
qed

lemma open_new: "urom_worker_rdmo_open env = (DOCA_SUCCESS, held, Some w) \<Longrightarrow> \<exists>a. w = new_worker a"
  by (auto simp: urom_worker_rdmo_open_def Let_def split: if_split_asm option.split_asm)

text \<open>C39. The tables of the worker stay consistent through any sequence of commands, successful or failing at any step,
  and of notification polls: clients are unique by identifier and by destination (so that the lookup by destination does not
  depend on the order of the table), their queues and memory keys are unique, and no two of the clients and receive
  queues share an endpoint, nor does one refer to an endpoint that is closed or not in the table of endpoints. UCX is
  assumed not to hand out the handle of an open endpoint.
\<close>

theorem rdmo_worker_tables: "worker_reach w \<Longrightarrow> worker_inv w"
proof (induction rule: worker_reach.induct)
  case (reach_open env held w)
  then show ?case by (auto dest!: open_new simp: new_worker_def worker_inv_def all_owned_def)
next
  case (reach_cmd w env d st w')
  then show ?case by (blast intro: worker_cmd_one_inv)
next
  case (reach_progress w ns st w' ns')
  then show ?case by (auto simp: urom_worker_rdmo_progress_def worker_inv_def split: if_split_asm)
qed

definition good_open :: open_env where
  "good_open = \<lparr>worker_calloc = True, config_read = True, config_modify = True, context_init = True, worker_create = True,
     get_address = Some (64, 2), set_am_handler = True, init_clients = True, init_eps = True, mpool_init = True\<rparr>"

theorem rdmo_worker_tables_witness:
  "\<exists>w. worker_reach w \<and> map fst (clients w) = [3] \<and> all_owned (clients w) = [100] \<and> worker_inv w"
proof -
  let ?w0 = "new_worker (64, 2)" and ?c = "sample_init\<lparr>cmd_union := [3, 56, 0, 0, 0, 0]\<rparr>"
  obtain st w where w: "urom_worker_rdmo_client_init_cmd good_env ?w0 (sample_desc sample_init) ?c = (st, w)" by fastforce
  have c: "map fst (clients w) = [3]" "all_owned (clients w) = [100]"
    using w by (auto simp: urom_worker_rdmo_client_init_cmd_def good_env_def new_worker_def Let_def push_notif_def sample_init_def
        urom_worker_rdmo_dest_to_client_def urom_worker_rdmo_ep_get_def kh_put_ret_def all_owned_def owned_eps_def)
  have "worker_reach ?w0"
    by (rule reach_open [of good_open _ ?w0]) (simp add: urom_worker_rdmo_open_def good_open_def)
  moreover have "fresh_ep good_env ?w0" by (simp add: fresh_ep_def good_env_def new_worker_def)
  ultimately have "worker_reach w" by (rule reach_cmd [where st = st and d = "sample_desc sample_init"]) (simp add: sample_one w)
  then show ?thesis using rdmo_worker_tables [of w] c by (intro exI [of _ w] conjI)
qed

text \<open>Opening is all or nothing, and closing gives back everything.\<close>

lemma worker_open_resources:
  assumes "urom_worker_rdmo_open env = (st, held, w)"
  shows "if st = DOCA_SUCCESS then w \<noteq> None \<and> urom_worker_rdmo_close held = [] else held = [] \<and> w = None"
  using assms by (auto simp: urom_worker_rdmo_open_def urom_worker_rdmo_close_def Let_def split: if_split_asm option.split_asm)

text \<open>
  A client initialisation that fails after its endpoint was created closes the endpoint but leaves it in the table,
  so that the handle cannot be used again when UCX hands it out for another endpoint.
\<close>

lemma stale_endpoint_blocks:
  assumes "urom_worker_rdmo_ep_get env w = (Inr h, w1)" and "nd_alloc env" and "obj_alloc env"
    and "urom_worker_rdmo_dest_to_client w (desc_dest_id d) = None" and "map_of (clients w) (cmd_union cmd ! 0) = None"
    and "\<not> init_mkeys env" and "urom_worker_rdmo_client_init_cmd env w d cmd = (st, w')" and "distinct (ucp_eps w1)"
    and "ep_alloc env'" and "ep_create env' = Some h"
  shows "h \<notin> set (ucp_eps w') \<and> urom_worker_rdmo_ep_get env' w' = (Inl DOCA_ERROR_DRIVER, w')"
proof -
  have w1: "h \<in> fst ` set (eps w1)" using assms(1) by (auto elim: ep_get_cases)
  have "w' = push_notif (w1\<lparr>ucp_eps := remove1 h (ucp_eps w1)\<rparr>)
      (new_notif d UROM_WORKER_NOTIFY_RDMO_CLIENT_INIT (ucp_addrlen w) [worker_address w, ucp_addrlen w] DOCA_ERROR_INITIALIZATION)"
    using assms by (simp add: urom_worker_rdmo_client_init_cmd_def Let_def)
  then show ?thesis using w1 assms(8-10)
    by (auto simp: urom_worker_rdmo_ep_get_def push_notif_def kh_put_ret_def map_of_eq_None_iff)
qed

section \<open>Notifications reach the callbacks\<close>

lemma length_notif_words: "length (rdmo_notif_union n) = 2 \<Longrightarrow> length (concat (map le64 (notif_words n))) = NOTIF_HDR_SIZE + NOTIF_SIZE"
  by (simp add: length_concat_le64 notif_words_def NOTIF_HDR_SIZE_def NOTIF_SIZE_def)

lemma rd_notify_bytes:
  assumes "length (rdmo_notif_union n) = 2"
  shows "rd_notify (drop NOTIF_HDR_SIZE (concat (map le64 (notif_words n))) @ bs)
    = Some \<lparr>notify_type = rdmo_notif_type n, notify_union = rdmo_notif_union n\<rparr>"
proof -
  have "drop NOTIF_HDR_SIZE (concat (map le64 (notif_words n))) = concat (map le64 (rdmo_notif_type n # rdmo_notif_union n))"
    by (simp add: notif_words_def NOTIF_HDR_SIZE_def)
  then show ?thesis using rd_words_concat [of "rdmo_notif_type n # rdmo_notif_union n" "[]" bs] assms
    by (simp add: rd_notify_def numeral_3_eq_3 numeral_2_eq_2)
qed

text \<open>The notifications of the handlers: the inline data is the address of the worker, for a client initialisation only.\<close>

definition notif_inline :: "host_mem \<Rightarrow> urom_worker_notif_desc \<Rightarrow> u8 list option" where
  "notif_inline mem n =
     (if rdmo_notif_type n = UROM_WORKER_NOTIFY_RDMO_CLIENT_INIT then rd_mem mem (rdmo_notif_union n ! 0) (unat (rdmo_notif_union n ! 1)) else Some [])"

lemma scast_small: "unat (x :: u64) < 2 ^ 31 \<Longrightarrow> (scast (ucast x :: u32) :: u64) = x"
proof -
  assume a: "unat x < 2 ^ 31"
  have "bit (scast (ucast x :: u32) :: u64) n = bit x n" if "n < 64" for n
  proof -
    have z: "\<not> bit x m" if "31 \<le> m" for m
    proof -
      have "unat x < 2 ^ m" using a that by (meson less_le_trans one_le_numeral power_increasing)
      then have "\<not> bit (unat x) m" by (simp add: bit_iff_odd)
      then show ?thesis by (simp add: bit_unsigned_iff)
    qed
    show ?thesis using that z [of 31] z [of n] by (auto simp: bit_signed_iff bit_ucast_iff min_def)
  qed
  then show ?thesis by (intro bit_word_eqI) simp
qed

lemma notif_pack_bytes:
  assumes u: "length (rdmo_notif_union n) = 2" and i: "notif_inline mem n = Some bs"
    and small: "rdmo_notif_type n = UROM_WORKER_NOTIFY_RDMO_CLIENT_INIT \<Longrightarrow> unat (rdmo_notif_union n ! 1) < 2 ^ 31"
    and cap: "NOTIF_HDR_SIZE + NOTIF_SIZE + length bs \<le> length buf" "length buf < 2 ^ 64"
  shows "\<exists>rest. urom_worker_rdmo_notif_pack mem n buf = Some (DOCA_SUCCESS, of_nat (NOTIF_HDR_SIZE + NOTIF_SIZE + length bs),
    concat (map le64 (notif_words n)) @ bs @ rest)"
proof -
  let ?h = "concat (map le64 (notif_words n))" and ?rest = "drop (NOTIF_HDR_SIZE + NOTIF_SIZE) buf"
  note lh = length_notif_words [OF u]
  have w: "write_at 0 ?h buf = Some (?h @ ?rest)" using cap(1) by (simp add: write_at_def lh)
  show ?thesis
  proof (cases "rdmo_notif_type n = UROM_WORKER_NOTIFY_RDMO_CLIENT_INIT")
    case True
    have r: "rd_mem mem (rdmo_notif_union n ! 0) (unat (rdmo_notif_union n ! 1)) = Some bs" using i True by (simp add: notif_inline_def)
    have "pack_raw mem (rdmo_notif_union n ! 0) (rdmo_notif_union n ! 1) (of_nat (length ?h), ?h @ ?rest)
        = Some (of_nat (length (?h @ bs)), (?h @ bs) @ drop (length bs) ?rest)"
      using cap by (intro pack_raw_append [OF r]) (simp_all add: lh)
    then show ?thesis using True by (simp add: urom_worker_rdmo_notif_pack_def w scast_small [OF small [OF True], simplified] lh add.assoc)
  next
    case False
    then show ?thesis using i by (simp add: urom_worker_rdmo_notif_pack_def w notif_inline_def)
  qed
qed

text \<open>What the library makes of a packed notification: the data behind the header and the status in it.\<close>

definition deliver :: "u64 \<Rightarrow> urom_worker_notif_desc \<Rightarrow> u64 \<Rightarrow> u8 list \<Rightarrow> completed_task" where
  "deliver base n packed_len buf = \<lparr>has_user_data = True, response_data = Some (base, drop NOTIF_HDR_SIZE (take (unat packed_len) buf)),
     get_data = DOCA_SUCCESS, get_data_len = DOCA_SUCCESS, task_status = notif_status n\<rparr>"

text \<open>The callback that a notification stands for, with the address of the worker read from the response.\<close>

definition expected_callback :: "u64 \<Rightarrow> urom_worker_notif_desc \<Rightarrow> user_callback" where
  "expected_callback base n =
     notify_callback (notif_status n) \<lparr>notify_type = rdmo_notif_type n, notify_union =
       (if rdmo_notif_type n = UROM_WORKER_NOTIFY_RDMO_CLIENT_INIT then (rdmo_notif_union n)[0 := base + of_nat NOTIF_SIZE] else rdmo_notif_union n)\<rparr>"

lemma notif_reaches_callback:
  assumes "length (rdmo_notif_union n) = 2" and "notif_inline mem n = Some bs"
    and "rdmo_notif_type n = UROM_WORKER_NOTIFY_RDMO_CLIENT_INIT \<Longrightarrow> unat (rdmo_notif_union n ! 1) < 2 ^ 31"
    and "NOTIF_HDR_SIZE + NOTIF_SIZE + length bs \<le> length buf" "length buf < 2 ^ 64"
  shows "\<exists>len packed resp. urom_worker_rdmo_notif_pack mem n buf = Some (DOCA_SUCCESS, len, packed)
    \<and> response_data (deliver base n len packed) = Some (base, resp)
    \<and> urom_rdmo_completion (deliver base n len packed) ty = Some (expected_callback base n)
    \<and> rd_buf base resp (base + of_nat NOTIF_SIZE) (of_nat (length bs)) = Some bs"
proof -
  let ?h = "concat (map le64 (notif_words n))" and ?len = "of_nat (NOTIF_HDR_SIZE + NOTIF_SIZE + length bs) :: u64"
  obtain rest where p: "urom_worker_rdmo_notif_pack mem n buf = Some (DOCA_SUCCESS, ?len, ?h @ bs @ rest)"
    using notif_pack_bytes [OF assms] by blast
  note lh = length_notif_words [OF assms(1)]
  have ul: "unat ?len = NOTIF_HDR_SIZE + NOTIF_SIZE + length bs" using assms(4,5) by (simp add: unat_of_nat del: of_nat_add)
  have resp: "drop NOTIF_HDR_SIZE (take (unat ?len) (?h @ bs @ rest)) = drop NOTIF_HDR_SIZE ?h @ bs"
    unfolding ul by (simp add: lh)
  have dl: "deliver base n ?len (?h @ bs @ rest) = \<lparr>has_user_data = True, response_data = Some (base, drop NOTIF_HDR_SIZE ?h @ bs),
     get_data = DOCA_SUCCESS, get_data_len = DOCA_SUCCESS, task_status = notif_status n\<rparr>"
    by (simp only: deliver_def resp)
  have ld: "length (drop NOTIF_HDR_SIZE ?h) = NOTIF_SIZE" by (simp add: lh)
  have len: "of_nat (length bs) = (if rdmo_notif_type n = UROM_WORKER_NOTIFY_RDMO_CLIENT_INIT then rdmo_notif_union n ! 1 else 0 :: u64)"
    using assms(2) by (auto simp: notif_inline_def dest: length_rd_mem split: if_split_asm)
  have "urom_rdmo_completion (deliver base n ?len (?h @ bs @ rest)) ty = Some (expected_callback base n)"
    unfolding dl using len assms(1) by (simp add: urom_rdmo_completion_def urom_worker_rdmo_notif_unpack_def
        rd_notify_bytes [OF assms(1)] expected_callback_def Let_def cmd_types notify_types lh split: if_splits)
  moreover have "rd_buf base (drop NOTIF_HDR_SIZE ?h @ bs) (base + of_nat NOTIF_SIZE) (of_nat (length bs)) = Some bs"
    using rd_buf_at [of "drop NOTIF_HDR_SIZE ?h" bs base "[]"] assms(4,5) unfolding ld by simp
  moreover have "response_data (deliver base n ?len (?h @ bs @ rest)) = Some (base, drop NOTIF_HDR_SIZE ?h @ bs)" unfolding dl by simp
  ultimately show ?thesis using p by blast
qed

section \<open>The handshake\<close>

lemma received_client_init:
  assumes "received base buf cmd = Some (Req_client_init cid bs)"
  shows "cmd_type cmd = UROM_WORKER_CMD_RDMO_CLIENT_INIT" and "cmd_union cmd ! 0 = cid"
  using assms by (auto simp: received_def Let_def bind_eq_Some_conv split: if_split_asm)

text \<open>Every call of the worker succeeds, UCX creates the endpoint \<open>h\<close> and there is no client for the destination and the identifier.\<close>

definition can_init :: "worker_env \<Rightarrow> u64 \<Rightarrow> urom_worker_rdmo \<Rightarrow> u64 \<Rightarrow> u64 \<Rightarrow> bool" where
  "can_init env h w dest cid \<longleftrightarrow>
     nd_alloc env \<and> obj_alloc env \<and> ep_alloc env \<and> ep_create env = Some h \<and> ep_put env \<and> init_mkeys env \<and> init_rqs env \<and> table_put env
     \<and> urom_worker_rdmo_dest_to_client w dest = None \<and> map_of (clients w) cid = None \<and> map_of (eps w) h = None"

lemma find_app: "List.find P (xs @ ys) = (case List.find P xs of None \<Rightarrow> List.find P ys | Some x \<Rightarrow> Some x)"
  by (induction xs) simp_all

lemma client_init_success:
  assumes "can_init env h w (desc_dest_id d) (cmd_union cmd ! 0)"
  shows "\<exists>w' c. urom_worker_rdmo_client_init_cmd env w d cmd = (DOCA_SUCCESS, w')
    \<and> urom_worker_rdmo_dest_to_client w' (desc_dest_id d) = Some c \<and> client_id c = cmd_union cmd ! 0 \<and> client_ep c = h
    \<and> map_of (eps w') h \<noteq> None
    \<and> completed_reqs w' = completed_reqs w @ [new_notif d UROM_WORKER_NOTIFY_RDMO_CLIENT_INIT (ucp_addrlen w) [worker_address w, ucp_addrlen w] DOCA_SUCCESS]"
  using assms
  by (auto simp: can_init_def urom_worker_rdmo_client_init_cmd_def Let_def urom_worker_rdmo_ep_get_def kh_put_ret_def
      urom_worker_rdmo_dest_to_client_def push_notif_def find_app map_add_def)



end
