(* ===== verification/Spec2Isabelle.thy ===== *)
theory Spec2Isabelle
  imports Pack Antireplay Utils Flow_Cmds Pipes_Manager Ipsec_Rules Fwd_Ft Pcc Urom_Worker
begin

text \<open>
  Verification of the reference applications of the DOCA SDK (\<^verbatim>\<open>src/doca/applications\<close>).

  The repository holds C applications around closed libraries (DOCA Flow, DPDK), headers of those
  libraries and samples. This development models the parts whose logic is in the sources: the
  helpers in \<^verbatim>\<open>common\<close> that several applications use, the IPsec security gateway from its policy
  socket down to the bytes of its packets, the packet parser and the flow table of the forwarding
  application, the congestion control algorithm that runs on the device, and the RDMO plugin of the UROM
  service with both of its sides.

  \<^bold>\<open>Conventions.\<close> Unsigned C integers are words of their width, so arithmetic wraps as in C; an
  \<^verbatim>\<open>int\<close> is a word, an integer or, for a counter that the code bounds, a natural number. Undefined
  behaviour (an access out of bounds, a shift by the width, an uninitialised variable) is \<open>None\<close>, and
  so is a loop that does not end. Error codes are values of \<open>doca_error\<close>, alone or in a sum. A C string
  is the list of its characters without the terminator, a union is the words of its storage, and the
  machine is little-endian with 64 bit pointers. Library functions are fields of a record that the
  definitions take as argument; what is assumed of them is a predicate (\<open>mbuf_laws\<close>, \<open>hash_laws\<close>,
  \<open>alloc_laws\<close>, \<open>pow2_laws\<close>, \<open>recip_laws\<close>) and every property that assumes it has a witness with a concrete record.

  \<^bold>\<open>Common helpers.\<close> \<open>Pack\<close> is \<^verbatim>\<open>pack.c\<close>: packing and unpacking through a cursor, network order and
  round trips. \<open>C_String\<close> is what the sources use of the C library (\<^verbatim>\<open>strtol\<close>, \<^verbatim>\<open>strtok\<close>, copies), and
  \<open>Utils\<close> is \<^verbatim>\<open>utils.c\<close>: bounded string copies that terminate in their buffer, and \<^verbatim>\<open>read_file\<close> that
  closes and frees what it opened.

  \<^bold>\<open>Flow command line.\<close> \<open>Flow_Types\<close> has the structures of \<^verbatim>\<open>doca_flow.h\<close>; \<open>Flow_Values\<close>, \<open>Flow_Fields\<close>,
  \<open>Flow_Params\<close> and \<open>Flow_Cmds\<close> are \<^verbatim>\<open>flow_parser.c\<close>: values, the fields of a structure, the parameters
  of a command and the command handlers with their global structures and callbacks. The loops end, the
  structures keep their shape, and no session of commands calls a callback that is not registered or
  leaks an array. \<open>Pipes_Manager\<close> is \<^verbatim>\<open>flow_pipes_manager.c\<close> over an abstract hash table: what is
  created or added is found until it is removed.

  \<^bold>\<open>IPsec security gateway.\<close> \<open>Ipsec_Types\<close> has the rules and the packet metadata of \<^verbatim>\<open>ipsec_ctx.h\<close> and
  \<^verbatim>\<open>flow_common.h\<close>. \<open>Ipsec_Policy\<close> reads policy messages from the socket and turns them into rules
  (\<^verbatim>\<open>ipsec_security_gw.c\<close>, \<^verbatim>\<open>policy.c\<close>). \<open>Antireplay\<close> is the window check of \<^verbatim>\<open>flow_decrypt.c\<close>, proved a
  refinement of a filter that remembers every number (locale \<open>replay_filter\<close>). \<open>Ipsec_Packet\<close> is the
  software packet path of \<^verbatim>\<open>flow_encrypt.c\<close>, \<^verbatim>\<open>flow_decrypt.c\<close> and \<^verbatim>\<open>ipsec_security_gw.c\<close> on packet
  buffers; \<open>Ipsec_Roundtrip\<close> shows that decapsulation undoes encapsulation for packets in one segment,
  \<open>Ipsec_Burst\<close> what becomes of the packets of a burst and that an accepted packet is dropped when it comes
  again. \<open>Ipsec_Rules\<close> inserts rules into the pipes and is the loop over policies with its growing arrays;
  it composes the socket, the parser, the insertion and the packet path.

  \<^bold>\<open>Forwarding application.\<close> \<open>Fwd_Pkt\<close> is \<^verbatim>\<open>simple_fwd_pkt.c\<close>: the outer and inner headers of a packet and
  its tunnel, on the readable bytes of the packet. \<open>Fwd_Ft\<close> is \<^verbatim>\<open>simple_fwd_ft.c\<close>: the key of a packet, and the
  table with insertion, search, removal, the aging of one bucket and destruction. Every table that a session
  reaches keeps its invariant (\<open>ft_inv\<close>, by rule induction over \<open>ft_session\<close>), for up to \<open>2 ^ 26\<close> flows: with
  more of them the 32 bit size of the allocation wraps. An added packet is found, other packets find what
  they found before, and the destruction hands every entry to the callback once. The key of a GTP-U packet
  is shown to be built from the message type and the flags and not from the tunnel endpoint.

  \<^bold>\<open>Congestion control.\<close> \<open>Pcc\<close> is the reaction point on the device: the rate algorithm (\<^verbatim>\<open>rtt_template.c\<close>)
  with its handlers, and the entry points the library calls (\<^verbatim>\<open>pcc_rp_dev.c\<close>). The build options are
  arguments. Over every sequence of events (\<open>rp_reach\<close>) the rates that are set stay between 1 and the maximal
  rate. Congestion lowers the rate for update factors of at most a tenth; for larger ones, which the declared
  range admits, the factors wrap. The first 32 events of a flow are always handled, and a flow whose
  answers stay lost is shown to shift by the width of the type.

  \<^bold>\<open>RDMO plugin.\<close> \<open>Urom_Cmd\<close> has the commands of \<^verbatim>\<open>urom_rdmo\<close>, packed by the host (\<^verbatim>\<open>host/worker_rdmo.c\<close>) and
  unpacked on the DPU (\<^verbatim>\<open>dpu/worker_rdmo.c\<close>): what the host asks for is what the worker sees, and the pointers of
  an unpacked command stay in the buffer but for lengths that wrap. \<open>Urom_Worker\<close> is the state of the worker with
  the handlers of the commands, the notifications and the completion on the host: every command gets one answer, with
  the exceptions listed there, the tables stay consistent over every sequence of commands (\<open>worker_reach\<close>), and the
  handshake from the call of the host to its callback works as a whole.

  \<^bold>\<open>Loops.\<close> A loop is a recursive function with a termination proof; no fuel is used. The two exceptions
  are \<open>process_all\<close>, which waits for the hardware and is a partial function whose value \<open>None\<close> stands for
  waiting forever, and loops that run until a signal (\<open>policy_loop\<close>, \<open>process_queue_packets\<close>), where the
  number of rounds or the list of bursts before the signal is an argument.

  \<^bold>\<open>Not modelled.\<close> Of the gateway: the creation of pipes, devices and ports, the JSON configuration and
  the insertion of static rules by several threads, and logging and counters of the debug mode. Races
  between the packet cores and the policy loop are outside the model, which runs one of them at a time.
  Of the pipes manager: \<^verbatim>\<open>destroy_pipes_manager\<close>. Of the forwarding application: the endless loop of the
  aging thread around the aging of one bucket, the locks (one caller holds them at a time), the software and
  offload counters of an entry, the user data behind its context, and the pipes and ports (\<^verbatim>\<open>simple_fwd.c\<close>,
  \<^verbatim>\<open>simple_fwd_port.c\<close>, \<^verbatim>\<open>simple_fwd_vnf_core.c\<close>). The matching of tokens by the DPDK command line library
  is outside, so a command arrives with its tokens. Of the congestion control: the host program and the telemetry of the
  notification point. Of the RDMO plugin: the sample client. The other applications and the samples are not
  modelled; most of their code is sequences of calls into libraries whose code is not in the repository.
\<close>

end
